(* ===== verification/Prelude.thy ===== *)
theory Prelude
  imports Main
begin

text \<open>
  Shared vocabulary of the development: the collections of rewrite rules the component
  theories fill, the error-sum bind that sequences JavaScript evaluation steps that may
  throw, a monadic map over lists, splitting a string at a separator character (used for
  the URL query model), and decimal printing of integers (used for JavaScript's
  conversion of numbers to strings).
\<close>

named_theorems js_simps \<open>evaluation equations for the JavaScript value model\<close>
named_theorems screen_simps \<open>equations for the handlers of the weather screen\<close>

section \<open>Throwing computations\<close>

text \<open>
  A JavaScript computation that may throw is a value of \<open>'e + 'a\<close>, \<open>Inl\<close> being the
  thrown error. \<open>sbind\<close> runs the second computation on the result of the first and
  propagates a throw, as the evaluation of a JavaScript expression does.
\<close>

definition sbind :: "'e + 'a \<Rightarrow> ('a \<Rightarrow> 'e + 'b) \<Rightarrow> 'e + 'b" where
  "sbind m f = (case m of Inl e \<Rightarrow> Inl e | Inr a \<Rightarrow> f a)"

fun smap :: "('a \<Rightarrow> 'e + 'b) \<Rightarrow> 'a list \<Rightarrow> 'e + 'b list" where
  "smap f [] = Inr []"
| "smap f (x # xs) = sbind (f x) (\<lambda>y. sbind (smap f xs) (\<lambda>ys. Inr (y # ys)))"

lemma sbind_Inl [simp]: "sbind (Inl e) f = Inl e"
  by (simp add: sbind_def)

lemma sbind_Inr [simp]: "sbind (Inr a) f = f a"
  by (simp add: sbind_def)

lemma sbind_eq_Inr_iff [simp]:
  "sbind m f = Inr b \<longleftrightarrow> (\<exists>a. m = Inr a \<and> f a = Inr b)"
  by (cases m) auto

lemma sbind_eq_Inl_iff:
  "sbind m f = Inl e \<longleftrightarrow> m = Inl e \<or> (\<exists>a. m = Inr a \<and> f a = Inl e)"
  by (cases m) auto

lemma smap_Inr_map:
  "(\<And>x. x \<in> set xs \<Longrightarrow> f x = Inr (g x)) \<Longrightarrow> smap f xs = Inr (map g xs)"
  by (induction xs) auto

lemma smap_Inr_length:
  "smap f xs = Inr ys \<Longrightarrow> length ys = length xs"
  by (induction xs arbitrary: ys) auto

lemma smap_Inr_nth:
  "smap f xs = Inr ys \<Longrightarrow> i < length xs \<Longrightarrow> f (xs ! i) = Inr (ys ! i)"
proof (induction xs arbitrary: ys i)
  case Nil
  then show ?case by simp
next
  case (Cons x xs)
  then obtain y ys' where "f x = Inr y" "smap f xs = Inr ys'" "ys = y # ys'"
    by auto
  with Cons show ?case by (cases i) auto
qed

lemma smap_Inl_iff:
  "(\<exists>e. smap f xs = Inl e) \<longleftrightarrow> (\<exists>x \<in> set xs. \<exists>e. f x = Inl e)"
proof (induction xs)
  case Nil
  then show ?case by simp
next
  case (Cons x xs)
  then show ?case
    by (cases "f x"; cases "smap f xs") auto
qed

section \<open>Splitting at a separator\<close>

text \<open>
  \<open>split_on c xs\<close> cuts \<open>xs\<close> at every occurrence of \<open>c\<close>; it always returns at least
  one piece, as the WHATWG query-string parser's split does.
\<close>

fun split_on :: "'a \<Rightarrow> 'a list \<Rightarrow> 'a list list" where
  "split_on c [] = [[]]"
| "split_on c (x # xs) =
     (let ws = split_on c xs in if x = c then [] # ws else (x # hd ws) # tl ws)"

lemma split_on_not_Nil [simp]: "split_on c xs \<noteq> []"
  by (induction xs) (auto simp: Let_def)

lemma split_on_no_sep: "c \<notin> set xs \<Longrightarrow> split_on c xs = [xs]"
  by (induction xs) auto

lemma split_on_append_sep:
  "c \<notin> set xs \<Longrightarrow> split_on c (xs @ c # ys) = xs # split_on c ys"
  by (induction xs) (auto simp: Let_def)

text \<open>Cutting at the first occurrence only: the part before and the part after.\<close>

definition cut_first :: "'a \<Rightarrow> 'a list \<Rightarrow> 'a list \<times> 'a list option" where
  "cut_first c xs =
     (let w = takeWhile (\<lambda>x. x \<noteq> c) xs; r = dropWhile (\<lambda>x. x \<noteq> c) xs
      in (w, if r = [] then None else Some (tl r)))"

lemma cut_first_Nil [simp]: "cut_first c [] = ([], None)"
  by (simp add: cut_first_def)

lemma cut_first_Cons [simp]:
  "cut_first c (x # xs) =
     (if x = c then ([], Some xs) else (case cut_first c xs of (w, r) \<Rightarrow> (x # w, r)))"
  by (auto simp: cut_first_def Let_def)

lemma cut_first_append_nosep:
  "c \<notin> set xs \<Longrightarrow> cut_first c (xs @ ys) = (case cut_first c ys of (w, r) \<Rightarrow> (xs @ w, r))"
  by (induction xs) (auto split: prod.splits)

lemma cut_first_no_sep: "c \<notin> set xs \<Longrightarrow> cut_first c xs = (xs, None)"
  by (simp add: cut_first_def)

lemma cut_first_append_sep:
  "c \<notin> set xs \<Longrightarrow> cut_first c (xs @ c # ys) = (xs, Some ys)"
  by (simp add: cut_first_def takeWhile_append dropWhile_append)

text \<open>\<open>Array.prototype.join\<close>: the pieces with the separator between them.\<close>

fun join_with :: "'a list \<Rightarrow> 'a list list \<Rightarrow> 'a list" where
  "join_with sep [] = []"
| "join_with sep [x] = x"
| "join_with sep (x # y # zs) = x @ sep @ join_with sep (y # zs)"

section \<open>Decimal printing\<close>

text \<open>Decimal digits of a natural number, most significant first.\<close>

fun dec_digits :: "nat \<Rightarrow> nat list" where
  "dec_digits n = (if n < 10 then [n] else dec_digits (n div 10) @ [n mod 10])"

declare dec_digits.simps [simp del]

definition digit_char :: "nat \<Rightarrow> char" where
  "digit_char d = char_of (48 + d)"

definition nat_to_dec :: "nat \<Rightarrow> string" where
  "nat_to_dec n = map digit_char (dec_digits n)"

definition int_to_dec :: "int \<Rightarrow> string" where
  "int_to_dec i = (if i < 0 then CHR ''-'' # nat_to_dec (nat (- i)) else nat_to_dec (nat i))"

end
