(* ===== verification/JsValue.thy ===== *)
theory JsValue
  imports Prelude
begin

text \<open>
  The JavaScript values the screen manipulates. Both HTTP responses are parsed JSON, and
  the screen's state holds them as they came (\<open>setWeather(data)\<close>,
  \<open>setlocations(data)\<close> in src/screens/HomeScreens.js), so the model keeps them as
  untyped JSON values with \<open>undefined\<close> added. The theory gives the parts of the
  language semantics the source relies on: property read (\<open>a.b\<close>, \<open>a[0]\<close>), which
  throws a TypeError on \<open>null\<close> and \<open>undefined\<close>; optional chaining (\<open>a?.b\<close>), which
  short-circuits the whole rest of the chain; conversion to string (template literals and
  \<open>'https:' + v\<close>); and the comparison \<open>v > 0\<close>.
  Numbers are integers here: the source only passes numbers through to the display, and
  prints none into a string that matters.
\<close>

datatype jsval =
    JUndefined
  | JNull
  | JBool bool
  | JNum int
  | JStr string
  | JArr "jsval list"
  | JObj "(string \<times> jsval) list"

text \<open>
  What ends a render or a handler: a \<open>TypeError\<close> of the language, or the error React
  raises while committing the rendered tree (an object given as a child).
\<close>

datatype js_error = TypeError string | ReactError string

text \<open>A property key: a name (never an array index) or an index.\<close>

datatype jskey = Name string | Idx nat

definition nullish :: "jsval \<Rightarrow> bool" where
  "nullish v \<longleftrightarrow> v = JUndefined \<or> v = JNull"

definition prop_key :: "jskey \<Rightarrow> string" where
  "prop_key p = (case p of Name k \<Rightarrow> k | Idx i \<Rightarrow> nat_to_dec i)"

text \<open>
  An object read by \<open>JSON.parse\<close> keeps the last of duplicate keys, so the lookup
  searches the association list from its end. A missing key reads as \<open>undefined\<close>.
\<close>

definition obj_get :: "(string \<times> jsval) list \<Rightarrow> string \<Rightarrow> jsval" where
  "obj_get kvs k = (case map_of (rev kvs) k of None \<Rightarrow> JUndefined | Some v \<Rightarrow> v)"

fun get_prop :: "jsval \<Rightarrow> jskey \<Rightarrow> js_error + jsval" where
  "get_prop JUndefined p = Inl (TypeError ''Cannot read properties of undefined'')"
| "get_prop JNull p = Inl (TypeError ''Cannot read properties of null'')"
| "get_prop (JObj kvs) p = Inr (obj_get kvs (prop_key p))"
| "get_prop (JArr xs) (Idx i) = Inr (if i < length xs then xs ! i else JUndefined)"
| "get_prop (JArr xs) (Name k) =
     Inr (if k = ''length'' then JNum (int (length xs)) else JUndefined)"
| "get_prop (JStr s) (Idx i) = Inr (if i < length s then JStr [s ! i] else JUndefined)"
| "get_prop (JStr s) (Name k) =
     Inr (if k = ''length'' then JNum (int (length s)) else JUndefined)"
| "get_prop (JBool b) p = Inr JUndefined"
| "get_prop (JNum n) p = Inr JUndefined"

text \<open>
  A member-access chain: \<open>Dot p\<close> is \<open>.p\<close> or \<open>[i]\<close>, \<open>OptDot p\<close> is \<open>?.p\<close>.
  When the base of an \<open>?.\<close> is nullish, the whole remaining chain evaluates to
  \<open>undefined\<close> without reading anything more.
\<close>

datatype access = Dot jskey | OptDot jskey

fun chain :: "jsval \<Rightarrow> access list \<Rightarrow> js_error + jsval" where
  "chain v [] = Inr v"
| "chain v (Dot p # as) = sbind (get_prop v p) (\<lambda>w. chain w as)"
| "chain v (OptDot p # as) =
     (if nullish v then Inr JUndefined else sbind (get_prop v p) (\<lambda>w. chain w as))"

text \<open>
  A chain of \<open>?.\<close> accesses only, \<open>v?.p1?.p2\<close>, evaluated directly: it never throws
  (\<open>chain_OptDot_path\<close> below).
\<close>

fun opt_path :: "jsval \<Rightarrow> jskey list \<Rightarrow> jsval" where
  "opt_path v [] = v"
| "opt_path v (p # ps) =
     (if nullish v then JUndefined
      else (case get_prop v p of Inr w \<Rightarrow> opt_path w ps | Inl e \<Rightarrow> JUndefined))"

text \<open>\<open>String(v)\<close>: arrays join their elements with commas, nullish elements printing empty.\<close>

fun js_to_string :: "jsval \<Rightarrow> string" where
  "js_to_string JUndefined = ''undefined''"
| "js_to_string JNull = ''null''"
| "js_to_string (JBool b) = (if b then ''true'' else ''false'')"
| "js_to_string (JNum n) = int_to_dec n"
| "js_to_string (JStr s) = s"
| "js_to_string (JArr xs) =
     join_with '','' (map (\<lambda>x. if nullish x then [] else js_to_string x) xs)"
| "js_to_string (JObj kvs) = ''[object Object]''"

text \<open>\<open>s + v\<close> with a string on the left: string concatenation after \<open>String(v)\<close>.\<close>

definition js_add_str :: "string \<Rightarrow> jsval \<Rightarrow> string" where
  "js_add_str s v = s @ js_to_string v"

text \<open>
  \<open>Number(s)\<close> for strings, restricted to the forms that can arise here: the empty
  string is 0, a string of decimal digits its value, anything else \<open>NaN\<close> (\<open>None\<close>).
  (JavaScript also accepts surrounding blanks, signs, fractions and exponents; no value
  of this program's state is such a string at a comparison.)
\<close>

definition is_digit :: "char \<Rightarrow> bool" where
  "is_digit c \<longleftrightarrow> c \<in> set ''0123456789''"

definition str_to_number :: "string \<Rightarrow> int option" where
  "str_to_number s =
     (if list_all is_digit s
      then Some (foldl (\<lambda>n c. 10 * n + (int (of_char c) - 48)) 0 s) else None)"

text \<open>\<open>v > 0\<close>: both sides converted to numbers; \<open>NaN\<close> compares false.\<close>

fun js_gt_zero :: "jsval \<Rightarrow> bool" where
  "js_gt_zero JUndefined = False"
| "js_gt_zero JNull = False"
| "js_gt_zero (JBool b) = b"
| "js_gt_zero (JNum n) = (0 < n)"
| "js_gt_zero (JStr s) = (case str_to_number s of Some n \<Rightarrow> 0 < n | None \<Rightarrow> False)"
| "js_gt_zero (JArr xs) =
     (case str_to_number (js_to_string (JArr xs)) of Some n \<Rightarrow> 0 < n | None \<Rightarrow> False)"
| "js_gt_zero (JObj kvs) = False"

section \<open>Evaluation lemmas\<close>

lemma nullish_simps [simp, js_simps]:
  "nullish JUndefined" "nullish JNull" "\<not> nullish (JBool b)" "\<not> nullish (JNum n)"
  "\<not> nullish (JStr s)" "\<not> nullish (JArr xs)" "\<not> nullish (JObj kvs)"
  by (simp_all add: nullish_def)

lemma get_prop_throws_iff [js_simps]: "(\<exists>e. get_prop v p = Inl e) \<longleftrightarrow> nullish v"
  by (cases v; cases p) auto

lemma get_prop_total [js_simps]: "\<not> nullish v \<Longrightarrow> \<exists>w. get_prop v p = Inr w"
  by (cases v; cases p) auto

lemma get_prop_nullish_Inl: "nullish v \<Longrightarrow> \<exists>e. get_prop v p = Inl e"
  using get_prop_throws_iff by blast

lemma chain_OptDot_nullish [simp, js_simps]:
  "nullish v \<Longrightarrow> chain v (OptDot p # as) = Inr JUndefined"
  by simp

text \<open>A chain of optional accesses only never throws.\<close>

definition all_optional :: "access list \<Rightarrow> bool" where
  "all_optional as \<longleftrightarrow> (\<forall>a \<in> set as. \<exists>p. a = OptDot p)"

lemma chain_all_optional:
  "all_optional as \<Longrightarrow> \<exists>w. chain v as = Inr w"
proof (induction as arbitrary: v)
  case Nil
  then show ?case by simp
next
  case (Cons a as)
  then obtain p where a: "a = OptDot p" and rest: "all_optional as"
    by (auto simp: all_optional_def)
  show ?case
  proof (cases "nullish v")
    case True
    with a show ?thesis by simp
  next
    case False
    then obtain w where "get_prop v p = Inr w" using get_prop_total by blast
    with a False Cons.IH [OF rest] show ?thesis by simp
  qed
qed

lemma get_prop_opt_path:
  "\<not> nullish v \<Longrightarrow> get_prop v p = Inr (opt_path v [p])"
  using get_prop_total [of v p] by auto

lemma opt_path_nullish [simp, js_simps]: "nullish v \<Longrightarrow> opt_path v (p # ps) = JUndefined"
  by simp

lemma opt_path_step:
  "\<not> nullish v \<Longrightarrow> opt_path v (p # ps) = opt_path (opt_path v [p]) ps"
  using get_prop_total [of v p] by auto

lemma opt_path_Cons_Inr:
  "get_prop w p = Inr c \<Longrightarrow> opt_path w (p # ps) = opt_path c ps"
  using get_prop_throws_iff [of w p] by auto

text \<open>The optional chain and its direct evaluation agree.\<close>

lemma chain_OptDot_path: "chain v (map OptDot ps) = Inr (opt_path v ps)"
proof (induction ps arbitrary: v)
  case Nil
  then show ?case by simp
next
  case (Cons p ps)
  show ?case
  proof (cases "nullish v")
    case True
    then show ?thesis by simp
  next
    case False
    then obtain w where "get_prop v p = Inr w" using get_prop_total by blast
    with False Cons.IH show ?thesis by simp
  qed
qed

lemma obj_get_Cons [js_simps]:
  "obj_get (kvs @ [(k, v)]) k' = (if k' = k then v else obj_get kvs k')"
  by (simp add: obj_get_def)

end
