(* ===== verification/Transport.thy ===== *)
theory Transport
  imports JsValue
begin

text \<open>
  The transport of src/api/weather.js. \<open>forecastEndpoint\<close> and \<open>locationEndpoint\<close>
  build the request URLs by template literals; \<open>apiCall\<close> sends a GET through axios and
  returns the response body, or \<open>null\<close> after logging when axios rejects;
  \<open>fetchWeatherForecast\<close> and \<open>fetchLocation\<close> compose the two.
  The call is asynchronous, so it is split at its one suspension point: the request it
  sends (\<open>apiCall_request\<close>), and the value its promise resolves to once the network
  answers (\<open>apiCall_result\<close>). The screen theory keeps the requests in flight between
  the two.
  The second half of the theory models how the weather provider reads a URL's query
  (the WHATWG URL and \<open>application/x-www-form-urlencoded\<close> parsers), so that what the
  URLs carry can be stated as a round trip.
\<close>

record params =
  cityName :: jsval
  days :: jsval

text \<open>The key is the \<open>apiKey\<close> constant imported from \<open>../constants\<close>.\<close>

definition forecastEndpoint :: "string \<Rightarrow> params \<Rightarrow> string" where
  "forecastEndpoint apiKey ps =
     ''https://api.weatherapi.com/v1/forecast.json?key='' @ apiKey @
     ''&q='' @ js_to_string (cityName ps) @ ''&days='' @ js_to_string (days ps) @
     ''&aqi=no&alerts=no'' @ [CHR 0x0A]"

definition locationEndpoint :: "string \<Rightarrow> params \<Rightarrow> string" where
  "locationEndpoint apiKey ps =
     ''https://api.weatherapi.com/v1/search.json?key='' @ apiKey @
     ''&q='' @ js_to_string (cityName ps)"

datatype http_method = GET

record request =
  req_method :: http_method
  req_url :: string

text \<open>
  What the network does with a request: the server answers with a status and a body (as
  axios parsed it), or there is no answer at all (DNS or connection failure, timeout).
\<close>

datatype http_outcome = Reply nat jsval | NoReply

definition apiCall_request :: "string \<Rightarrow> request" where
  "apiCall_request endpoint = \<lparr>req_method = GET, req_url = endpoint\<rparr>"

text \<open>
  axios resolves for a status in 200..299 (its default \<open>validateStatus\<close>) and rejects
  otherwise; the \<open>catch\<close> of \<open>apiCall\<close> turns every rejection into \<open>null\<close>.
\<close>

definition axios_ok :: "nat \<Rightarrow> bool" where
  "axios_ok st \<longleftrightarrow> 200 \<le> st \<and> st < 300"

definition apiCall_result :: "http_outcome \<Rightarrow> jsval" where
  "apiCall_result out =
     (case out of Reply st d \<Rightarrow> if axios_ok st then d else JNull | NoReply \<Rightarrow> JNull)"

definition fetchWeatherForecast :: "string \<Rightarrow> params \<Rightarrow> request" where
  "fetchWeatherForecast apiKey ps = apiCall_request (forecastEndpoint apiKey ps)"

definition fetchLocation :: "string \<Rightarrow> params \<Rightarrow> request" where
  "fetchLocation apiKey ps = apiCall_request (locationEndpoint apiKey ps)"

section \<open>How the provider reads the query string\<close>

text \<open>
  The URL parser first removes every ASCII tab and newline from the input; the query is
  what lies between the first \<open>?\<close> and the next \<open>#\<close>. The query is split at \<open>&\<close>,
  empty pieces are dropped, each piece is cut at its first \<open>=\<close>, and both halves are
  form-decoded (\<open>+\<close> is a space, \<open>%hh\<close> a byte).
\<close>

definition strip_tab_newline :: "string \<Rightarrow> string" where
  "strip_tab_newline = filter (\<lambda>c. c \<notin> {CHR 0x09, CHR 0x0A, CHR 0x0D})"

definition url_query :: "string \<Rightarrow> string option" where
  "url_query u =
     (case snd (cut_first (CHR ''?'') (strip_tab_newline u)) of
        None \<Rightarrow> None
      | Some r \<Rightarrow> Some (fst (cut_first (CHR ''#'') r)))"

definition hex_val :: "char \<Rightarrow> nat option" where
  "hex_val c =
     (let n = of_char c :: nat in
      if 48 \<le> n \<and> n \<le> 57 then Some (n - 48)
      else if 65 \<le> n \<and> n \<le> 70 then Some (n - 55)
      else if 97 \<le> n \<and> n \<le> 102 then Some (n - 87) else None)"

fun pct_decode :: "string \<Rightarrow> string" where
  "pct_decode (c # h # l # rest) =
     (if c = CHR ''%'' then
        (case (hex_val h, hex_val l) of
           (Some a, Some b) \<Rightarrow> char_of (16 * a + b) # pct_decode rest
         | _ \<Rightarrow> c # pct_decode (h # l # rest))
      else c # pct_decode (h # l # rest))"
| "pct_decode cs = cs"

definition form_decode :: "string \<Rightarrow> string" where
  "form_decode s = pct_decode (map (\<lambda>c. if c = CHR ''+'' then CHR '' '' else c) s)"

definition query_pair :: "string \<Rightarrow> string \<times> string" where
  "query_pair s =
     (case cut_first (CHR ''='') s of
        (n, None) \<Rightarrow> (form_decode n, [])
      | (n, Some v) \<Rightarrow> (form_decode n, form_decode v))"

definition query_params :: "string \<Rightarrow> (string \<times> string) list" where
  "query_params u =
     (case url_query u of
        None \<Rightarrow> []
      | Some q \<Rightarrow> map query_pair (filter (\<lambda>s. s \<noteq> []) (split_on (CHR ''&'') q)))"

text \<open>A text that passes through a URL query unchanged and without splitting it.\<close>

definition url_safe :: "string \<Rightarrow> bool" where
  "url_safe s \<longleftrightarrow>
     (\<forall>c \<in> set s. c \<notin> {CHR ''&'', CHR ''#'', CHR ''%'', CHR ''+'', CHR 0x09, CHR 0x0A, CHR 0x0D})"

section \<open>Lemmas\<close>

lemma pct_decode_no_pct: "CHR ''%'' \<notin> set s \<Longrightarrow> pct_decode s = s"
  by (induction s rule: pct_decode.induct) auto

lemma url_safe_facts:
  assumes "url_safe s"
  shows "CHR ''&'' \<notin> set s" "CHR ''#'' \<notin> set s" "form_decode s = s"
    "strip_tab_newline s = s"
proof -
  from assms show "CHR ''&'' \<notin> set s" "CHR ''#'' \<notin> set s"
    by (auto simp: url_safe_def)
  from assms have "map (\<lambda>c. if c = CHR ''+'' then CHR '' '' else c) s = s"
    by (induction s) (auto simp: url_safe_def)
  moreover from assms have "CHR ''%'' \<notin> set s" by (auto simp: url_safe_def)
  ultimately show "form_decode s = s" by (simp add: form_decode_def pct_decode_no_pct)
  from assms show "strip_tab_newline s = s"
    by (auto simp: url_safe_def strip_tab_newline_def filter_id_conv)
qed

lemma split_on_append_pair:
  "c \<notin> set xs \<Longrightarrow> c \<notin> set ys \<Longrightarrow> c \<noteq> b \<Longrightarrow>
   split_on c (xs @ b # ys @ c # zs) = (xs @ b # ys) # split_on c zs"
  using split_on_append_sep [of c "xs @ b # ys" zs] by simp

lemmas url_eval_simps = query_params_def url_query_def strip_tab_newline_def query_pair_def
  form_decode_def cut_first_append_nosep cut_first_append_sep cut_first_no_sep split_on_append_sep split_on_no_sep

section \<open>What the network sees\<close>

text \<open>
  A failed request, of whatever kind, reaches the caller as \<open>null\<close>: no status, no
  network error and no body is distinguished.
\<close>

definition transport_failure :: "http_outcome \<Rightarrow> bool" where
  "transport_failure out \<longleftrightarrow> (case out of Reply st d \<Rightarrow> \<not> axios_ok st | NoReply \<Rightarrow> True)"

text \<open>What the provider reads from the request \<open>fetchWeatherForecast\<close> sends.\<close>

lemma forecast_request_query:
  assumes "url_safe k" and "url_safe (js_to_string c)" and "url_safe (js_to_string d)"
  shows "query_params (req_url (fetchWeatherForecast k \<lparr>cityName = c, days = d\<rparr>)) =
    [(''key'', k), (''q'', js_to_string c), (''days'', js_to_string d), (''aqi'', ''no''), (''alerts'', ''no'')]"
  using url_safe_facts [OF assms(1)] url_safe_facts [OF assms(2)] url_safe_facts [OF assms(3)]
  by (simp add: url_eval_simps forecastEndpoint_def fetchWeatherForecast_def apiCall_request_def)

text \<open>
  C11: for a key, a city and a day count that contain no character the URL syntax gives a
  meaning to, the forecast URL carries exactly the five intended parameters, in order.
  The template literal's trailing newline is removed by the URL parser.
\<close>

theorem forecastEndpoint_params:
  assumes k: "url_safe k" and c: "url_safe (js_to_string (cityName ps))"
    and d: "url_safe (js_to_string (days ps))"
  shows "query_params (forecastEndpoint k ps) =
    [(''key'', k), (''q'', js_to_string (cityName ps)), (''days'', js_to_string (days ps)),
     (''aqi'', ''no''), (''alerts'', ''no'')]"
  using url_safe_facts [OF k] url_safe_facts [OF c] url_safe_facts [OF d]
  by (simp add: url_eval_simps forecastEndpoint_def)

theorem forecastEndpoint_params_witness:
  "url_safe ''K'' \<and> url_safe (js_to_string (JStr ''London'')) \<and> url_safe (js_to_string (JStr ''7'')) \<and>
   query_params (forecastEndpoint ''K'' \<lparr>cityName = JStr ''London'', days = JStr ''7''\<rparr>) =
    [(''key'', ''K''), (''q'', ''London''), (''days'', ''7''), (''aqi'', ''no''), (''alerts'', ''no'')]"
proof -
  have s: "url_safe ''K''" "url_safe (js_to_string (JStr ''London''))" "url_safe (js_to_string (JStr ''7''))"
    by (simp_all add: url_safe_def)
  show ?thesis
    using s forecastEndpoint_params [of "''K''" "\<lparr>cityName = JStr ''London'', days = JStr ''7''\<rparr>"]
    by simp
qed

text \<open>C12: the same round trip for the location-search URL.\<close>

theorem locationEndpoint_params:
  assumes k: "url_safe k" and c: "url_safe (js_to_string (cityName ps))"
  shows "query_params (locationEndpoint k ps) = [(''key'', k), (''q'', js_to_string (cityName ps))]"
  using url_safe_facts [OF k] url_safe_facts [OF c]
  by (simp add: url_eval_simps locationEndpoint_def)

theorem locationEndpoint_params_witness:
  "url_safe ''K'' \<and> url_safe (js_to_string (JStr ''Lon'')) \<and>
   query_params (locationEndpoint ''K'' \<lparr>cityName = JStr ''Lon'', days = JUndefined\<rparr>) =
    [(''key'', ''K''), (''q'', ''Lon'')]"
proof -
  have s: "url_safe ''K''" "url_safe (js_to_string (JStr ''Lon''))"
    by (simp_all add: url_safe_def)
  show ?thesis
    using s locationEndpoint_params [of "''K''" "\<lparr>cityName = JStr ''Lon'', days = JUndefined\<rparr>"]
    by simp
qed

text \<open>
  C17: the city name is interpolated without \<open>encodeURIComponent\<close>: a name
  \<open>c&n=v\<close> (with \<open>c\<close>, \<open>n\<close>, \<open>v\<close> free of URL syntax and \<open>n\<close> free of \<open>=\<close>)
  makes the provider receive the query \<open>q = c\<close> and a parameter \<open>n = v\<close> of the
  name's own, ahead of the app's \<open>days\<close>, \<open>aqi\<close> and \<open>alerts\<close>; for \<open>n = days\<close> the
  request carries two day counts.
\<close>

theorem forecastEndpoint_injection:
  assumes k: "url_safe k" and c: "url_safe c" and n: "url_safe n" "CHR ''='' \<notin> set n"
    and v: "url_safe v" and d: "url_safe (js_to_string d)"
  shows "query_params (forecastEndpoint k \<lparr>cityName = JStr (c @ ''&'' @ n @ ''='' @ v), days = d\<rparr>) =
    [(''key'', k), (''q'', c), (n, v), (''days'', js_to_string d), (''aqi'', ''no''), (''alerts'', ''no'')]"
  using url_safe_facts [OF k] url_safe_facts [OF c] url_safe_facts [OF n(1)] url_safe_facts [OF v]
    url_safe_facts [OF d] n(2)
  by (simp add: url_eval_simps split_on_append_pair forecastEndpoint_def)

theorem forecastEndpoint_injection_witness:
  "url_safe ''K'' \<and> url_safe ''Paris'' \<and> url_safe ''days'' \<and> CHR ''='' \<notin> set ''days'' \<and>
   url_safe ''1'' \<and> url_safe (js_to_string (JStr ''7'')) \<and>
   query_params (forecastEndpoint ''K'' \<lparr>cityName = JStr (''Paris'' @ ''&'' @ ''days'' @ ''='' @ ''1''),
                                        days = JStr ''7''\<rparr>) =
     [(''key'', ''K''), (''q'', ''Paris''), (''days'', ''1''), (''days'', ''7''), (''aqi'', ''no''),
      (''alerts'', ''no'')]"
proof -
  have s: "url_safe ''K''" "url_safe ''Paris''" "url_safe ''days''" "CHR ''='' \<notin> set ''days''"
    "url_safe ''1''" "url_safe (js_to_string (JStr ''7''))"
    by (simp_all add: url_safe_def)
  show ?thesis using s forecastEndpoint_injection [OF s] by simp
qed

text \<open>The forecast URL as the source writes it ends in a newline.\<close>

theorem forecastEndpoint_trailing_newline:
  "\<exists>u. forecastEndpoint k ps = u @ ''&aqi=no&alerts=no'' @ [CHR 0x0A]"
  by (auto simp: forecastEndpoint_def)

end
