(* ===== verification/Debounce.thy ===== *)
theory Debounce
  imports Prelude
begin

text \<open>
  lodash's \<open>debounce(func, wait)\<close> with its default options (trailing edge only, no
  \<open>maxWait\<close>), as src/screens/HomeScreens.js uses it for \<open>handleSearch\<close> with a wait of
  1200 ms. lodash is a library the source only calls, so this theory follows its
  documented behaviour: each call records its arguments and restarts the wait; once
  \<open>wait\<close> ms pass with no call, \<open>func\<close> runs once with the last arguments.
  The state is the pending invocation, if any: the last arguments and the time at which
  they fire (last call time plus \<open>wait\<close>). Time is a natural number of milliseconds.
  The interface to the screen is \<open>deb_call\<close> (a call of the debounced function) and
  \<open>deb_advance\<close> (time passing to a given instant, returning the arguments of an
  invocation that fell due).
\<close>

type_synonym 'a deb = "('a \<times> nat) option"

definition deb_call :: "nat \<Rightarrow> nat \<Rightarrow> 'a \<Rightarrow> 'a deb \<Rightarrow> 'a deb" where
  "deb_call wait now x d = Some (x, now + wait)"

definition deb_advance :: "nat \<Rightarrow> 'a deb \<Rightarrow> 'a option \<times> 'a deb" where
  "deb_advance t d =
     (case d of
        None \<Rightarrow> (None, None)
      | Some (x, due) \<Rightarrow> if due \<le> t then (Some x, None) else (None, d))"

section \<open>Lemmas\<close>

lemma deb_advance_due [simp]: "due \<le> t \<Longrightarrow> deb_advance t (Some (x, due)) = (Some x, None)"
  by (simp add: deb_advance_def)

lemma deb_advance_None [simp]: "deb_advance t None = (None, None)"
  by (simp add: deb_advance_def)

end
