(* ===== verification/HomeScreen.thy ===== *)
theory HomeScreen
  imports Transport Debounce
begin

text \<open>
  The state and the handlers of the \<open>HomeScreens\<close> component
  (src/screens/HomeScreens.js). The three \<open>useState\<close> hooks are the fields
  \<open>showSearch\<close>, \<open>locations\<close> and \<open>weather\<close>; the debounced \<open>handleSearch\<close> that
  \<open>useCallback(debounce(handleSearch, 1200), [])\<close> creates once keeps its lodash state in
  \<open>timer\<close>; \<open>clock\<close> is the current time. The requests the handlers start are kept in
  \<open>sent\<close> (every request in the order sent; a request's id is its index there) and in
  \<open>inflight\<close> (the requests whose promise has not settled, each with the continuation
  its \<open>then\<close> or \<open>await\<close> will run). \<open>apiKey\<close> is the constant of \<open>../constants\<close>.
\<close>

text \<open>The code that runs when a request's promise settles.\<close>

datatype cont =
    ThenSetWeather  \<comment> \<open>\<open>.then(data => setWeather(data))\<close>, in \<open>handleLocation\<close> and \<open>fetchMyweatherData\<close>\<close>
  | AwaitSetLocations  \<comment> \<open>the rest of \<open>handleSearch\<close> after \<open>await fetchLocation(...)\<close>\<close>

record screen =
  showSearch :: bool
  locations :: jsval
  weather :: jsval
  timer :: "string deb"
  clock :: nat
  inflight :: "(nat \<times> cont \<times> request) list"
  sent :: "request list"
  apiKey :: string

text \<open>The first render's state: \<open>useState(false)\<close>, \<open>useState([])\<close>, \<open>useState([])\<close>.\<close>

definition init_screen :: "string \<Rightarrow> screen" where
  "init_screen key =
     \<lparr>showSearch = False, locations = JArr [], weather = JArr [], timer = None, clock = 0,
      inflight = [], sent = [], apiKey = key\<rparr>"

definition send :: "cont \<Rightarrow> request \<Rightarrow> screen \<Rightarrow> screen" where
  "send k r s = s\<lparr>inflight := inflight s @ [(length (sent s), k, r)], sent := sent s @ [r]\<rparr>"

section \<open>Handlers\<close>

text \<open>
  \<open>handleLocation(loc)\<close>: clear the list, close the panel, then read \<open>loc.name\<close> to build
  the forecast request, which throws when \<open>loc\<close> is nullish.
\<close>

definition handleLocation :: "jsval \<Rightarrow> screen \<Rightarrow> js_error + screen" where
  "handleLocation loc s =
     (let s1 = s\<lparr>locations := JArr [], showSearch := False\<rparr> in
      sbind (get_prop loc (Name ''name''))
        (\<lambda>n. Inr (send ThenSetWeather
                 (fetchWeatherForecast (apiKey s1) \<lparr>cityName = n, days = JStr ''7''\<rparr>) s1)))"

text \<open>\<open>handleSearch(value)\<close> up to its \<open>await\<close>: a search only for more than two characters.\<close>

definition handleSearch :: "string \<Rightarrow> screen \<Rightarrow> screen" where
  "handleSearch value s =
     (if 2 < length value
      then send AwaitSetLocations
             (fetchLocation (apiKey s) \<lparr>cityName = JStr value, days = JUndefined\<rparr>) s
      else s)"

text \<open>
  \<open>fetchMyweatherData()\<close>, run once by \<open>useEffect(..., [])\<close> after the first render.
\<close>

definition fetchMyweatherData :: "screen \<Rightarrow> screen" where
  "fetchMyweatherData s =
     send ThenSetWeather
       (fetchWeatherForecast (apiKey s) \<lparr>cityName = JStr ''Islamabad'', days = JStr ''7''\<rparr>) s"

text \<open>The search button's \<open>onPress\<close>: \<open>toggleSearch(!showSearch)\<close>.\<close>

definition pressSearch :: "screen \<Rightarrow> screen" where
  "pressSearch s = s\<lparr>showSearch := \<not> showSearch s\<rparr>"

text \<open>The text input's \<open>onChangeText\<close>: a call of the debounced \<open>handleSearch\<close>.\<close>

definition handleTextDebounce :: "string \<Rightarrow> screen \<Rightarrow> screen" where
  "handleTextDebounce text s = s\<lparr>timer := deb_call 1200 (clock s) text (timer s)\<rparr>"

text \<open>Time passing by \<open>d\<close> ms: a debounced \<open>handleSearch\<close> that falls due runs.\<close>

definition advance_time :: "nat \<Rightarrow> screen \<Rightarrow> screen" where
  "advance_time d s =
     (case deb_advance (clock s + d) (timer s) of
        (fired, tm) \<Rightarrow>
          (let s1 = s\<lparr>clock := clock s + d, timer := tm\<rparr> in
           case fired of None \<Rightarrow> s1 | Some v \<Rightarrow> handleSearch v s1))"

text \<open>
  Request \<open>n\<close> settles with the network outcome \<open>out\<close>: \<open>apiCall\<close> resolves to the body
  or to \<open>null\<close>, and the waiting continuation stores that value, whatever it is. The
  \<open>try/catch\<close> of \<open>handleSearch\<close> has nothing to catch: the awaited promise never
  rejects and \<open>setlocations\<close> does not throw. A settlement for a request not in flight
  changes nothing.
\<close>

definition settle :: "nat \<Rightarrow> http_outcome \<Rightarrow> screen \<Rightarrow> screen" where
  "settle n out s =
     (case map_of (inflight s) n of
        None \<Rightarrow> s
      | Some (k, r) \<Rightarrow>
          (let s1 = s\<lparr>inflight := filter (\<lambda>(j, _). j \<noteq> n) (inflight s)\<rparr>;
               data = apiCall_result out in
           case k of
             ThenSetWeather \<Rightarrow> s1\<lparr>weather := data\<rparr>
           | AwaitSetLocations \<Rightarrow> s1\<lparr>locations := data\<rparr>))"

section \<open>Handler lemmas\<close>

lemma send_fields [simp, screen_simps]:
  "showSearch (send k r s) = showSearch s" "locations (send k r s) = locations s"
  "weather (send k r s) = weather s" "timer (send k r s) = timer s"
  "clock (send k r s) = clock s" "apiKey (send k r s) = apiKey s"
  "sent (send k r s) = sent s @ [r]"
  "inflight (send k r s) = inflight s @ [(length (sent s), k, r)]"
  by (simp_all add: send_def)

lemma handleSearch_fields [simp, screen_simps]:
  "showSearch (handleSearch v s) = showSearch s" "locations (handleSearch v s) = locations s"
  "weather (handleSearch v s) = weather s" "timer (handleSearch v s) = timer s"
  "clock (handleSearch v s) = clock s" "apiKey (handleSearch v s) = apiKey s"
  by (simp_all add: handleSearch_def)

lemma advance_time_display [simp, screen_simps]:
  "showSearch (advance_time d s) = showSearch s" "locations (advance_time d s) = locations s"
  "weather (advance_time d s) = weather s" "apiKey (advance_time d s) = apiKey s"
  by (simp_all add: advance_time_def Let_def split: prod.splits option.splits)

lemma settle_fields [simp, screen_simps]:
  "showSearch (settle n out s) = showSearch s" "timer (settle n out s) = timer s"
  "clock (settle n out s) = clock s" "sent (settle n out s) = sent s"
  "apiKey (settle n out s) = apiKey s"
  by (simp_all add: settle_def Let_def split: option.splits prod.splits cont.splits)

lemma settle_weather:
  "map_of (inflight s) n = Some (ThenSetWeather, r) \<Longrightarrow>
   weather (settle n out s) = apiCall_result out \<and> locations (settle n out s) = locations s"
  by (simp add: settle_def)

lemma settle_locations:
  "map_of (inflight s) n = Some (AwaitSetLocations, r) \<Longrightarrow>
   locations (settle n out s) = apiCall_result out \<and> weather (settle n out s) = weather s"
  by (simp add: settle_def)

lemma settle_not_inflight:
  "map_of (inflight s) n = None \<Longrightarrow> settle n out s = s"
  by (simp add: settle_def)

end
