(* ===== verification/Render.thy ===== *)
theory Render
  imports HomeScreen
begin

text \<open>
  The render of \<open>HomeScreens\<close> (src/screens/HomeScreens.js, from
  \<open>const { current, location } = weather\<close> to the end of the returned JSX): the values
  the elements display, as a \<open>view\<close>, or the error the render throws. Styling, images
  and layout are left out; what is kept is every expression the render evaluates, since
  any of them may throw, and a render that throws takes the whole app down (the source
  has no error boundary).
\<close>

record day_card =
  card_icon :: string
  card_date :: jsval
  card_avgtemp :: jsval

record loc_row =
  row_loc :: jsval
  row_name :: jsval
  row_country :: jsval
  row_border :: bool

record view =
  search_input_visible :: bool
  city_name :: jsval
  country_text :: string
  condition_image :: jsval
  temp_c :: jsval
  condition_text :: jsval
  wind_kph :: jsval
  humidity :: jsval
  sunrise :: jsval
  daily :: "day_card list option"
  location_rows :: "loc_row list option"

text \<open>
  One card of the daily forecast: \<open>new Date(item.date)\<close> reads \<open>item.date\<close> without
  \<open>?.\<close>; the weekday name \<open>toLocaleDateString\<close> computes from it is left to the
  platform and the card keeps the date value itself.
\<close>

definition render_day_card :: "jsval \<Rightarrow> jsval \<Rightarrow> js_error + day_card" where
  "render_day_card current item =
     sbind (get_prop item (Name ''date''))
       (\<lambda>date. Inr \<lparr>card_icon = js_add_str ''https:'' (opt_path current [Name ''condition'', Name ''icon'']),
                    card_date = date,
                    card_avgtemp = opt_path item [Name ''day'', Name ''avgtemp_c'']\<rparr>)"

text \<open>
  \<open>weather?.forecast?.forecastday?.map(...)\<close>: nothing when the chain is nullish,
  a TypeError when \<open>forecastday\<close> is there but is no array.
\<close>

definition render_daily :: "jsval \<Rightarrow> jsval \<Rightarrow> js_error + day_card list option" where
  "render_daily w current =
     (let fd = opt_path w [Name ''forecast'', Name ''forecastday''] in
      if nullish fd then Inr None
      else (case fd of
              JArr items \<Rightarrow> sbind (smap (render_day_card current) items) (\<lambda>cs. Inr (Some cs))
            | _ \<Rightarrow> Inl (TypeError ''forecastday.map is not a function'')))"

text \<open>One row of the location list; \<open>showBorder = index + 1 !== locations.length\<close>.\<close>

definition render_row :: "nat \<Rightarrow> nat \<times> jsval \<Rightarrow> loc_row" where
  "render_row len il =
     (case il of (index, loc) \<Rightarrow>
        \<lparr>row_loc = loc, row_name = opt_path loc [Name ''name''],
         row_country = opt_path loc [Name ''country''], row_border = (index + 1 \<noteq> len)\<rparr>)"

text \<open>
  \<open>locations.length > 0 && showSearch ? locations.map(...) : null\<close>: \<open>locations.length\<close>
  is read whatever \<open>showSearch\<close> is.
\<close>

definition render_rows :: "bool \<Rightarrow> jsval \<Rightarrow> js_error + loc_row list option" where
  "render_rows show ls =
     sbind (get_prop ls (Name ''length''))
       (\<lambda>len. if js_gt_zero len \<and> show
              then (case ls of
                      JArr xs \<Rightarrow> Inr (Some (map (render_row (length xs)) (enumerate 0 xs)))
                    | _ \<Rightarrow> Inl (TypeError ''locations.map is not a function''))
              else Inr None)"

text \<open>\<open>weather?.forecast?.forecastday[0]?.astro?.sunrise\<close>: \<open>[0]\<close> has no \<open>?.\<close>.\<close>

definition render_sunrise :: "jsval \<Rightarrow> js_error + jsval" where
  "render_sunrise w =
     chain w [OptDot (Name ''forecast''), OptDot (Name ''forecastday''),
              Dot (Idx 0), OptDot (Name ''astro''), OptDot (Name ''sunrise'')]"

text \<open>
  What React Native does with a value placed as a child of \<open>Text\<close> (lines 88, 99, 103,
  113, 119, 125, 147, 170): a string or a number is shown, \<open>undefined\<close>, \<open>null\<close> and
  booleans show nothing, an array shows its elements, and an object raises
  \<open>Objects are not valid as a React child\<close> while the tree is committed. The source has
  no error boundary, so that error ends the app as a throwing render does (React's
  reconciler, modelled from its documented behaviour).
\<close>

primrec react_child_ok :: "jsval \<Rightarrow> bool"
  and react_children_ok :: "jsval list \<Rightarrow> bool" where
  "react_child_ok JUndefined = True"
| "react_child_ok JNull = True"
| "react_child_ok (JBool b) = True"
| "react_child_ok (JNum n) = True"
| "react_child_ok (JStr s) = True"
| "react_child_ok (JArr xs) = react_children_ok xs"
| "react_child_ok (JObj kvs) = False"
| "react_children_ok [] = True"
| "react_children_ok (x # xs) = (react_child_ok x \<and> react_children_ok xs)"

text \<open>
  The JSON values the view places as \<open>Text\<close> children, in the order of the JSX: the
  city name, the temperature, the condition text, the wind, the humidity, the sunrise,
  each card's average temperature, each row's name and country. (The country line, the
  cards' day names and the icon URI are strings the code builds.)
\<close>

definition view_children :: "view \<Rightarrow> jsval list" where
  "view_children v =
     [city_name v, temp_c v, condition_text v, wind_kph v, humidity v, sunrise v] @
     (case daily v of None \<Rightarrow> [] | Some cs \<Rightarrow> map card_avgtemp cs) @
     (case location_rows v of None \<Rightarrow> [] | Some rs \<Rightarrow> concat (map (\<lambda>r. [row_name r, row_country r]) rs))"

definition react_commit :: "view \<Rightarrow> js_error + view" where
  "react_commit v =
     (if react_children_ok (view_children v) then Inr v
      else Inl (ReactError ''Objects are not valid as a React child''))"

definition render :: "screen \<Rightarrow> js_error + view" where
  "render s =
     sbind (get_prop (weather s) (Name ''current'')) (\<lambda>current.
     sbind (get_prop (weather s) (Name ''location'')) (\<lambda>location.
     sbind (render_sunrise (weather s)) (\<lambda>sunrise.
     sbind (render_daily (weather s) current) (\<lambda>daily.
     sbind (render_rows (showSearch s) (locations s)) (\<lambda>rows.
     react_commit
       \<lparr>search_input_visible = showSearch s,
        city_name = opt_path location [Name ''name''],
        country_text = js_add_str '' '' (opt_path location [Name ''country'']),
        condition_image = opt_path current [Name ''condition'', Name ''text''],
        temp_c = opt_path current [Name ''temp_c''],
        condition_text = opt_path current [Name ''condition'', Name ''text''],
        wind_kph = opt_path current [Name ''wind_kph''],
        humidity = opt_path current [Name ''humidity''],
        sunrise = sunrise, daily = daily, location_rows = rows\<rparr>)))))"

section \<open>Which states render\<close>

text \<open>
  The shapes of data under which nothing of the render throws: a location list is an
  array of entries that are not nullish and whose name and country are valid \<open>Text\<close>
  children; a weather value is not nullish, the fields the header shows are valid
  children, and if it has a \<open>forecast\<close>, that has a \<open>forecastday\<close> array of
  non-nullish days whose average temperatures, and the first day's sunrise, are valid
  children.
\<close>

definition good_candidate :: "jsval \<Rightarrow> bool" where
  "good_candidate l \<longleftrightarrow> \<not> nullish l \<and>
     react_child_ok (opt_path l [Name ''name'']) \<and> react_child_ok (opt_path l [Name ''country''])"

definition good_locations :: "jsval \<Rightarrow> bool" where
  "good_locations v = (case v of JArr xs \<Rightarrow> list_all good_candidate xs | _ \<Rightarrow> False)"

definition good_weather :: "jsval \<Rightarrow> bool" where
  "good_weather w \<longleftrightarrow> \<not> nullish w \<and>
     list_all (\<lambda>p. react_child_ok (opt_path w p))
       [[Name ''location'', Name ''name''], [Name ''current'', Name ''temp_c''],
        [Name ''current'', Name ''condition'', Name ''text''], [Name ''current'', Name ''wind_kph''],
        [Name ''current'', Name ''humidity'']] \<and>
     (let f = opt_path w [Name ''forecast''] in
      nullish f \<or>
      (case opt_path f [Name ''forecastday''] of
         JArr items \<Rightarrow>
           list_all (\<lambda>i. \<not> nullish i \<and> react_child_ok (opt_path i [Name ''day'', Name ''avgtemp_c''])) items \<and>
           react_child_ok (opt_path (JArr items) [Idx 0, Name ''astro'', Name ''sunrise''])
       | _ \<Rightarrow> False))"

lemma react_children_ok_list_all [simp]: "react_children_ok xs = list_all react_child_ok xs"
  by (induction xs) simp_all

lemma react_commit_Inr [simp]:
  "react_commit v = Inr w \<longleftrightarrow> w = v \<and> list_all react_child_ok (view_children v)"
  by (auto simp: react_commit_def)

lemma render_cong:
  "showSearch s = showSearch s' \<Longrightarrow> locations s = locations s' \<Longrightarrow> weather s = weather s' \<Longrightarrow>
   render s = render s'"
  by (simp add: render_def)

lemma render_weather_nullish: "nullish (weather s) \<Longrightarrow> \<exists>e. render s = Inl e"
  by (auto simp: render_def nullish_def)

lemma render_rows_nullish: "nullish ls \<Longrightarrow> \<exists>e. render_rows b ls = Inl e"
  by (auto simp: render_rows_def nullish_def)

lemma render_Inr_parts:
  assumes "render s = Inr v"
  obtains c l where
    "get_prop (weather s) (Name ''current'') = Inr c"
    "get_prop (weather s) (Name ''location'') = Inr l"
    "render_sunrise (weather s) = Inr (sunrise v)"
    "render_daily (weather s) c = Inr (daily v)"
    "render_rows (showSearch s) (locations s) = Inr (location_rows v)"
    "city_name v = opt_path l [Name ''name'']"
    "country_text v = js_add_str '' '' (opt_path l [Name ''country''])"
    "temp_c v = opt_path c [Name ''temp_c'']"
    "condition_text v = opt_path c [Name ''condition'', Name ''text'']"
    "wind_kph v = opt_path c [Name ''wind_kph'']"
    "humidity v = opt_path c [Name ''humidity'']"
    "search_input_visible v = showSearch s"
    "list_all react_child_ok (view_children v)"
  using assms by (auto simp: render_def)

lemma render_Inr_rows:
  "render s = Inr v \<Longrightarrow> render_rows (showSearch s) (locations s) = Inr (location_rows v)"
  by (erule render_Inr_parts)

lemma render_rows_Inl_render:
  "render_rows (showSearch s) (locations s) = Inl e \<Longrightarrow> \<exists>e'. render s = Inl e'"
  by (cases "render s") (auto dest: render_Inr_rows)

lemma render_locations_nullish: "nullish (locations s) \<Longrightarrow> \<exists>e. render s = Inl e"
  using render_rows_nullish render_rows_Inl_render by blast

text \<open>The sunrise chain on a \<open>forecastday\<close> array: the first day's, if any.\<close>

lemma sunrise_arr:
  assumes "opt_path w [Name ''forecast'', Name ''forecastday''] = JArr items"
  shows "render_sunrise w =
           Inr (case items of [] \<Rightarrow> JUndefined | d # ds \<Rightarrow> opt_path d [Name ''astro'', Name ''sunrise''])"
proof -
  have w: "\<not> nullish w" using assms by (cases "nullish w") auto
  then obtain f where f: "get_prop w (Name ''forecast'') = Inr f" using get_prop_total by blast
  have fn: "\<not> nullish f" using assms w f by (cases "nullish f") auto
  then obtain fd where fd: "get_prop f (Name ''forecastday'') = Inr fd" using get_prop_total by blast
  have "fd = JArr items" using assms w f fn fd by simp
  then have r: "render_sunrise w =
      chain (if items = [] then JUndefined else items ! 0) [OptDot (Name ''astro''), OptDot (Name ''sunrise'')]"
    using w f fn fd by (simp add: render_sunrise_def)
  have "chain x [OptDot (Name ''astro''), OptDot (Name ''sunrise'')] =
      Inr (opt_path x [Name ''astro'', Name ''sunrise''])" for x
    using chain_OptDot_path [of x "[Name ''astro'', Name ''sunrise'']"] by simp
  with r show ?thesis by (cases items) simp_all
qed

text \<open>The cards of a \<open>forecastday\<close> array: one per day, in order.\<close>

lemma render_daily_cards:
  assumes "opt_path w [Name ''forecast'', Name ''forecastday''] = JArr items"
    and "render_daily w c = Inr d"
  shows "\<exists>cs. d = Some cs \<and> length cs = length items \<and>
     (\<forall>i < length items.
        card_date (cs ! i) = opt_path (items ! i) [Name ''date''] \<and>
        card_avgtemp (cs ! i) = opt_path (items ! i) [Name ''day'', Name ''avgtemp_c''] \<and>
        card_icon (cs ! i) = js_add_str ''https:'' (opt_path c [Name ''condition'', Name ''icon'']))"
proof -
  obtain cs where cs: "smap (render_day_card c) items = Inr cs" and dv: "d = Some cs"
    using assms by (auto simp: render_daily_def)
  have "card_date (cs ! i) = opt_path (items ! i) [Name ''date''] \<and>
        card_avgtemp (cs ! i) = opt_path (items ! i) [Name ''day'', Name ''avgtemp_c''] \<and>
        card_icon (cs ! i) = js_add_str ''https:'' (opt_path c [Name ''condition'', Name ''icon''])"
    if i: "i < length items" for i
  proof -
    have "render_day_card c (items ! i) = Inr (cs ! i)" by (rule smap_Inr_nth [OF cs i])
    then obtain dt where dt: "get_prop (items ! i) (Name ''date'') = Inr dt"
      and ci: "cs ! i = \<lparr>card_icon = js_add_str ''https:'' (opt_path c [Name ''condition'', Name ''icon'']),
                  card_date = dt, card_avgtemp = opt_path (items ! i) [Name ''day'', Name ''avgtemp_c'']\<rparr>"
      by (auto simp: render_day_card_def)
    have "opt_path (items ! i) [Name ''date''] = dt" using opt_path_Cons_Inr [OF dt] by simp
    with ci show ?thesis by simp
  qed
  with dv smap_Inr_length [OF cs] show ?thesis by auto
qed

lemma good_weather_header:
  "good_weather w \<Longrightarrow>
   list_all (\<lambda>p. react_child_ok (opt_path w p))
     [[Name ''location'', Name ''name''], [Name ''current'', Name ''temp_c''],
      [Name ''current'', Name ''condition'', Name ''text''], [Name ''current'', Name ''wind_kph''],
      [Name ''current'', Name ''humidity'']]"
  by (simp only: good_weather_def)

lemma good_weather_cases:
  assumes "good_weather w"
  obtains f where "get_prop w (Name ''forecast'') = Inr f" "nullish f"
  | f items where "get_prop w (Name ''forecast'') = Inr f" "\<not> nullish f"
      "get_prop f (Name ''forecastday'') = Inr (JArr items)"
      "opt_path w [Name ''forecast'', Name ''forecastday''] = JArr items"
      "list_all (\<lambda>i. \<not> nullish i \<and> react_child_ok (opt_path i [Name ''day'', Name ''avgtemp_c''])) items"
      "react_child_ok (opt_path (JArr items) [Idx 0, Name ''astro'', Name ''sunrise''])"
proof -
  have w: "\<not> nullish w" using assms by (simp add: good_weather_def)
  then obtain f where f: "get_prop w (Name ''forecast'') = Inr f"
    using get_prop_total by blast
  with w have of: "opt_path w [Name ''forecast''] = f" by simp
  show ?thesis
  proof (cases "nullish f")
    case True
    with f show ?thesis by (rule that(1))
  next
    case False
    then obtain fd where fd: "get_prop f (Name ''forecastday'') = Inr fd"
      using get_prop_total by blast
    with False have fdo: "opt_path f [Name ''forecastday''] = fd" by simp
    have "case fd of JArr items \<Rightarrow>
           list_all (\<lambda>i. \<not> nullish i \<and> react_child_ok (opt_path i [Name ''day'', Name ''avgtemp_c''])) items \<and>
           react_child_ok (opt_path (JArr items) [Idx 0, Name ''astro'', Name ''sunrise''])
         | _ \<Rightarrow> False"
      using assms False unfolding good_weather_def Let_def of fdo by simp
    then obtain items where "fd = JArr items"
      "list_all (\<lambda>i. \<not> nullish i \<and> react_child_ok (opt_path i [Name ''day'', Name ''avgtemp_c''])) items"
      "react_child_ok (opt_path (JArr items) [Idx 0, Name ''astro'', Name ''sunrise''])"
      by (cases fd) auto
    moreover have "opt_path w [Name ''forecast'', Name ''forecastday''] = fd"
      using opt_path_Cons_Inr [OF f] fdo by simp
    ultimately show ?thesis using f False fd by (intro that(2)) auto
  qed
qed

lemma good_weather_sunrise:
  assumes "good_weather w"
  shows "\<exists>x. render_sunrise w = Inr x \<and> react_child_ok x"
proof -
  have w: "\<not> nullish w" using assms by (simp add: good_weather_def)
  from assms show ?thesis
  proof (cases rule: good_weather_cases)
    case (1 f)
    with w show ?thesis by (simp add: render_sunrise_def)
  next
    case (2 f items)
    then show ?thesis using sunrise_arr [OF 2(4)] by (cases items) auto
  qed
qed

lemma good_weather_daily:
  assumes "good_weather w"
  shows "\<exists>d. render_daily w current = Inr d \<and>
    list_all react_child_ok (case d of None \<Rightarrow> [] | Some cs \<Rightarrow> map card_avgtemp cs)"
proof -
  have w: "\<not> nullish w" using assms by (simp add: good_weather_def)
  have card: "\<not> nullish i \<Longrightarrow> \<exists>c. render_day_card current i = Inr c" for i
    using get_prop_total [of i "Name ''date''"] by (auto simp: render_day_card_def)
  from assms show ?thesis
  proof (cases rule: good_weather_cases)
    case (1 f)
    with w show ?thesis by (simp add: render_daily_def)
  next
    case (2 f items)
    then have "\<forall>i \<in> set items. \<exists>c. render_day_card current i = Inr c"
      using card by (auto simp: list_all_iff)
    then obtain cs0 where "smap (render_day_card current) items = Inr cs0"
      using smap_Inl_iff [of "render_day_card current" items]
      by (cases "smap (render_day_card current) items") fastforce+
    with 2 w have d: "render_daily w current = Inr (Some cs0)" by (simp add: render_daily_def)
    from render_daily_cards [OF 2(4) d] obtain cs where
      cs: "Some cs0 = Some cs" "length cs = length items"
      "\<forall>i < length items. card_avgtemp (cs ! i) = opt_path (items ! i) [Name ''day'', Name ''avgtemp_c'']"
      by blast
    have "list_all react_child_ok (map card_avgtemp cs)"
      using 2(5) cs(2,3) by (auto simp: list_all_length)
    with d cs(1) show ?thesis by auto
  qed
qed

lemma rows_children_ok_iff:
  "list_all react_child_ok (concat (map (\<lambda>r. [row_name r, row_country r]) (map (render_row n) (enumerate k xs)))) \<longleftrightarrow>
   list_all (\<lambda>l. react_child_ok (opt_path l [Name ''name'']) \<and> react_child_ok (opt_path l [Name ''country''])) xs"
  by (induction xs arbitrary: k) (simp_all del: opt_path.simps add: render_row_def)

lemma rows_children_ok:
  "list_all good_candidate xs \<Longrightarrow>
   list_all react_child_ok (concat (map (\<lambda>r. [row_name r, row_country r]) (map (render_row n) (enumerate k xs))))"
  unfolding rows_children_ok_iff by (simp del: opt_path.simps add: good_candidate_def list_all_iff)

lemma good_locations_rows:
  assumes "good_locations ls"
  shows "\<exists>r. render_rows b ls = Inr r \<and>
    list_all react_child_ok
      (case r of None \<Rightarrow> [] | Some rs \<Rightarrow> concat (map (\<lambda>r. [row_name r, row_country r]) rs))"
proof -
  obtain xs where ls: "ls = JArr xs" and g: "list_all good_candidate xs"
    using assms by (cases ls) (auto simp: good_locations_def)
  show ?thesis using rows_children_ok [OF g] by (simp add: ls render_rows_def)
qed

lemma render_rows_good:
  "good_locations ls \<Longrightarrow> \<exists>r. render_rows b ls = Inr r"
  using good_locations_rows by blast

lemma render_good:
  assumes gw: "good_weather (weather s)" and gl: "good_locations (locations s)"
  shows "\<exists>v. render s = Inr v"
proof -
  have w: "\<not> nullish (weather s)" using gw by (simp add: good_weather_def)
  obtain c where c: "get_prop (weather s) (Name ''current'') = Inr c"
    using get_prop_total [OF w] by blast
  obtain l where l: "get_prop (weather s) (Name ''location'') = Inr l"
    using get_prop_total [OF w] by blast
  obtain x where x: "render_sunrise (weather s) = Inr x" "react_child_ok x"
    using good_weather_sunrise [OF gw] by blast
  obtain d where d: "render_daily (weather s) c = Inr d"
    "list_all react_child_ok (case d of None \<Rightarrow> [] | Some cs \<Rightarrow> map card_avgtemp cs)"
    using good_weather_daily [OF gw] by blast
  obtain r where r: "render_rows (showSearch s) (locations s) = Inr r"
    "list_all react_child_ok
       (case r of None \<Rightarrow> [] | Some rs \<Rightarrow> concat (map (\<lambda>r. [row_name r, row_country r]) rs))"
    using good_locations_rows [OF gl] by blast
  have h: "react_child_ok (opt_path l [Name ''name''])" "react_child_ok (opt_path c [Name ''temp_c''])"
    "react_child_ok (opt_path c [Name ''condition'', Name ''text''])"
    "react_child_ok (opt_path c [Name ''wind_kph''])" "react_child_ok (opt_path c [Name ''humidity''])"
    using good_weather_header [OF gw]
    by (simp_all del: opt_path.simps add: opt_path_Cons_Inr [OF c] opt_path_Cons_Inr [OF l])
  show ?thesis
    by (simp add: render_def c l x d r h view_children_def del: opt_path.simps)
qed

lemma render_rows_shown:
  "xs \<noteq> [] \<Longrightarrow>
   render_rows True (JArr xs) = Inr (Some (map (render_row (length xs)) (enumerate 0 xs)))"
  by (simp add: render_rows_def)

lemma row_loc_nth:
  "i < length xs \<Longrightarrow> row_loc (map (render_row n) (enumerate 0 xs) ! i) = xs ! i"
  by (simp add: render_row_def nth_enumerate_eq)

lemma render_rows_Some:
  "render_rows b ls = Inr (Some rs) \<Longrightarrow>
   b \<and> (\<exists>xs. xs \<noteq> [] \<and> ls = JArr xs \<and> rs = map (render_row (length xs)) (enumerate 0 xs))"
  by (cases ls) (auto simp: render_rows_def split: if_splits)

text \<open>
  C14: a rendered location list shows the entries of \<open>locations\<close> in order, only while
  the panel is open and the list is non-empty, and every row but the last has the
  separating border.
\<close>

theorem location_rows_borders:
  assumes "render s = Inr v" and "location_rows v = Some rs"
  shows "showSearch s \<and> rs \<noteq> [] \<and> locations s = JArr (map row_loc rs) \<and>
    (\<forall>i < length rs. row_border (rs ! i) \<longleftrightarrow> Suc i \<noteq> length rs)"
proof -
  have "render_rows (showSearch s) (locations s) = Inr (Some rs)"
    using render_Inr_rows [OF assms(1)] assms(2) by simp
  from render_rows_Some [OF this] obtain xs where
    sh: "showSearch s" and ne: "xs \<noteq> []" and ls: "locations s = JArr xs"
    and rs: "rs = map (render_row (length xs)) (enumerate 0 xs)"
    by blast
  have "map row_loc rs = xs"
    by (rule nth_equalityI) (simp_all add: rs render_row_def nth_enumerate_eq)
  moreover have "\<forall>i < length rs. row_border (rs ! i) \<longleftrightarrow> Suc i \<noteq> length rs"
    by (simp add: rs render_row_def nth_enumerate_eq)
  moreover have "rs \<noteq> []" using ne rs by (simp add: enumerate_eq_zip)
  ultimately show ?thesis using sh ls by simp
qed

end
