(* ===== verification/Flow.thy ===== *)
theory Flow
  imports Render
begin

text \<open>
  The resolution flow of the spec as the screen runs it: the events the outside world
  delivers to \<open>HomeScreens\<close> (a press of the search button, a text change, time
  passing, a press on a location row, a request settling), each handled by the code
  of src/screens/HomeScreens.js and followed by React's re-render. A render that throws
  crashes the app, which ends the run (\<open>Inl\<close>). The reachable states are those of runs
  from the first render and the mount effect.
\<close>

datatype event =
    PressSearch
  | ChangeText string
  | Wait nat
  | PressLocation nat
  | Settle nat http_outcome

text \<open>
  A press on row \<open>i\<close> exists only if the last render showed that row; its \<open>onPress\<close>
  calls \<open>handleLocation(loc)\<close> with the row's entry.
\<close>

definition dispatch :: "screen \<Rightarrow> event \<Rightarrow> js_error + screen" where
  "dispatch s e =
     (case e of
        PressSearch \<Rightarrow> Inr (pressSearch s)
      | ChangeText t \<Rightarrow> Inr (handleTextDebounce t s)
      | Wait d \<Rightarrow> Inr (advance_time d s)
      | PressLocation i \<Rightarrow>
          sbind (render s)
            (\<lambda>v. case location_rows v of
                   Some rs \<Rightarrow> if i < length rs then handleLocation (row_loc (rs ! i)) s else Inr s
                 | None \<Rightarrow> Inr s)
      | Settle n out \<Rightarrow> Inr (settle n out s))"

definition react_step :: "screen \<Rightarrow> event \<Rightarrow> js_error + screen" where
  "react_step s e = sbind (dispatch s e) (\<lambda>s'. sbind (render s') (\<lambda>v. Inr s'))"

fun run :: "screen \<Rightarrow> event list \<Rightarrow> js_error + screen" where
  "run s [] = Inr s"
| "run s (e # es) = sbind (react_step s e) (\<lambda>s'. run s' es)"

text \<open>The first render, then the mount effect \<open>useEffect(() => fetchMyweatherData(), [])\<close>.\<close>

definition startup :: "string \<Rightarrow> js_error + screen" where
  "startup key = sbind (render (init_screen key)) (\<lambda>v. Inr (fetchMyweatherData (init_screen key)))"

inductive reachable :: "screen \<Rightarrow> bool" where
  start: "startup k = Inr s \<Longrightarrow> reachable s"
| step: "reachable s \<Longrightarrow> react_step s e = Inr s' \<Longrightarrow> reachable s'"

inductive_cases reachable_stepE: "reachable s'"

section \<open>The invariant\<close>

text \<open>
  What every reachable state keeps: each request in flight is the one the log holds under
  its id, ids in flight are distinct, a \<open>then(setWeather)\<close> waits on a forecast URL and
  the search continuation on a search URL; a pending debounced search is due within
  the next 1200 ms and not yet; and the state renders.
\<close>

definition forecast_url :: "string \<Rightarrow> string \<Rightarrow> bool" where
  "forecast_url key u \<longleftrightarrow>
     take (length (''https://api.weatherapi.com/v1/forecast.json?key='' @ key)) u =
       ''https://api.weatherapi.com/v1/forecast.json?key='' @ key"

definition search_url :: "string \<Rightarrow> string \<Rightarrow> bool" where
  "search_url key u \<longleftrightarrow>
     take (length (''https://api.weatherapi.com/v1/search.json?key='' @ key)) u =
       ''https://api.weatherapi.com/v1/search.json?key='' @ key"

definition cont_matches :: "string \<Rightarrow> cont \<Rightarrow> request \<Rightarrow> bool" where
  "cont_matches key k r \<longleftrightarrow>
     req_method r = GET \<and>
     (case k of ThenSetWeather \<Rightarrow> forecast_url key (req_url r)
              | AwaitSetLocations \<Rightarrow> search_url key (req_url r))"

definition req_inv :: "screen \<Rightarrow> bool" where
  "req_inv s \<longleftrightarrow>
     list_all (\<lambda>(n, k, r). n < length (sent s) \<and> sent s ! n = r \<and> cont_matches (apiKey s) k r)
       (inflight s) \<and>
     distinct (map fst (inflight s))"

definition timer_inv :: "screen \<Rightarrow> bool" where
  "timer_inv s \<longleftrightarrow>
     (case timer s of None \<Rightarrow> True | Some (v, due) \<Rightarrow> clock s < due \<and> due \<le> clock s + 1200)"

definition screen_inv :: "screen \<Rightarrow> bool" where
  "screen_inv s \<longleftrightarrow> req_inv s \<and> timer_inv s \<and> (case render s of Inl e \<Rightarrow> False | Inr v \<Rightarrow> True)"

text \<open>Keystrokes, each followed by the time until the next one.\<close>

definition typing :: "(string \<times> nat) list \<Rightarrow> event list" where
  "typing ks = concat (map (\<lambda>(t, g). [ChangeText t, Wait g]) ks)"

definition burst_then_pause :: "(string \<times> nat) list \<Rightarrow> bool" where
  "burst_then_pause ks \<longleftrightarrow>
     ks \<noteq> [] \<and> list_all (\<lambda>(t, g). g < 1200) (butlast ks) \<and> 1200 \<le> snd (last ks)"

text \<open>
  A state whose data have the shapes the render expects, and an event that keeps them:
  every response that settles carries data of the shape its continuation stores.
\<close>

definition good_state :: "screen \<Rightarrow> bool" where
  "good_state s \<longleftrightarrow> good_weather (weather s) \<and> good_locations (locations s)"

definition good_event :: "screen \<Rightarrow> event \<Rightarrow> bool" where
  "good_event s e =
     (case e of
        Settle n out \<Rightarrow>
          (case map_of (inflight s) n of
             None \<Rightarrow> True
           | Some (ThenSetWeather, r) \<Rightarrow> good_weather (apiCall_result out)
           | Some (AwaitSetLocations, r) \<Rightarrow> good_locations (apiCall_result out))
      | _ \<Rightarrow> True)"

section \<open>Preservation of the invariant\<close>

lemma cont_matches_forecast [simp]:
  "cont_matches key ThenSetWeather (fetchWeatherForecast key ps)"
  by (simp add: cont_matches_def forecast_url_def fetchWeatherForecast_def apiCall_request_def
      forecastEndpoint_def)

lemma cont_matches_search [simp]:
  "cont_matches key AwaitSetLocations (fetchLocation key ps)"
  by (simp add: cont_matches_def search_url_def fetchLocation_def apiCall_request_def
      locationEndpoint_def)

lemma req_inv_cong:
  "inflight s' = inflight s \<Longrightarrow> sent s' = sent s \<Longrightarrow> apiKey s' = apiKey s \<Longrightarrow>
   req_inv s' = req_inv s"
  by (simp add: req_inv_def)

lemma req_inv_send:
  assumes "req_inv s" and "cont_matches (apiKey s) k r"
  shows "req_inv (send k r s)"
proof -
  have old: "\<forall>(n, k, r) \<in> set (inflight s). n < length (sent s) \<and> sent s ! n = r \<and>
      cont_matches (apiKey s) k r"
    using assms(1) by (simp add: req_inv_def list_all_iff)
  then have "length (sent s) \<notin> fst ` set (inflight s)" by fastforce
  with assms old show ?thesis
    by (auto simp: req_inv_def list_all_iff nth_append)
qed

lemma req_inv_handleSearch: "req_inv s \<Longrightarrow> req_inv (handleSearch v s)"
  by (simp add: handleSearch_def req_inv_send)

lemma req_inv_advance_time:
  assumes "req_inv s"
  shows "req_inv (advance_time d s)"
proof -
  obtain f tm where adv: "deb_advance (clock s + d) (timer s) = (f, tm)" by fastforce
  have s1: "req_inv (s\<lparr>clock := clock s + d, timer := tm\<rparr>)"
    using assms by (simp add: req_inv_def)
  show ?thesis
    by (cases f) (simp_all add: advance_time_def adv s1 req_inv_handleSearch)
qed

lemma req_inv_settle: "req_inv s \<Longrightarrow> req_inv (settle n out s)"
  by (auto simp: settle_def Let_def req_inv_def list_all_iff distinct_map_filter
      split: option.splits prod.splits cont.splits)

lemma req_inv_handleLocation:
  assumes "req_inv s" and "handleLocation loc s = Inr s'"
  shows "req_inv s'"
proof -
  let ?s1 = "s\<lparr>locations := JArr [], showSearch := False\<rparr>"
  from assms(2) obtain n where s': "s' = send ThenSetWeather
      (fetchWeatherForecast (apiKey ?s1) \<lparr>cityName = n, days = JStr ''7''\<rparr>) ?s1"
    by (auto simp: handleLocation_def Let_def)
  have "req_inv ?s1" using assms(1) by (simp add: req_inv_def)
  then show ?thesis unfolding s' by (rule req_inv_send) simp
qed

lemma timer_inv_advance_time: "timer_inv s \<Longrightarrow> timer_inv (advance_time d s)"
  by (auto simp: advance_time_def Let_def timer_inv_def deb_advance_def
      split: prod.splits option.splits if_splits)

lemma handleLocation_frame:
  "handleLocation loc s = Inr s' \<Longrightarrow>
   timer s' = timer s \<and> clock s' = clock s \<and> weather s' = weather s \<and> apiKey s' = apiKey s"
  by (auto simp: handleLocation_def Let_def)

lemma timer_inv_handleLocation:
  "timer_inv s \<Longrightarrow> handleLocation loc s = Inr s' \<Longrightarrow> timer_inv s'"
  by (drule handleLocation_frame) (auto simp: timer_inv_def split: option.splits)

lemma dispatch_inv:
  assumes "req_inv s" "timer_inv s" "dispatch s e = Inr s'"
  shows "req_inv s' \<and> timer_inv s'"
proof (cases e)
  case PressSearch
  with assms show ?thesis
    by (auto simp: dispatch_def pressSearch_def req_inv_def timer_inv_def split: option.splits)
next
  case (ChangeText t)
  with assms show ?thesis
    by (auto simp: dispatch_def handleTextDebounce_def req_inv_def timer_inv_def deb_call_def)
next
  case (Wait d)
  with assms show ?thesis
    by (auto simp: dispatch_def req_inv_advance_time timer_inv_advance_time)
next
  case (PressLocation i)
  with assms show ?thesis
    by (auto simp: dispatch_def req_inv_handleLocation timer_inv_handleLocation
        split: option.splits if_splits)
next
  case (Settle n out)
  with assms show ?thesis
    by (auto simp: dispatch_def req_inv_settle timer_inv_def split: option.splits)
qed

lemma react_step_renders: "react_step s e = Inr s' \<Longrightarrow> \<exists>v. render s' = Inr v"
  by (auto simp: react_step_def)

lemma react_step_dispatch: "react_step s e = Inr s' \<Longrightarrow> dispatch s e = Inr s'"
  by (auto simp: react_step_def)

lemma startup_inv: "startup k = Inr s \<Longrightarrow> screen_inv s"
proof -
  assume st: "startup k = Inr s"
  then obtain v where v: "render (init_screen k) = Inr v"
    and s: "s = fetchMyweatherData (init_screen k)"
    by (auto simp: startup_def)
  have "req_inv (init_screen k)" by (simp add: req_inv_def init_screen_def)
  then have "req_inv s" by (simp add: s fetchMyweatherData_def req_inv_send)
  moreover have "timer_inv s" by (simp add: s fetchMyweatherData_def timer_inv_def init_screen_def)
  moreover have "render s = render (init_screen k)"
    by (rule render_cong) (simp_all add: s fetchMyweatherData_def)
  ultimately show ?thesis using v by (simp add: screen_inv_def)
qed

lemma reachable_invariant: "reachable s \<Longrightarrow> screen_inv s"
proof (induction rule: reachable.induct)
  case (start k s)
  then show ?case by (rule startup_inv)
next
  case (step s e s')
  then have "req_inv s' \<and> timer_inv s'"
    using dispatch_inv react_step_dispatch by (simp add: screen_inv_def) blast
  moreover obtain v where "render s' = Inr v" using react_step_renders [OF step.hyps(2)] by blast
  ultimately show ?case by (simp add: screen_inv_def)
qed

section \<open>Steps that change nothing the render reads\<close>

lemma render_swap_rows:
  assumes "render s = Inr v" and w: "weather s' = weather s"
    and r: "render_rows (showSearch s') (locations s') = Inr r"
    and rc: "list_all react_child_ok
               (case r of None \<Rightarrow> [] | Some rs \<Rightarrow> concat (map (\<lambda>r. [row_name r, row_country r]) rs))"
  shows "\<exists>v'. render s' = Inr v'"
proof -
  from assms(1) obtain c l where
    "get_prop (weather s) (Name ''current'') = Inr c" "get_prop (weather s) (Name ''location'') = Inr l"
    "render_sunrise (weather s) = Inr (sunrise v)" "render_daily (weather s) c = Inr (daily v)"
    "city_name v = opt_path l [Name ''name'']" "temp_c v = opt_path c [Name ''temp_c'']"
    "condition_text v = opt_path c [Name ''condition'', Name ''text'']"
    "wind_kph v = opt_path c [Name ''wind_kph'']" "humidity v = opt_path c [Name ''humidity'']"
    "list_all react_child_ok (view_children v)"
    by (rule render_Inr_parts)
  then show ?thesis using rc by (simp add: render_def w r view_children_def del: opt_path.simps)
qed

lemma render_rows_empty [simp]: "render_rows b (JArr []) = Inr None"
  by (simp add: render_rows_def)

lemma react_step_quiet:
  assumes "render s = Inr v" and "dispatch s e = Inr s'"
    and "showSearch s' = showSearch s" "locations s' = locations s" "weather s' = weather s"
  shows "react_step s e = Inr s'"
proof -
  have "render s' = render s" by (rule render_cong) (simp_all add: assms)
  with assms show ?thesis by (simp add: react_step_def)
qed

lemma react_step_ChangeText:
  "render s = Inr v \<Longrightarrow> react_step s (ChangeText t) = Inr (handleTextDebounce t s)"
  by (rule react_step_quiet) (simp_all add: dispatch_def handleTextDebounce_def)

lemma react_step_Wait:
  "render s = Inr v \<Longrightarrow> react_step s (Wait d) = Inr (advance_time d s)"
  by (rule react_step_quiet) (simp_all add: dispatch_def)

lemma advance_time_sent:
  "sent (advance_time d s) = sent s @
     (case timer s of
        None \<Rightarrow> []
      | Some (v, due) \<Rightarrow>
          if due \<le> clock s + d \<and> 2 < length v
          then [fetchLocation (apiKey s) \<lparr>cityName = JStr v, days = JUndefined\<rparr>] else [])"
  by (auto simp: advance_time_def deb_advance_def handleSearch_def split: option.splits)

lemma advance_time_timer:
  "timer (advance_time d s) =
     (case timer s of None \<Rightarrow> None | Some (v, due) \<Rightarrow> if due \<le> clock s + d then None else timer s)"
  by (auto simp: advance_time_def deb_advance_def split: option.splits)

lemma advance_time_clock [simp]: "clock (advance_time d s) = clock s + d"
  by (simp add: advance_time_def Let_def split: prod.splits option.splits)

section \<open>Selecting a location\<close>

lemma press_location_rows:
  assumes r: "render s = Inr v" and ls: "locations s = JArr xs" and sh: "showSearch s"
    and i: "i < length xs"
  shows "dispatch s (PressLocation i) = handleLocation (xs ! i) s"
proof -
  let ?rs = "map (render_row (length xs)) (enumerate 0 xs)"
  have ne: "xs \<noteq> []" using i by auto
  have rows: "location_rows v = Some ?rs"
    using render_Inr_rows [OF r] by (simp add: ls sh render_rows_shown [OF ne])
  have loc: "row_loc (?rs ! i) = xs ! i" using i by (rule row_loc_nth)
  have i': "i < length ?rs" using i by simp
  show ?thesis
    by (simp only: dispatch_def event.case r sbind_Inr rows option.case if_P [OF i'] loc)
qed

lemma press_location_react:
  assumes r: "render s = Inr v" and ls: "locations s = JArr xs" and sh: "showSearch s"
    and i: "i < length xs" and nn: "\<not> nullish (xs ! i)"
  shows "react_step s (PressLocation i) =
    Inr (send ThenSetWeather (fetchWeatherForecast (apiKey s)
           \<lparr>cityName = opt_path (xs ! i) [Name ''name''], days = JStr ''7''\<rparr>)
         (s\<lparr>locations := JArr [], showSearch := False\<rparr>))"
proof -
  let ?s' = "send ThenSetWeather (fetchWeatherForecast (apiKey s)
      \<lparr>cityName = opt_path (xs ! i) [Name ''name''], days = JStr ''7''\<rparr>)
      (s\<lparr>locations := JArr [], showSearch := False\<rparr>)"
  obtain w where w: "get_prop (xs ! i) (Name ''name'') = Inr w"
    using get_prop_total [OF nn] by blast
  with nn have ow: "opt_path (xs ! i) [Name ''name''] = w" by simp
  have "handleLocation (xs ! i) s = Inr ?s'"
    using nn by (simp add: handleLocation_def w ow)
  then have d: "dispatch s (PressLocation i) = Inr ?s'"
    using press_location_rows [OF r ls sh i] by simp
  obtain v' where "render ?s' = Inr v'"
    using render_swap_rows [OF r, of ?s' None] by auto
  with d show ?thesis by (simp add: react_step_def)
qed

lemma press_location_step:
  assumes r: "render s = Inr v" and ls: "locations s = JArr xs" and sh: "showSearch s"
    and i: "i < length xs" and nn: "\<not> nullish (xs ! i)"
  shows "\<exists>s'. react_step s (PressLocation i) = Inr s' \<and> locations s' = JArr [] \<and>
     \<not> showSearch s' \<and> weather s' = weather s \<and>
     sent s' = sent s @
       [fetchWeatherForecast (apiKey s) \<lparr>cityName = opt_path (xs ! i) [Name ''name''], days = JStr ''7''\<rparr>] \<and>
     inflight s' = inflight s @ [(length (sent s), ThenSetWeather, last (sent s'))]"
  using press_location_react [OF assms] by simp

lemma press_location_hidden:
  assumes r: "render s = Inr v" and ls: "locations s = JArr xs"
    and h: "\<not> (showSearch s \<and> i < length xs)"
  shows "react_step s (PressLocation i) = Inr s"
proof -
  have "dispatch s (PressLocation i) = Inr s"
  proof (cases "location_rows v")
    case (Some rs)
    have "render_rows (showSearch s) (locations s) = Inr (Some rs)"
      using render_Inr_rows [OF r] Some by simp
    from render_rows_Some [OF this] ls h have "\<not> i < length rs" by auto
    then show ?thesis by (simp add: dispatch_def r Some)
  qed (simp add: dispatch_def r)
  with r show ?thesis by (simp add: react_step_def)
qed

text \<open>
  C1: pressing the row of a (non-nullish) entry of the shown list clears the list, closes
  the search panel and sends exactly one request: the 7-day forecast for the entry's
  name. The displayed forecast is untouched until that request settles.
\<close>

theorem pressLocation_selects:
  assumes "render s = Inr v" and "locations s = JArr xs" and "showSearch s"
    and "i < length xs" and "\<not> nullish (xs ! i)"
  shows "\<exists>s'. react_step s (PressLocation i) = Inr s' \<and> locations s' = JArr [] \<and>
     \<not> showSearch s' \<and> weather s' = weather s \<and>
     sent s' = sent s @
       [fetchWeatherForecast (apiKey s) \<lparr>cityName = opt_path (xs ! i) [Name ''name''], days = JStr ''7''\<rparr>]"
  using press_location_step [OF assms] by blast

section \<open>Debounced search\<close>

text \<open>
  C2: time passing sends a location search exactly when the debounced call is due by the
  end of the wait, and only for a text of more than two characters; nothing else about
  the display changes.
\<close>

theorem wait_sends_search:
  assumes "render s = Inr v"
  shows "\<exists>s'. react_step s (Wait d) = Inr s' \<and>
     sent s' = sent s @
       (case timer s of
          None \<Rightarrow> []
        | Some (t, due) \<Rightarrow>
            if due \<le> clock s + d \<and> 2 < length t
            then [fetchLocation (apiKey s) \<lparr>cityName = JStr t, days = JUndefined\<rparr>] else [])"
  using react_step_Wait [OF assms, of d] advance_time_sent [of d s] by blast

lemma typing_Cons [simp]: "typing ((t, g) # ks) = ChangeText t # Wait g # typing ks"
  by (simp add: typing_def)

lemma typing_Nil [simp]: "typing [] = []"
  by (simp add: typing_def)

text \<open>
  One keystroke and the pause after it: the debounced call is rescheduled to 1200 ms after
  the keystroke and fires during the pause exactly when the pause lasts that long.
\<close>

lemma keystroke:
  assumes r: "render s = Inr v"
  shows "run s (ChangeText t # Wait g # es) = run (advance_time g (handleTextDebounce t s)) es"
    and "render (advance_time g (handleTextDebounce t s)) = Inr v"
    and "sent (advance_time g (handleTextDebounce t s)) = sent s @
           (if 1200 \<le> g \<and> 2 < length t
            then [fetchLocation (apiKey s) \<lparr>cityName = JStr t, days = JUndefined\<rparr>] else [])"
    and "timer (advance_time g (handleTextDebounce t s)) =
           (if 1200 \<le> g then None else Some (t, clock s + 1200))"
    and "apiKey (advance_time g (handleTextDebounce t s)) = apiKey s"
    and "clock (advance_time g (handleTextDebounce t s)) = clock s + g"
proof -
  let ?s1 = "handleTextDebounce t s"
  have f1: "timer ?s1 = Some (t, clock s + 1200)" "clock ?s1 = clock s" "sent ?s1 = sent s"
    "apiKey ?s1 = apiKey s"
    by (simp_all add: handleTextDebounce_def deb_call_def)
  have "render ?s1 = render s" by (rule render_cong) (simp_all add: handleTextDebounce_def)
  with r have r1: "render ?s1 = Inr v" by simp
  have "render (advance_time g ?s1) = render ?s1" by (rule render_cong) simp_all
  with r1 show "render (advance_time g ?s1) = Inr v" by simp
  show "run s (ChangeText t # Wait g # es) = run (advance_time g ?s1) es"
    using r r1 by (simp add: react_step_ChangeText react_step_Wait)
  show "sent (advance_time g ?s1) = sent s @
           (if 1200 \<le> g \<and> 2 < length t
            then [fetchLocation (apiKey s) \<lparr>cityName = JStr t, days = JUndefined\<rparr>] else [])"
    by (simp add: advance_time_sent f1)
  show "timer (advance_time g ?s1) = (if 1200 \<le> g then None else Some (t, clock s + 1200))"
    by (simp add: advance_time_timer f1)
  show "apiKey (advance_time g ?s1) = apiKey s" "clock (advance_time g ?s1) = clock s + g"
    by (simp_all add: f1)
qed

text \<open>
  C3: keystrokes closer together than 1200 ms followed by a pause of at least 1200 ms
  send at most one search, for the final text only (none when it has two characters or
  fewer), and leave nothing pending.
\<close>

theorem typing_searches_once:
  assumes "render s = Inr v" and "burst_then_pause ks"
  shows "\<exists>s'. run s (typing ks) = Inr s' \<and> timer s' = None \<and>
     sent s' = sent s @
       (if 2 < length (fst (last ks))
        then [fetchLocation (apiKey s) \<lparr>cityName = JStr (fst (last ks)), days = JUndefined\<rparr>]
        else [])"
  using assms
proof (induction ks arbitrary: s)
  case Nil
  then show ?case by (simp add: burst_then_pause_def)
next
  case (Cons k ks)
  obtain t g where k: "k = (t, g)" by fastforce
  note ks = keystroke [OF Cons.prems(1), where t = t and g = g]
  let ?s2 = "advance_time g (handleTextDebounce t s)"
  have st: "run s (typing (k # ks)) = run ?s2 (typing ks)"
    using ks(1) [of "typing ks"] by (simp only: k typing_Cons)
  show ?case
  proof (cases "ks = []")
    case True
    with Cons.prems(2) k have "1200 \<le> g" by (simp add: burst_then_pause_def)
    moreover have "run s (typing (k # ks)) = Inr ?s2" using st True by simp
    ultimately show ?thesis using ks(3,4) True k by (simp del: run.simps)
  next
    case False
    with Cons.prems(2) k have g: "g < 1200" and b: "burst_then_pause ks"
      by (auto simp: burst_then_pause_def neq_Nil_conv)
    obtain s' where s': "run ?s2 (typing ks) = Inr s'" "timer s' = None"
      "sent s' = sent ?s2 @
         (if 2 < length (fst (last ks))
          then [fetchLocation (apiKey ?s2) \<lparr>cityName = JStr (fst (last ks)), days = JUndefined\<rparr>]
          else [])"
      using Cons.IH [OF ks(2) b] by blast
    with st ks(3,5) g False k show ?thesis by (simp del: run.simps)
  qed
qed

section \<open>Settling requests\<close>

lemma map_of_filter_other:
  "a \<noteq> n \<Longrightarrow> map_of (filter (\<lambda>(j, _). j \<noteq> n) xs) a = map_of xs a"
  by (induction xs) auto

lemma settle_inflight: "inflight (settle n out s) = filter (\<lambda>(j, _). j \<noteq> n) (inflight s)"
proof (cases "map_of (inflight s) n")
  case None
  then have "\<forall>x \<in> set (inflight s). fst x \<noteq> n"
    by (auto simp: map_of_eq_None_iff)
  then have "filter (\<lambda>(j, _). j \<noteq> n) (inflight s) = inflight s"
    by (intro filter_True) (auto split: prod.splits)
  with None show ?thesis by (simp add: settle_not_inflight)
next
  case (Some kr)
  then show ?thesis by (auto simp: settle_def Let_def split: prod.splits cont.splits)
qed

lemma react_step_Settle:
  "react_step s (Settle n out) = sbind (render (settle n out s)) (\<lambda>v. Inr (settle n out s))"
  by (simp add: react_step_def dispatch_def)

lemma settle_locations_good:
  assumes "map_of (inflight s) n = Some (AwaitSetLocations, r)"
    and "good_weather (weather s)" and "good_locations (apiCall_result out)"
  shows "react_step s (Settle n out) = Inr (settle n out s) \<and>
    locations (settle n out s) = apiCall_result out \<and> weather (settle n out s) = weather s"
proof -
  have l: "locations (settle n out s) = apiCall_result out" "weather (settle n out s) = weather s"
    using settle_locations [OF assms(1)] by simp_all
  obtain v where "render (settle n out s) = Inr v"
    using render_good [of "settle n out s"] assms(2,3) l by auto
  with l show ?thesis by (simp add: react_step_Settle)
qed

lemma settle_weather_good:
  assumes "map_of (inflight s) n = Some (ThenSetWeather, r)"
    and "good_locations (locations s)" and "good_weather (apiCall_result out)"
  shows "react_step s (Settle n out) = Inr (settle n out s) \<and>
    weather (settle n out s) = apiCall_result out \<and> locations (settle n out s) = locations s"
proof -
  have l: "weather (settle n out s) = apiCall_result out" "locations (settle n out s) = locations s"
    using settle_weather [OF assms(1)] by simp_all
  obtain v where "render (settle n out s) = Inr v"
    using render_good [of "settle n out s"] assms(2,3) l by auto
  with l show ?thesis by (simp add: react_step_Settle)
qed

text \<open>
  C4: when two searches are in flight, the one that settles last decides the list,
  whichever was sent first: there is no guard against a stale response.
\<close>

theorem last_search_response_wins:
  assumes a: "map_of (inflight s) a = Some (AwaitSetLocations, ra)"
    and b: "map_of (inflight s) b = Some (AwaitSetLocations, rb)" and ab: "a \<noteq> b"
    and w: "good_weather (weather s)"
    and ga: "good_locations (apiCall_result oa)" and gb: "good_locations (apiCall_result ob)"
  shows "\<exists>s'. run s [Settle b ob, Settle a oa] = Inr s' \<and> locations s' = apiCall_result oa"
proof -
  let ?s1 = "settle b ob s"
  have s1: "react_step s (Settle b ob) = Inr ?s1" "weather ?s1 = weather s"
    using settle_locations_good [OF b w gb] by simp_all
  have "map_of (inflight ?s1) a = Some (AwaitSetLocations, ra)"
    using a ab by (simp add: settle_inflight map_of_filter_other)
  from settle_locations_good [OF this] w s1(2) ga
  have "react_step ?s1 (Settle a oa) = Inr (settle a oa ?s1)"
    "locations (settle a oa ?s1) = apiCall_result oa" by simp_all
  with s1 show ?thesis by simp
qed

text \<open>
  C5: a forecast that arrives with a 2xx status replaces the displayed forecast with
  exactly the body received, leaving the location list as it was.
\<close>

theorem forecast_reply_replaces:
  assumes "map_of (inflight s) n = Some (ThenSetWeather, r)"
    and "good_locations (locations s)" and "axios_ok st" and "good_weather F"
  shows "\<exists>s'. react_step s (Settle n (Reply st F)) = Inr s' \<and> weather s' = F \<and>
    locations s' = locations s"
proof -
  have "apiCall_result (Reply st F) = F" using assms(3) by (simp add: apiCall_result_def)
  with settle_weather_good [OF assms(1,2)] assms(4) show ?thesis by auto
qed

text \<open>
  C6: a forecast request that fails stores \<open>null\<close> as the weather, and the next render
  throws at \<open>const { current, location } = weather\<close>: the app crashes instead of keeping
  the previous forecast.
\<close>

theorem forecast_failure_crashes:
  assumes "map_of (inflight s) n = Some (ThenSetWeather, r)" and "transport_failure out"
  shows "\<exists>e. react_step s (Settle n out) = Inl e"
proof -
  have "weather (settle n out s) = JNull"
    using settle_weather [OF assms(1)] assms(2)
    by (cases out) (simp_all add: apiCall_result_def transport_failure_def)
  then obtain e where "render (settle n out s) = Inl e"
    using render_weather_nullish by fastforce
  then show ?thesis by (simp add: react_step_Settle)
qed

text \<open>
  C7: a location search that fails stores \<open>null\<close> as the list, and the next render throws
  at \<open>locations.length\<close>: the app crashes instead of keeping the previous candidates.
\<close>

theorem search_failure_crashes:
  assumes "map_of (inflight s) n = Some (AwaitSetLocations, r)" and "transport_failure out"
  shows "\<exists>e. react_step s (Settle n out) = Inl e"
proof -
  have "locations (settle n out s) = JNull"
    using settle_locations [OF assms(1)] assms(2)
    by (cases out) (simp_all add: apiCall_result_def transport_failure_def)
  then obtain e where "render (settle n out s) = Inl e"
    using render_locations_nullish by fastforce
  then show ?thesis by (simp add: react_step_Settle)
qed

section \<open>Runs that never crash\<close>

lemma good_state_render: "good_state s \<Longrightarrow> \<exists>v. render s = Inr v"
  by (simp add: good_state_def render_good)

lemma react_step_keeps_data:
  assumes "good_state s" and "dispatch s e = Inr s'"
    and "weather s' = weather s" "locations s' = locations s"
  shows "react_step s e = Inr s' \<and> good_state s'"
proof -
  have g: "good_state s'" using assms by (simp add: good_state_def)
  then obtain v where "render s' = Inr v" using good_state_render by blast
  with assms g show ?thesis by (simp add: react_step_def)
qed

lemma good_press_location:
  assumes g: "good_state s"
  shows "\<exists>s'. react_step s (PressLocation i) = Inr s' \<and> good_state s'"
proof -
  obtain v where r: "render s = Inr v" using good_state_render [OF g] by blast
  obtain xs where ls: "locations s = JArr xs"
    using g by (cases "locations s") (auto simp: good_state_def good_locations_def)
  show ?thesis
  proof (cases "showSearch s \<and> i < length xs")
    case True
    have "\<not> nullish (xs ! i)" using g ls True by (simp add: good_state_def good_locations_def list_all_iff good_candidate_def)
    from press_location_step [OF r ls _ _ this] True obtain s' where
      "react_step s (PressLocation i) = Inr s'" "locations s' = JArr []" "weather s' = weather s"
      by blast
    with g show ?thesis by (auto simp: good_state_def good_locations_def)
  next
    case False
    with press_location_hidden [OF r ls] g show ?thesis by blast
  qed
qed

lemma good_settle:
  assumes g: "good_state s" and ge: "good_event s (Settle n out)"
  shows "\<exists>s'. react_step s (Settle n out) = Inr s' \<and> good_state s'"
proof (cases "map_of (inflight s) n")
  case None
  then have "dispatch s (Settle n out) = Inr s" by (simp add: dispatch_def settle_not_inflight)
  with react_step_keeps_data [OF g] show ?thesis by blast
next
  case (Some kr)
  then obtain k r where kr: "map_of (inflight s) n = Some (k, r)" by (cases kr) auto
  show ?thesis
  proof (cases k)
    case ThenSetWeather
    with ge kr have "good_weather (apiCall_result out)" by (simp add: good_event_def)
    with settle_weather_good [of s n r out] kr ThenSetWeather g show ?thesis
      by (auto simp: good_state_def)
  next
    case AwaitSetLocations
    with ge kr have "good_locations (apiCall_result out)" by (simp add: good_event_def)
    with settle_locations_good [of s n r out] kr AwaitSetLocations g show ?thesis
      by (auto simp: good_state_def)
  qed
qed

text \<open>
  C8: as long as every response that settles has the shape its continuation stores (for
  the candidate list an array of non-null entries whose \<open>name\<close> and \<open>country\<close> React
  can show, that is no object; for the forecast the fields the screen shows likewise), no
  event crashes the screen and the data keep that shape; the only crashes are the ones
  bad responses cause (C6, C7, C36).
\<close>

theorem good_events_never_crash:
  assumes "good_state s" and "good_event s e"
  shows "\<exists>s'. react_step s e = Inr s' \<and> good_state s'"
proof (cases e)
  case PressSearch
  have "dispatch s e = Inr (pressSearch s)" by (simp add: PressSearch dispatch_def)
  with react_step_keeps_data [OF assms(1)] show ?thesis by (simp add: pressSearch_def)
next
  case (ChangeText t)
  have "dispatch s e = Inr (handleTextDebounce t s)" by (simp add: ChangeText dispatch_def)
  with react_step_keeps_data [OF assms(1)] show ?thesis by (simp add: handleTextDebounce_def)
next
  case (Wait d)
  have "dispatch s e = Inr (advance_time d s)" by (simp add: Wait dispatch_def)
  with react_step_keeps_data [OF assms(1)] show ?thesis by simp
next
  case (PressLocation i)
  with good_press_location [OF assms(1)] show ?thesis by simp
next
  case (Settle n out)
  with good_settle [OF assms(1)] assms(2) show ?thesis by simp
qed

section \<open>Reachable states\<close>

text \<open>
  C9: in every reachable state each in-flight request is the logged one under its id,
  ids in flight are distinct, each continuation waits on the endpoint it expects, a
  pending debounced search is due within 1200 ms, and the state renders.
\<close>

theorem reachable_screen_inv: "reachable s \<Longrightarrow> screen_inv s"
  by (rule reachable_invariant)

text \<open>
  C16: a debounced search pending in a reachable state runs within 1200 ms: waiting that
  long sends it (when the text is longer than two characters) and clears the timer.
\<close>

theorem pending_search_runs:
  assumes "reachable s" and "timer s = Some (t, due)"
  shows "\<exists>s'. react_step s (Wait 1200) = Inr s' \<and> timer s' = None \<and>
     sent s' = sent s @
       (if 2 < length t then [fetchLocation (apiKey s) \<lparr>cityName = JStr t, days = JUndefined\<rparr>]
        else [])"
proof -
  have inv: "screen_inv s" using assms(1) by (rule reachable_invariant)
  then obtain v where r: "render s = Inr v"
    by (auto simp: screen_inv_def split: sum.splits)
  from inv assms(2) have "due \<le> clock s + 1200" by (simp add: screen_inv_def timer_inv_def)
  with react_step_Wait [OF r, of 1200] assms(2) show ?thesis
    by (simp add: advance_time_sent advance_time_timer)
qed

section \<open>The candidate list outlives the panel and the selection\<close>

text \<open>
  C13: pressing the search button twice returns the screen to exactly the state it was
  in: closing the panel does not clear the candidate list, so reopening shows it again.
\<close>

theorem press_search_twice:
  assumes "good_state s"
  shows "run s [PressSearch, PressSearch] = Inr s"
proof -
  have g1: "good_state (pressSearch s)" using assms by (simp add: good_state_def pressSearch_def)
  obtain v1 where "render (pressSearch s) = Inr v1" using good_state_render [OF g1] by blast
  moreover obtain v where "render s = Inr v" using good_state_render [OF assms] by blast
  moreover have "pressSearch (pressSearch s) = s" by (simp add: pressSearch_def)
  ultimately show ?thesis by (simp add: react_step_def dispatch_def)
qed

text \<open>
  C15: selecting a location does not cancel a search still in flight: when it settles it
  refills the list the selection cleared, and opening the panel shows those stale
  candidates.
\<close>

theorem stale_search_repopulates:
  assumes g: "good_state s" and n: "map_of (inflight s) n = Some (AwaitSetLocations, r)"
    and ls: "locations s = JArr xs" and sh: "showSearch s" and i: "i < length xs"
    and go: "good_locations (apiCall_result out)"
  shows "\<exists>s'. run s [PressLocation i, Settle n out, PressSearch] = Inr s' \<and>
     locations s' = apiCall_result out \<and> showSearch s'"
proof -
  obtain v where r: "render s = Inr v" using good_state_render [OF g] by blast
  have "\<not> nullish (xs ! i)" using g ls i by (simp add: good_state_def good_locations_def list_all_iff good_candidate_def)
  from press_location_step [OF r ls sh i this] obtain s1 where
    s1: "react_step s (PressLocation i) = Inr s1" "\<not> showSearch s1" "weather s1 = weather s"
      "inflight s1 = inflight s @ [(length (sent s), ThenSetWeather, last (sent s1))]"
    by blast
  have n1: "map_of (inflight s1) n = Some (AwaitSetLocations, r)" using n s1(4) by simp
  have w1: "good_weather (weather s1)" using g s1(3) by (simp add: good_state_def)
  let ?s2 = "settle n out s1"
  from settle_locations_good [OF n1 w1 go] have s2: "react_step s1 (Settle n out) = Inr ?s2"
    "locations ?s2 = apiCall_result out" "weather ?s2 = weather s" "\<not> showSearch ?s2"
    using s1 by simp_all
  have g3: "good_state (pressSearch ?s2)" using go w1 s1(3) s2(2,3)
    by (simp add: good_state_def pressSearch_def)
  then obtain v3 where "render (pressSearch ?s2) = Inr v3" using good_state_render by blast
  then have "react_step ?s2 PressSearch = Inr (pressSearch ?s2)"
    by (simp add: react_step_def dispatch_def)
  with s1(1) s2 show ?thesis by (simp add: pressSearch_def)
qed

end
