(* ===== verification/Runs.thy ===== *)
theory Runs
  imports Flow
begin

text \<open>
  Properties of whole runs of the screen (src/screens/HomeScreens.js): the searches a
  typing session sends, compared with a reference filter over the keystrokes; how many
  requests a run can send and keep in flight; the completion of all pending work (the
  debounce timer and every request in flight) within a bounded number of events; the
  crashes a nullish entry of the candidate list and a search reply that is not JSON cause;
  what the provider reads from the request a selection sends; and a forecast reply that
  arrives late and overwrites the city the user selected.
\<close>

text \<open>
  The reference: a keystroke followed by a pause of at least 1200 ms searches its text when
  it has more than two characters; no other keystroke searches.
\<close>

definition typing_searches :: "(string \<times> nat) list \<Rightarrow> string list" where
  "typing_searches ks = map fst (filter (\<lambda>(t, g). 1200 \<le> g \<and> 2 < length t) ks)"

text \<open>A response of the shape the continuation waiting on it stores.\<close>

definition good_out :: "cont \<Rightarrow> http_outcome \<Rightarrow> bool" where
  "good_out k out =
     (case k of
        ThenSetWeather \<Rightarrow> good_weather (apiCall_result out)
      | AwaitSetLocations \<Rightarrow> good_locations (apiCall_result out))"

text \<open>
  Settling every request of a list of requests in flight, in order, each with the outcome
  \<open>resp\<close> gives its id; and the events that finish all pending work of a state: a pause
  of 1200 ms (the debounce window), then the settlement of everything then in flight.
\<close>

definition settle_all :: "(nat \<Rightarrow> http_outcome) \<Rightarrow> (nat \<times> cont \<times> request) list \<Rightarrow> event list" where
  "settle_all resp xs = map (\<lambda>(n, _). Settle n (resp n)) xs"

definition quiesce :: "(nat \<Rightarrow> http_outcome) \<Rightarrow> screen \<Rightarrow> event list" where
  "quiesce resp s = Wait 1200 # settle_all resp (inflight (advance_time 1200 s))"

text \<open>A request the app may send: a GET to one of the provider's two endpoints with its key.\<close>

definition provider_request :: "string \<Rightarrow> request \<Rightarrow> bool" where
  "provider_request key r \<longleftrightarrow>
     req_method r = GET \<and> (forecast_url key (req_url r) \<or> search_url key (req_url r))"

section \<open>Typing sessions\<close>

lemma typing_searches_Cons [simp]:
  "typing_searches ((t, g) # ks) =
     (if 1200 \<le> g \<and> 2 < length t then t # typing_searches ks else typing_searches ks)"
  by (simp add: typing_searches_def)

text \<open>
  C19: the searches a typing session sends are exactly those of the reference
  \<open>typing_searches\<close>: for each keystroke, in order, a search for its text when the pause
  after it lasts at least 1200 ms and the text has more than two characters. The debounce
  and the length guard of \<open>handleSearch\<close> together implement that filter.
\<close>

theorem typing_search_equiv:
  assumes "render s = Inr v"
  shows "\<exists>s'. run s (typing ks) = Inr s' \<and>
     sent s' = sent s @
       map (\<lambda>t. fetchLocation (apiKey s) \<lparr>cityName = JStr t, days = JUndefined\<rparr>) (typing_searches ks)"
  using assms
proof (induction ks arbitrary: s)
  case Nil
  then show ?case by (simp add: typing_searches_def)
next
  case (Cons k ks)
  obtain t g where k: "k = (t, g)" by fastforce
  note ks = keystroke [OF Cons.prems(1), where t = t and g = g]
  let ?s2 = "advance_time g (handleTextDebounce t s)"
  have st: "run s (typing (k # ks)) = run ?s2 (typing ks)"
    using ks(1) [of "typing ks"] by (simp only: k typing_Cons)
  obtain s' where s': "run ?s2 (typing ks) = Inr s'"
    "sent s' = sent ?s2 @
       map (\<lambda>t. fetchLocation (apiKey ?s2) \<lparr>cityName = JStr t, days = JUndefined\<rparr>) (typing_searches ks)"
    using Cons.IH [OF ks(2)] by blast
  with st ks(3,5) k show ?case by (simp del: run.simps)
qed

section \<open>Bounds\<close>

lemma cont_matches_provider: "cont_matches key k r \<Longrightarrow> provider_request key r"
  by (cases k) (simp_all add: cont_matches_def provider_request_def)

lemma provider_request_fetch [simp]:
  "provider_request key (fetchWeatherForecast key ps)" "provider_request key (fetchLocation key ps)"
  using cont_matches_forecast cont_matches_search by (blast intro: cont_matches_provider)+

lemma handleLocation_sent:
  "handleLocation loc s = Inr s' \<Longrightarrow>
   \<exists>r. sent s' = sent s @ [r] \<and> provider_request (apiKey s) r \<and> apiKey s' = apiKey s"
  by (auto simp: handleLocation_def sbind_eq_Inr_iff)

text \<open>What one handler does to the request log: it appends at most one request, to the provider.\<close>

lemma dispatch_sent:
  assumes "dispatch s e = Inr s'"
  shows "\<exists>rs. sent s' = sent s @ rs \<and> length rs \<le> 1 \<and> list_all (provider_request (apiKey s)) rs \<and>
    apiKey s' = apiKey s"
proof (cases e)
  case (PressLocation i)
  then show ?thesis using assms handleLocation_sent
    by (fastforce simp: dispatch_def sbind_eq_Inr_iff split: option.splits if_splits)
next
  case (Wait d)
  then show ?thesis using assms
    by (auto simp: dispatch_def advance_time_sent split: option.splits)
qed (use assms in \<open>auto simp: dispatch_def pressSearch_def handleTextDebounce_def\<close>)

lemma react_step_sent:
  "react_step s e = Inr s' \<Longrightarrow>
   \<exists>rs. sent s' = sent s @ rs \<and> length rs \<le> 1 \<and> list_all (provider_request (apiKey s)) rs \<and>
     apiKey s' = apiKey s"
  using dispatch_sent react_step_dispatch by blast

text \<open>
  C20: the request log only grows, and by at most one request per event: a run of \<open>n\<close>
  events sends at most \<open>n\<close> requests (no handler sends two, none retries).
\<close>

theorem run_sends_at_most_one_per_event:
  "run s es = Inr s' \<Longrightarrow> \<exists>rs. sent s' = sent s @ rs \<and> length rs \<le> length es"
proof (induction es arbitrary: s)
  case Nil
  then show ?case by simp
next
  case (Cons e es)
  then obtain s1 where s1: "react_step s e = Inr s1" "run s1 es = Inr s'"
    by (auto simp: sbind_eq_Inr_iff)
  obtain rs1 where "sent s1 = sent s @ rs1" "length rs1 \<le> 1" using react_step_sent [OF s1(1)] by blast
  moreover obtain rs2 where "sent s' = sent s1 @ rs2" "length rs2 \<le> length es"
    using Cons.IH [OF s1(2)] by blast
  ultimately show ?case by (intro exI [of _ "rs1 @ rs2"]) simp
qed

text \<open>
  C25: every request the app has sent, in any reachable state, is a GET to the provider's
  forecast or search endpoint carrying the app's key: no handler sends anything else, and
  the key never changes.
\<close>

theorem sent_requests_typed: "reachable s \<Longrightarrow> list_all (provider_request (apiKey s)) (sent s)"
proof (induction rule: reachable.induct)
  case (start k s)
  then show ?case
    by (auto simp: startup_def sbind_eq_Inr_iff fetchMyweatherData_def init_screen_def)
next
  case (step s e s')
  from react_step_sent [OF step.hyps(2)] obtain rs where
    "sent s' = sent s @ rs" "list_all (provider_request (apiKey s)) rs" "apiKey s' = apiKey s"
    by blast
  with step.IH show ?case by simp
qed

section \<open>A search reply that is not JSON\<close>

lemma render_rows_string:
  "body \<noteq> [] \<Longrightarrow> render_rows True (JStr body) = Inl (TypeError ''locations.map is not a function'')"
  by (simp add: render_rows_def)

text \<open>
  C28: axios resolves a 2xx reply whose body is not JSON to the body text, and
  \<open>handleSearch\<close> stores it as the candidate list. A non-empty string passes
  \<open>locations.length > 0\<close> but has no \<open>map\<close>: the app crashes when the reply settles
  with the panel open, and otherwise at the next press of the search button.
\<close>

theorem search_text_reply_crashes:
  assumes g: "good_state s" and n: "map_of (inflight s) n = Some (AwaitSetLocations, r)"
    and st: "axios_ok st" and b: "body \<noteq> []"
  shows "\<exists>e. run s [Settle n (Reply st (JStr body)), PressSearch] = Inl e"
proof -
  let ?s1 = "settle n (Reply st (JStr body)) s"
  have l1: "locations ?s1 = JStr body" "weather ?s1 = weather s" "showSearch ?s1 = showSearch s"
    using settle_locations [OF n] st by (simp_all add: apiCall_result_def)
  show ?thesis
  proof (cases "showSearch s")
    case True
    then have "render_rows (showSearch ?s1) (locations ?s1) = Inl (TypeError ''locations.map is not a function'')"
      using l1 b render_rows_string by simp
    then obtain e where "render ?s1 = Inl e" using render_rows_Inl_render by blast
    then show ?thesis by (simp add: react_step_Settle)
  next
    case False
    obtain v where v: "render s = Inr v" using good_state_render [OF g] by blast
    have "render_rows (showSearch ?s1) (locations ?s1) = Inr None"
      using l1 False by (simp add: render_rows_def)
    then obtain v1 where "render ?s1 = Inr v1" using render_swap_rows [OF v l1(2)] by fastforce
    then have s1: "react_step s (Settle n (Reply st (JStr body))) = Inr ?s1"
      by (simp add: react_step_Settle)
    have "render_rows (showSearch (pressSearch ?s1)) (locations (pressSearch ?s1)) =
        Inl (TypeError ''locations.map is not a function'')"
      using l1 False b render_rows_string by (simp add: pressSearch_def)
    then obtain e where "render (pressSearch ?s1) = Inl e" using render_rows_Inl_render by blast
    then have "react_step ?s1 PressSearch = Inl e" by (simp add: react_step_def dispatch_def)
    with s1 show ?thesis by simp
  qed
qed

text \<open>
  C36: nothing checks the candidates a search returns before they are rendered: a 2xx
  reply whose array holds an entry with an object as \<open>name\<close> or \<open>country\<close> crashes the
  app when it settles with the panel open, as React refuses the object as a child of the
  row's \<open>Text\<close> (line 170). spec.md (section 3) types both fields as strings.
\<close>

theorem object_candidate_crashes:
  assumes n: "map_of (inflight s) n = Some (AwaitSetLocations, r)" and sh: "showSearch s"
    and st: "axios_ok st" and x: "x \<in> set xs"
    and o: "\<not> react_child_ok (opt_path x [Name ''name'']) \<or> \<not> react_child_ok (opt_path x [Name ''country''])"
  shows "\<exists>e. react_step s (Settle n (Reply st (JArr xs))) = Inl e"
proof -
  let ?s1 = "settle n (Reply st (JArr xs)) s"
  have l1: "locations ?s1 = JArr xs" "showSearch ?s1"
    using settle_locations [OF n] st sh by (simp_all add: apiCall_result_def)
  have "render ?s1 \<noteq> Inr v" for v
  proof
    assume "render ?s1 = Inr v"
    then have rows: "render_rows True (JArr xs) = Inr (location_rows v)"
      and ch: "list_all react_child_ok (view_children v)"
      using l1 by (auto elim: render_Inr_parts)
    have "xs \<noteq> []" using x by auto
    then have "location_rows v = Some (map (render_row (length xs)) (enumerate 0 xs))"
      using rows render_rows_shown by simp
    with ch have "list_all react_child_ok (concat (map (\<lambda>r. [row_name r, row_country r])
        (map (render_row (length xs)) (enumerate 0 xs))))"
      by (simp add: view_children_def)
    then have "list_all (\<lambda>l. react_child_ok (opt_path l [Name ''name'']) \<and>
        react_child_ok (opt_path l [Name ''country''])) xs"
      by (rule rows_children_ok_iff [THEN iffD1])
    with x o show False by (auto simp: list_all_iff simp del: opt_path.simps)
  qed
  then obtain e where "render ?s1 = Inl e" by (cases "render ?s1") auto
  then show ?thesis by (simp add: react_step_Settle)
qed

section \<open>From a selection to the provider\<close>

text \<open>
  C29: selecting a shown candidate whose name is a URL-safe string sends one request, and
  the provider reads from it exactly the app's key, the candidate's name as \<open>q\<close>,
  \<open>days=7\<close>, \<open>aqi=no\<close> and \<open>alerts=no\<close>: the screen, the transport and the URL
  syntax compose as intended when the name needs no encoding.
\<close>

theorem selection_request_params:
  assumes r: "render s = Inr v" and ls: "locations s = JArr xs" and sh: "showSearch s"
    and i: "i < length xs" and nn: "\<not> nullish (xs ! i)"
    and nm: "opt_path (xs ! i) [Name ''name''] = JStr name"
    and k: "url_safe (apiKey s)" and c: "url_safe name"
  shows "\<exists>s'. react_step s (PressLocation i) = Inr s' \<and> length (sent s') = Suc (length (sent s)) \<and>
     query_params (req_url (last (sent s'))) =
       [(''key'', apiKey s), (''q'', name), (''days'', ''7''), (''aqi'', ''no''), (''alerts'', ''no'')]"
proof -
  have "url_safe (js_to_string (JStr ''7''))" by (simp add: url_safe_def)
  moreover have "url_safe (js_to_string (JStr name))" using c by simp
  ultimately have q: "query_params (req_url (fetchWeatherForecast (apiKey s)
      \<lparr>cityName = JStr name, days = JStr ''7''\<rparr>)) =
      [(''key'', apiKey s), (''q'', name), (''days'', ''7''), (''aqi'', ''no''), (''alerts'', ''no'')]"
    using forecast_request_query [OF k] by simp
  have "react_step s (PressLocation i) =
      Inr (send ThenSetWeather (fetchWeatherForecast (apiKey s) \<lparr>cityName = JStr name, days = JStr ''7''\<rparr>)
           (s\<lparr>locations := JArr [], showSearch := False\<rparr>))"
    using press_location_react [OF r ls sh i nn] by (simp only: nm)
  with q show ?thesis by simp
qed

section \<open>A stale forecast overwrites a selection\<close>

text \<open>
  C30: a forecast request still in flight when the user selects a candidate (the one of
  startup, say) is not cancelled: if it answers after the selection's request, its
  forecast is the one displayed, although the user chose another city.
\<close>

theorem stale_forecast_overwrites_selection:
  assumes g: "good_state s" and ri: "req_inv s"
    and n: "map_of (inflight s) n = Some (ThenSetWeather, r)"
    and ls: "locations s = JArr xs" and sh: "showSearch s" and i: "i < length xs"
    and o1: "good_weather (apiCall_result o1)" and o0: "good_weather (apiCall_result o0)"
  shows "\<exists>s'. run s [PressLocation i, Settle (length (sent s)) o1, Settle n o0] = Inr s' \<and>
     weather s' = apiCall_result o0"
proof -
  obtain v where rv: "render s = Inr v" using good_state_render [OF g] by blast
  have nn: "\<not> nullish (xs ! i)" using g ls i by (simp add: good_state_def good_locations_def list_all_iff good_candidate_def)
  from press_location_step [OF rv ls sh i nn] obtain s1 where
    s1: "react_step s (PressLocation i) = Inr s1" "locations s1 = JArr []"
      "inflight s1 = inflight s @ [(length (sent s), ThenSetWeather, last (sent s1))]"
    by blast
  have "n < length (sent s)"
    using ri map_of_SomeD [OF n] by (auto simp: req_inv_def list_all_iff)
  then have ne: "n \<noteq> length (sent s)" by simp
  have "length (sent s) \<notin> fst ` set (inflight s)"
    using ri by (auto simp: req_inv_def list_all_iff)
  then have "map_of (inflight s) (length (sent s)) = None" by (simp add: map_of_eq_None_iff)
  then have m1: "map_of (inflight s1) (length (sent s)) = Some (ThenSetWeather, last (sent s1))"
    using s1(3) by (simp add: map_add_def)
  have gl: "good_locations (locations s1)" using s1(2) by (simp add: good_locations_def)
  let ?s2 = "settle (length (sent s)) o1 s1"
  from settle_weather_good [OF m1 gl o1] have s2: "react_step s1 (Settle (length (sent s)) o1) = Inr ?s2"
    "locations ?s2 = locations s1" by simp_all
  have m2: "map_of (inflight ?s2) n = Some (ThenSetWeather, r)"
    using n ne s1(3) by (simp add: settle_inflight map_of_filter_other)
  have gl2: "good_locations (locations ?s2)" using gl s2(2) by simp
  from settle_weather_good [OF m2 gl2 o0] s1(1) s2(1) show ?thesis by simp
qed

section \<open>Pending work completes\<close>

lemma good_out_event:
  "map_of (inflight s) n = Some (k, r) \<Longrightarrow> good_out k out \<Longrightarrow> good_event s (Settle n out)"
  by (cases k) (simp_all add: good_event_def good_out_def)

lemma filter_other_ids:
  "n \<notin> fst ` set xs \<Longrightarrow> filter (\<lambda>(j, _). j \<noteq> n) xs = xs"
  by (induction xs) auto

lemma settle_all_run:
  assumes "inflight s = xs" and "good_state s" and "distinct (map fst xs)"
    and "list_all (\<lambda>(n, k, r). good_out k (resp n)) xs"
  shows "\<exists>s'. run s (settle_all resp xs) = Inr s' \<and> inflight s' = [] \<and> timer s' = timer s \<and>
     good_state s'"
  using assms
proof (induction xs arbitrary: s)
  case Nil
  then show ?case by (simp add: settle_all_def)
next
  case (Cons x xs)
  obtain n k r where x: "x = (n, k, r)" by (cases x) auto
  have m: "map_of (inflight s) n = Some (k, r)" using Cons.prems(1) x by simp
  have "good_event s (Settle n (resp n))" using good_out_event [OF m] Cons.prems(4) x by simp
  from good_settle [OF Cons.prems(2) this] obtain s1 where
    s1: "react_step s (Settle n (resp n)) = Inr s1" "good_state s1" by blast
  have "s1 = settle n (resp n) s" using s1(1) by (simp add: react_step_Settle sbind_eq_Inr_iff)
  then have i1: "inflight s1 = xs" and t1: "timer s1 = timer s"
    using Cons.prems(1,3) x by (simp_all add: settle_inflight filter_other_ids)
  obtain s' where "run s1 (settle_all resp xs) = Inr s'" "inflight s' = []" "timer s' = timer s1"
    "good_state s'"
    using Cons.IH [OF i1 s1(2)] Cons.prems(3,4) by auto
  with s1(1) t1 x show ?case by (auto simp: settle_all_def)
qed

text \<open>
  C21: all pending work of a reachable state completes within a bounded number of events:
  after a pause of 1200 ms and one settlement per request then in flight (with responses
  of the expected shapes, \<open>good_out\<close>: nothing React cannot show), no request is in flight, no debounced call is pending, and the
  screen has not crashed.
\<close>

theorem pending_work_completes:
  assumes reach: "reachable s" and g: "good_state s"
    and resp: "list_all (\<lambda>(n, k, r). good_out k (resp n)) (inflight (advance_time 1200 s))"
  shows "\<exists>s'. run s (quiesce resp s) = Inr s' \<and> inflight s' = [] \<and> timer s' = None \<and>
     good_state s'"
proof -
  let ?s1 = "advance_time 1200 s"
  have inv: "screen_inv s" using reach by (rule reachable_invariant)
  obtain v where r: "render s = Inr v" using good_state_render [OF g] by blast
  have st: "react_step s (Wait 1200) = Inr ?s1" using react_step_Wait [OF r] .
  have "screen_inv ?s1" using reachable.step [OF reach st] by (rule reachable_invariant)
  then have d: "distinct (map fst (inflight ?s1))" by (simp add: screen_inv_def req_inv_def)
  have t: "timer ?s1 = None"
    using inv by (auto simp: advance_time_timer screen_inv_def timer_inv_def split: option.splits)
  have g1: "good_state ?s1" using g by (simp add: good_state_def)
  obtain s' where "run ?s1 (settle_all resp (inflight ?s1)) = Inr s'" "inflight s' = []"
    "timer s' = timer ?s1" "good_state s'"
    using settle_all_run [OF refl g1 d resp] by blast
  with st t show ?thesis by (auto simp: quiesce_def)
qed

section \<open>A nullish candidate\<close>

text \<open>
  C22: pressing the row of a \<open>null\<close> entry of a search response crashes the app:
  \<open>handleLocation\<close> reads \<open>loc.name\<close> without optional chaining, although the row
  itself renders (it reads \<open>loc?.name\<close>).
\<close>

theorem press_nullish_candidate_crashes:
  assumes r: "render s = Inr v" and ls: "locations s = JArr xs" and sh: "showSearch s"
    and i: "i < length xs" and nl: "nullish (xs ! i)"
  shows "\<exists>msg. react_step s (PressLocation i) = Inl (TypeError msg)"
proof -
  obtain msg where "get_prop (xs ! i) (Name ''name'') = Inl (TypeError msg)"
    using nl by (cases "xs ! i") (simp_all add: nullish_def)
  then have "handleLocation (xs ! i) s = Inl (TypeError msg)" by (simp add: handleLocation_def)
  with press_location_rows [OF r ls sh i] show ?thesis by (simp add: react_step_def)
qed

end
