(* ===== verification/Styles.thy ===== *)
theory Styles
  imports Render
begin

text \<open>
  The style sheet of src/screens/HomeScreens.js (\<open>const styles = StyleSheet.create({...})\<close>)
  as data, React Native's flattening of a style value, and the two styles the JSX computes
  from the state: the search box, hidden by \<open>display: 'none'\<close> while the panel is
  closed, and a location row, which adds the separating border except on the last row.
  \<open>StyleSheet.create\<close> returns its argument, and \<open>StyleSheet.flatten\<close> (a library
  function, modelled from React Native's documentation) merges an array of styles from left
  to right, a later property overriding an earlier one and a falsy entry (such as
  \<open>''\<close>) contributing nothing. Numbers of the sheet are all integers; percentages and
  colours are strings, as in the source.
\<close>

definition styles_kvs :: "(string \<times> jsval) list" where
  "styles_kvs =
     [(''container'', JObj [(''flex'', JNum 1), (''position'', JStr ''relative'')]),
      (''backgroundImage'', JObj [(''flex'', JNum 1), (''width'', JStr ''100%''),
         (''height'', JStr ''100%''), (''position'', JStr ''absolute'')]),
      (''safeArea'', JObj [(''flex'', JNum 1)]),
      (''searchContainer'', JObj [(''flexDirection'', JStr ''row''), (''alignItems'', JStr ''center''),
         (''justifyContent'', JStr ''flex-end''), (''marginHorizontal'', JNum 10),
         (''marginTop'', JNum 30)]),
      (''inputBox'', JObj [(''flex'', JNum 1), (''height'', JNum 45),
         (''backgroundColor'', JStr ''rgba(255, 255, 255, 0.2)''), (''borderRadius'', JNum 30),
         (''paddingHorizontal'', JNum 10), (''flexDirection'', JStr ''row''),
         (''alignItems'', JStr ''center'')]),
      (''input'', JObj [(''flex'', JNum 1), (''color'', JStr ''white''), (''fontSize'', JNum 16),
         (''paddingLeft'', JNum 12), (''alignItems'', JStr ''center'')]),
      (''searchButton'', JObj [(''backgroundColor'', JStr ''rgba(255, 255, 255, 0.3)''),
         (''borderRadius'', JNum 9999), (''padding'', JNum 10), (''marginLeft'', JNum 10),
         (''alignItems'', JStr ''center'')]),
      (''location'', JObj [(''position'', JStr ''absolute''), (''width'', JStr ''95%''),
         (''backgroundColor'', JStr ''rgba(255, 255, 255, 1)''), (''top'', JNum 80),
         (''marginLeft'', JNum 10), (''borderRadius'', JNum 30),
         (''borderBottomColor'', JStr ''#9CA3AF'')]),
      (''locationItem'', JObj [(''flexDirection'', JStr ''row''), (''alignItems'', JStr ''center''),
         (''padding'', JNum 15), (''paddingLeft'', JNum 12), (''paddingRight'', JNum 1),
         (''marginBottom'', JNum 3)]),
      (''locationItemBorder'', JObj [(''borderBottomWidth'', JNum 2),
         (''borderBottomColor'', JStr ''#9CA3AF'')]),
      (''locationText'', JObj [(''marginHorizontal'', JNum 16),
         (''justifyContent'', JStr ''space-around''), (''flex'', JNum 1), (''marginBottom'', JNum 8)]),
      (''Image'', JObj [(''flexDirection'', JStr ''row''), (''justifyContent'', JStr ''center'')])]"

definition styles :: jsval where
  "styles = JObj styles_kvs"

text \<open>\<open>styles.name\<close>.\<close>

definition style :: "string \<Rightarrow> jsval" where
  "style name = obj_get styles_kvs name"

text \<open>
  \<open>StyleSheet.flatten\<close>: an object contributes its properties, an array the properties of
  its entries in order, anything else (\<open>''\<close>, \<open>false\<close>, \<open>null\<close>, \<open>undefined\<close>) nothing.
  A property of the result is read as \<open>obj_get\<close> reads an object: the last occurrence wins.
\<close>

fun flatten_style :: "jsval \<Rightarrow> (string \<times> jsval) list" where
  "flatten_style (JObj kvs) = kvs"
| "flatten_style (JArr xs) = concat (map flatten_style xs)"
| "flatten_style _ = []"

definition style_prop :: "jsval \<Rightarrow> string \<Rightarrow> jsval" where
  "style_prop st k = obj_get (flatten_style st) k"

text \<open>\<open>[styles.inputBox, showSearch ? {} : { display: 'none' }]\<close>.\<close>

definition input_box_style :: "bool \<Rightarrow> jsval" where
  "input_box_style open =
     JArr [style ''inputBox'', if open then JObj [] else JObj [(''display'', JStr ''none'')]]"


section \<open>Style lemmas\<close>

lemma style_inputBox_display: "map_of (rev (flatten_style (style ''inputBox''))) ''display'' = None"
  by (simp add: style_def styles_kvs_def obj_get_def)

text \<open>
  C23: the search box is hidden exactly by the style: once the screen renders, the
  flattened style of the search box has \<open>display: 'none'\<close> exactly when the view's
  search input is not visible (the panel is closed), and otherwise agrees with
  \<open>styles.inputBox\<close> on every property.
\<close>

theorem input_box_display:
  assumes "render s = Inr v"
  shows "style_prop (input_box_style (showSearch s)) ''display'' =
           (if search_input_visible v then JUndefined else JStr ''none'') \<and>
         (\<forall>k. k \<noteq> ''display'' \<longrightarrow>
            style_prop (input_box_style (showSearch s)) k = style_prop (style ''inputBox'') k)"
proof -
  have vis: "search_input_visible v = showSearch s" using assms by (auto simp: render_def sbind_eq_Inr_iff)
  show ?thesis
    by (simp add: vis style_prop_def input_box_style_def style_inputBox_display obj_get_def)
qed


end
