(* ===== verification/Spec_Flow.thy ===== *)
theory Spec_Flow
  imports Flow
begin

text \<open>
  The resolution flow as spec.md (sections 4.2, 6.2 and 7) describes it, as an abstract
  machine over the same events as the screen, and its refinement by the code. The
  abstract state is the display surface of section 6.2 (\<open>searchPanelOpen\<close>,
  \<open>candidateList\<close>, \<open>currentForecast\<close>, absent until a fetch succeeds), the pending
  query of the debounce policy with its due time, and the Transport calls issued (every
  call, and those not yet answered). A call is typed (\<open>Search q\<close>, \<open>Forecast city days\<close>);
  a response is either a usable result or a TransportFailure, which leaves the state as it
  was (section 7). The concretisation \<open>conc\<close> maps an abstract state to the screen state
  that holds the same data, each typed call to the request the Transport of
  src/api/weather.js sends for it. The refinement theorem says that on every event that
  keeps to the spec's assumptions (a successful response of the expected shape; the panel
  closed only when its list is empty) the screen steps to the concretisation of the
  spec's successor.
\<close>

datatype tcall = Search string | Forecast jsval nat

record flow =
  panelOpen :: bool
  candidates :: "jsval list"
  forecast :: "jsval option"
  query :: "(string \<times> nat) option"
  now :: nat
  outstanding :: "(nat \<times> tcall) list"
  calls :: "tcall list"

definition issue :: "tcall \<Rightarrow> flow \<Rightarrow> flow" where
  "issue c a = a\<lparr>outstanding := outstanding a @ [(length (calls a), c)], calls := calls a @ [c]\<rparr>"

text \<open>Transition 1: at startup, the forecast for the default city over 7 days.\<close>

definition spec_init :: flow where
  "spec_init = issue (Forecast (JStr ''Islamabad'') 7)
     \<lparr>panelOpen = False, candidates = [], forecast = None, query = None, now = 0,
      outstanding = [], calls = []\<rparr>"

text \<open>
  Section 7: a network error, a non-2xx status or a malformed body is a TransportFailure
  (\<open>None\<close>); a search result is well-formed when it is an array.
\<close>

definition transport_ok :: "http_outcome \<Rightarrow> jsval option" where
  "transport_ok out = (case out of Reply st d \<Rightarrow> if axios_ok st then Some d else None | NoReply \<Rightarrow> None)"

definition search_result :: "http_outcome \<Rightarrow> jsval list option" where
  "search_result out = (case transport_ok out of Some (JArr xs) \<Rightarrow> Some xs | _ \<Rightarrow> None)"

text \<open>
  Transitions 2 to 7, with the lifecycle of section 3: closing the panel destroys the
  candidate list; a keystroke restarts the debounce window; the window's end issues the
  search for more than two characters; a selection clears the list, closes the panel and
  issues the 7-day forecast of the candidate's name; a response replaces the list or the
  forecast on success and changes nothing on failure.
\<close>

definition spec_step :: "flow \<Rightarrow> event \<Rightarrow> flow" where
  "spec_step a e =
     (case e of
        PressSearch \<Rightarrow>
          if panelOpen a then a\<lparr>panelOpen := False, candidates := []\<rparr> else a\<lparr>panelOpen := True\<rparr>
      | ChangeText t \<Rightarrow> a\<lparr>query := Some (t, now a + 1200)\<rparr>
      | Wait d \<Rightarrow>
          (let a1 = a\<lparr>now := now a + d\<rparr> in
           case query a of
             None \<Rightarrow> a1
           | Some (t, due) \<Rightarrow>
               if due \<le> now a + d
               then (if 2 < length t then issue (Search t) (a1\<lparr>query := None\<rparr>)
                     else a1\<lparr>query := None\<rparr>)
               else a1)
      | PressLocation i \<Rightarrow>
          if panelOpen a \<and> i < length (candidates a)
          then issue (Forecast (opt_path (candidates a ! i) [Name ''name'']) 7)
                 (a\<lparr>candidates := [], panelOpen := False\<rparr>)
          else a
      | Settle n out \<Rightarrow>
          (case map_of (outstanding a) n of
             None \<Rightarrow> a
           | Some c \<Rightarrow>
               (let a1 = a\<lparr>outstanding := filter (\<lambda>(j, _). j \<noteq> n) (outstanding a)\<rparr> in
                case c of
                  Search q \<Rightarrow>
                    (case search_result out of None \<Rightarrow> a1 | Some xs \<Rightarrow> a1\<lparr>candidates := xs\<rparr>)
                | Forecast city d \<Rightarrow>
                    (case transport_ok out of None \<Rightarrow> a1 | Some f \<Rightarrow> a1\<lparr>forecast := Some f\<rparr>))))"

fun spec_run :: "flow \<Rightarrow> event list \<Rightarrow> flow" where
  "spec_run a [] = a"
| "spec_run a (e # es) = spec_run (spec_step a e) es"

text \<open>
  The events on which the code is meant to agree with the spec: a response that settles is
  a success of the shape the display reads (\<open>good_candidate\<close>, \<open>good_weather\<close> of
  the Render theory: what React can show), and the panel is closed only when its list is
  empty. The other cases are the divergences proved in \<open>Flow\<close> and \<open>Runs\<close> (C6, C7,
  C13, C36).
\<close>

definition spec_conforms :: "flow \<Rightarrow> event \<Rightarrow> bool" where
  "spec_conforms a e =
     (case e of
        PressSearch \<Rightarrow> \<not> panelOpen a \<or> candidates a = []
      | Settle n out \<Rightarrow>
          (case map_of (outstanding a) n of
             None \<Rightarrow> True
           | Some (Search q) \<Rightarrow>
               (case search_result out of None \<Rightarrow> False | Some xs \<Rightarrow> list_all good_candidate xs)
           | Some (Forecast c d) \<Rightarrow>
               (case transport_ok out of None \<Rightarrow> False | Some f \<Rightarrow> good_weather f))
      | _ \<Rightarrow> True)"

fun conforming :: "flow \<Rightarrow> event list \<Rightarrow> bool" where
  "conforming a [] = True"
| "conforming a (e # es) = (spec_conforms a e \<and> conforming (spec_step a e) es)"

definition flow_good :: "flow \<Rightarrow> bool" where
  "flow_good a \<longleftrightarrow> list_all good_candidate (candidates a) \<and>
     (case forecast a of None \<Rightarrow> True | Some f \<Rightarrow> good_weather f)"

section \<open>Concretisation\<close>

text \<open>
  A typed call is the request \<open>fetchLocation\<close> or \<open>fetchWeatherForecast\<close> sends for it,
  with the day count printed in decimal as the template literal prints \<open>'7'\<close>; the
  continuation waiting on it is the one of the call site.
\<close>

definition transport :: "string \<Rightarrow> tcall \<Rightarrow> request" where
  "transport key c =
     (case c of
        Search q \<Rightarrow> fetchLocation key \<lparr>cityName = JStr q, days = JUndefined\<rparr>
      | Forecast city d \<Rightarrow> fetchWeatherForecast key \<lparr>cityName = city, days = JStr (nat_to_dec d)\<rparr>)"

definition cont_of :: "tcall \<Rightarrow> cont" where
  "cont_of c = (case c of Search q \<Rightarrow> AwaitSetLocations | Forecast city d \<Rightarrow> ThenSetWeather)"

definition conc :: "string \<Rightarrow> flow \<Rightarrow> screen" where
  "conc key a =
     \<lparr>showSearch = panelOpen a, locations = JArr (candidates a),
      weather = (case forecast a of None \<Rightarrow> JArr [] | Some f \<Rightarrow> f),
      timer = query a, clock = now a,
      inflight = map (\<lambda>(n, c). (n, cont_of c, transport key c)) (outstanding a),
      sent = map (transport key) (calls a), apiKey = key\<rparr>"

section \<open>Refinement\<close>

lemma nat_to_dec_seven [simp]: "nat_to_dec 7 = ''7''"
  by code_simp

lemma conc_fields [simp]:
  "showSearch (conc k a) = panelOpen a" "locations (conc k a) = JArr (candidates a)"
  "weather (conc k a) = (case forecast a of None \<Rightarrow> JArr [] | Some f \<Rightarrow> f)"
  "timer (conc k a) = query a" "clock (conc k a) = now a" "apiKey (conc k a) = k"
  "sent (conc k a) = map (transport k) (calls a)"
  "inflight (conc k a) = map (\<lambda>(n, c). (n, cont_of c, transport k c)) (outstanding a)"
  by (simp_all add: conc_def)

lemma conc_issue: "send (cont_of c) (transport k c) (conc k a) = conc k (issue c a)"
  by (simp add: send_def conc_def issue_def)

lemma map_of_map_snd: "map_of (map (\<lambda>(n, c). (n, f c)) xs) n = map_option f (map_of xs n)"
  by (induction xs) auto

lemma filter_map_snd:
  "filter (\<lambda>(j, _). j \<noteq> n) (map (\<lambda>(m, c). (m, f c)) xs) =
   map (\<lambda>(m, c). (m, f c)) (filter (\<lambda>(j, _). j \<noteq> n) xs)"
  by (induction xs) auto

lemma transport_ok_result: "transport_ok out = Some f \<Longrightarrow> apiCall_result out = f"
  by (auto simp: transport_ok_def apiCall_result_def split: http_outcome.splits if_splits)

lemma search_result_Some: "search_result out = Some xs \<longleftrightarrow> transport_ok out = Some (JArr xs)"
  by (auto simp: search_result_def split: option.splits jsval.splits)

lemma good_weather_empty [simp]: "good_weather (JArr [])"
  by (simp add: good_weather_def)

lemma flow_good_state: "flow_good a \<Longrightarrow> good_state (conc k a)"
  by (auto simp: flow_good_def good_state_def good_locations_def split: option.splits)

lemma issue_fields [simp]:
  "panelOpen (issue c a) = panelOpen a" "candidates (issue c a) = candidates a"
  "forecast (issue c a) = forecast a" "query (issue c a) = query a" "now (issue c a) = now a"
  "calls (issue c a) = calls a @ [c]"
  "outstanding (issue c a) = outstanding a @ [(length (calls a), c)]"
  by (simp_all add: issue_def)

lemma flow_good_step: "flow_good a \<Longrightarrow> spec_conforms a e \<Longrightarrow> flow_good (spec_step a e)"
  by (auto simp: spec_step_def spec_conforms_def flow_good_def Let_def
      split: event.splits option.splits tcall.splits if_splits prod.splits)

lemma conc_pressSearch:
  "spec_conforms a PressSearch \<Longrightarrow> pressSearch (conc k a) = conc k (spec_step a PressSearch)"
  by (auto simp: pressSearch_def conc_def spec_step_def spec_conforms_def)

lemma conc_text: "handleTextDebounce t (conc k a) = conc k (spec_step a (ChangeText t))"
  by (simp add: handleTextDebounce_def deb_call_def conc_def spec_step_def)

lemma conc_wait: "advance_time d (conc k a) = conc k (spec_step a (Wait d))"
  by (auto simp: advance_time_def spec_step_def deb_advance_def handleSearch_def conc_def send_def
      issue_def transport_def cont_of_def Let_def split: option.splits)

lemma conc_settle:
  assumes c: "spec_conforms a (Settle n out)"
  shows "settle n out (conc k a) = conc k (spec_step a (Settle n out))"
proof (cases "map_of (outstanding a) n")
  case None
  then show ?thesis by (simp add: settle_def spec_step_def map_of_map_snd)
next
  case (Some t)
  have m: "map_of (inflight (conc k a)) n = Some (cont_of t, transport k t)"
    using Some by (simp add: map_of_map_snd)
  show ?thesis
  proof (cases t)
    case (Search q)
    with c Some obtain xs where "search_result out = Some xs"
      by (auto simp: spec_conforms_def split: option.splits)
    then have "apiCall_result out = JArr xs" "search_result out = Some xs"
      by (simp_all add: search_result_Some transport_ok_result)
    with m Some Search show ?thesis
      by (simp add: settle_def spec_step_def cont_of_def conc_def filter_map_snd)
  next
    case (Forecast city d)
    with c Some obtain f where "transport_ok out = Some f"
      by (auto simp: spec_conforms_def split: option.splits)
    then have "apiCall_result out = f" "transport_ok out = Some f"
      by (simp_all add: transport_ok_result)
    with m Some Forecast show ?thesis
      by (simp add: settle_def spec_step_def cont_of_def conc_def filter_map_snd)
  qed
qed

lemma conc_press:
  assumes g: "flow_good a"
  shows "react_step (conc k a) (PressLocation i) = Inr (conc k (spec_step a (PressLocation i)))"
proof -
  obtain v where r: "render (conc k a) = Inr v"
    using good_state_render [OF flow_good_state [OF g]] by blast
  show ?thesis
  proof (cases "panelOpen a \<and> i < length (candidates a)")
    case True
    have nn: "\<not> nullish (candidates a ! i)" using g True by (simp add: flow_good_def list_all_iff good_candidate_def)
    have "react_step (conc k a) (PressLocation i) =
        Inr (send ThenSetWeather (fetchWeatherForecast k
               \<lparr>cityName = opt_path (candidates a ! i) [Name ''name''], days = JStr ''7''\<rparr>)
             ((conc k a)\<lparr>locations := JArr [], showSearch := False\<rparr>))"
      using press_location_react [OF r _ _ _ nn] True by simp
    also have "\<dots> = Inr (conc k (spec_step a (PressLocation i)))"
      using True by (simp add: spec_step_def conc_def send_def issue_def transport_def cont_of_def)
    finally show ?thesis .
  next
    case False
    then have "spec_step a (PressLocation i) = a"
      by (simp only: spec_step_def event.case if_not_P [OF False] if_False)
    with False press_location_hidden [OF r, of "candidates a" i] show ?thesis by simp
  qed
qed

lemma refine_step:
  assumes g: "flow_good a" and c: "spec_conforms a e"
  shows "react_step (conc k a) e = Inr (conc k (spec_step a e))"
proof -
  obtain v' where r': "render (conc k (spec_step a e)) = Inr v'"
    using good_state_render [OF flow_good_state [OF flow_good_step [OF g c]]] by blast
  have d: "dispatch (conc k a) e = Inr (conc k (spec_step a e))" if "\<forall>i. e \<noteq> PressLocation i"
    using that c by (cases e) (simp_all add: dispatch_def conc_pressSearch conc_text conc_wait conc_settle)
  show ?thesis
  proof (cases "\<exists>i. e = PressLocation i")
    case True
    then show ?thesis using conc_press [OF g] by auto
  next
    case False
    then show ?thesis using d r' by (simp add: react_step_def)
  qed
qed

lemma refine_run:
  "flow_good a \<Longrightarrow> conforming a es \<Longrightarrow> run (conc k a) es = Inr (conc k (spec_run a es))"
proof (induction es arbitrary: a)
  case Nil
  then show ?case by simp
next
  case (Cons e es)
  then have "react_step (conc k a) e = Inr (conc k (spec_step a e))"
    by (simp add: refine_step)
  with Cons.IH [OF flow_good_step] Cons.prems show ?case by simp
qed

lemma startup_conc: "startup k = Inr (conc k spec_init)"
proof -
  have "good_state (init_screen k)"
    by (simp add: good_state_def init_screen_def good_locations_def)
  then obtain v where "render (init_screen k) = Inr v" using good_state_render by blast
  then show ?thesis
    by (simp add: startup_def fetchMyweatherData_def spec_init_def conc_def init_screen_def send_def
        issue_def transport_def cont_of_def)
qed

lemma spec_init_good: "flow_good spec_init"
  by (simp add: flow_good_def spec_init_def)

text \<open>
  C18: the code refines the spec's resolution flow. From startup, every sequence of events
  that keeps to the spec's assumptions (each response that settles is a success of the
  expected shape, with candidates whose name and country, and forecast fields the screen
  shows, are no objects; the panel is closed only with an empty list) runs on the screen without
  a crash and ends in the concretisation of the state the spec's machine reaches: the same
  panel, candidates and forecast, the same pending query, and exactly the requests of the
  Transport calls the spec issues, in the same order, with the same ones outstanding.
\<close>

theorem startup_refines_spec:
  assumes "conforming spec_init es"
  shows "\<exists>s. startup k = Inr s \<and> run s es = Inr (conc k (spec_run spec_init es))"
  using startup_conc refine_run [OF spec_init_good assms] by blast

end
