(* ===== verification/Dates.thy ===== *)
theory Dates
  imports Render
begin

text \<open>
  The weekday name of a daily forecast card (src/screens/HomeScreens.js, lines 140-142):
  \<open>new Date(item.date)\<close>, then \<open>toLocaleDateString('en-Us', {weekday: 'long'})\<close>.
  The date arithmetic is the engine's, modelled from ECMA-262 (section 21.4): a time
  value is a number of milliseconds since 1970-01-01 00:00 UTC; \<open>DayFromYear\<close> is a
  closed form of the days before a year; \<open>MakeDay\<close> adds the days of the months before
  and the day of the month; a date-only string \<open>YYYY-MM-DD\<close> denotes UTC midnight of that
  day; \<open>new Date(null)\<close> is time 0 and \<open>new Date(undefined)\<close> the invalid date (NaN).
  Formatting works in local time: the local time of \<open>t\<close> is \<open>t\<close> plus the device's
  offset from UTC (\<open>tz\<close>, in minutes east of UTC), and \<open>WeekDay\<close> is the local day
  number plus 4 modulo 7, day 0 having been a Thursday. An invalid date prints as
  \<open>Invalid Date\<close>. Only the standard date-only format with fields in range is read;
  ECMA-262 leaves every other string to the implementation, and the model reads them as
  invalid.
\<close>

definition ms_per_day :: int where
  "ms_per_day = 86400000"

definition leap_year :: "int \<Rightarrow> bool" where
  "leap_year y \<longleftrightarrow> y mod 4 = 0 \<and> (y mod 100 \<noteq> 0 \<or> y mod 400 = 0)"

definition days_in_year :: "int \<Rightarrow> int" where
  "days_in_year y = (if leap_year y then 366 else 365)"

definition month_lengths :: "int \<Rightarrow> int list" where
  "month_lengths y = [31, if leap_year y then 29 else 28, 31, 30, 31, 30, 31, 31, 30, 31, 30, 31]"

text \<open>ECMA-262 \<open>DayFromYear(y)\<close>.\<close>

definition day_from_year :: "int \<Rightarrow> int" where
  "day_from_year y = 365 * (y - 1970) + (y - 1969) div 4 - (y - 1901) div 100 + (y - 1601) div 400"

text \<open>\<open>MakeDay\<close> for a month \<open>m\<close> in 1..12 and a day \<open>d\<close> of that month.\<close>

definition make_day :: "int \<Rightarrow> nat \<Rightarrow> nat \<Rightarrow> int" where
  "make_day y m d = day_from_year y + sum_list (take (m - 1) (month_lengths y)) + int d - 1"

text \<open>A field of decimal digits (at least one).\<close>

definition dec_field :: "string \<Rightarrow> int option" where
  "dec_field cs = (if cs = [] then None else str_to_number cs)"

text \<open>The date-only form \<open>YYYY-MM-DD\<close> of the ECMA-262 date time string format.\<close>

definition parse_iso_date :: "string \<Rightarrow> (int \<times> nat \<times> nat) option" where
  "parse_iso_date s =
     (if length s = 10 \<and> s ! 4 = CHR ''-'' \<and> s ! 7 = CHR ''-''
      then (case (dec_field (take 4 s), dec_field (take 2 (drop 5 s)), dec_field (drop 8 s)) of
              (Some y, Some m, Some d) \<Rightarrow>
                if 1 \<le> m \<and> m \<le> 12 \<and> 1 \<le> d \<and> d \<le> month_lengths y ! nat (m - 1)
                then Some (y, nat m, nat d) else None
            | _ \<Rightarrow> None)
      else None)"

text \<open>
  \<open>new Date(v)\<close> with one argument: its time value, \<open>None\<close> for NaN. A string is parsed;
  an array is first converted to its string, an object to \<open>[object Object]\<close>, which does
  not parse; a number is clipped to the range of time values.
\<close>

fun js_date :: "jsval \<Rightarrow> int option" where
  "js_date (JStr s) = map_option (\<lambda>(y, m, d). make_day y m d * ms_per_day) (parse_iso_date s)"
| "js_date (JArr xs) =
     map_option (\<lambda>(y, m, d). make_day y m d * ms_per_day) (parse_iso_date (js_to_string (JArr xs)))"
| "js_date JNull = Some 0"
| "js_date JUndefined = None"
| "js_date (JBool b) = Some (if b then 1 else 0)"
| "js_date (JNum n) = (if \<bar>n\<bar> \<le> 8640000000000000 then Some n else None)"
| "js_date (JObj kvs) = None"

text \<open>\<open>WeekDay(LocalTime(t))\<close>, 0 for Sunday.\<close>

definition week_day :: "int \<Rightarrow> int \<Rightarrow> int" where
  "week_day tz t = ((t + tz * 60000) div ms_per_day + 4) mod 7"

definition weekday_name :: "int \<Rightarrow> string" where
  "weekday_name w =
     [''Sunday'', ''Monday'', ''Tuesday'', ''Wednesday'', ''Thursday'', ''Friday'', ''Saturday''] ! nat w"

text \<open>
  \<open>dayName\<close> of the card for the value \<open>item.date\<close> read by \<open>render_day_card\<close>
  (kept in \<open>card_date\<close>), on a device \<open>tz\<close> minutes east of UTC.
\<close>

definition day_name :: "int \<Rightarrow> jsval \<Rightarrow> string" where
  "day_name tz date = (case js_date date of None \<Rightarrow> ''Invalid Date'' | Some t \<Rightarrow> weekday_name (week_day tz t))"

section \<open>Reference calendar\<close>

text \<open>
  The day count of a date by counting: the lengths of the years from 1970, then of the
  months of the year, then the days; 1970-01-01 was a Thursday (weekday 4).
\<close>

fun days_before :: "nat \<Rightarrow> int" where
  "days_before 0 = 0"
| "days_before (Suc n) = days_before n + days_in_year (1970 + int n)"

definition ref_day :: "int \<Rightarrow> nat \<Rightarrow> nat \<Rightarrow> int" where
  "ref_day y m d = days_before (nat (y - 1970)) + sum_list (take (m - 1) (month_lengths y)) + int d - 1"

definition ref_weekday :: "int \<Rightarrow> nat \<Rightarrow> nat \<Rightarrow> int" where
  "ref_weekday y m d = (ref_day y m d + 4) mod 7"

section \<open>Lemmas\<close>

lemma div_succ_int:
  fixes a k :: int
  assumes k: "0 < k"
  shows "(a + 1) div k = a div k + (if (a + 1) mod k = 0 then 1 else 0)"
proof -
  let ?q = "a div k" and ?r = "a mod k"
  have r: "0 \<le> ?r" "?r < k" using k by simp_all
  have a: "a + 1 = (?r + 1) + ?q * k" by (simp add: algebra_simps)
  show ?thesis
  proof (cases "?r + 1 = k")
    case True
    then have "a + 1 = (?q + 1) * k" using a by (simp add: algebra_simps)
    then show ?thesis using k by simp
  next
    case False
    then have lt: "?r + 1 < k" using r by simp
    have "(a + 1) div k = (?r + 1 + ?q * k) div k" by (simp only: a)
    also have "\<dots> = ?q + (?r + 1) div k" using k by (intro div_mult_self1) simp
    finally have d: "(a + 1) div k = ?q + (?r + 1) div k" .
    have "(a + 1) mod k = (?r + 1 + ?q * k) mod k" by (simp only: a)
    also have "\<dots> = (?r + 1) mod k" by (rule mod_mult_self1)
    finally have m: "(a + 1) mod k = (?r + 1) mod k" .
    have "(?r + 1) div k = 0" "(?r + 1) mod k = ?r + 1"
      using r lt by simp_all
    then show ?thesis using r d m by simp
  qed
qed

lemma div_step_shift:
  fixes y c k :: int
  assumes k: "0 < k" and c: "c mod k = 0"
  shows "(y - c) div k = (y - (c + 1)) div k + (if y mod k = 0 then 1 else 0)"
proof -
  have "(y - (c + 1) + 1) div k = (y - (c + 1)) div k + (if (y - (c + 1) + 1) mod k = 0 then 1 else 0)"
    using k by (rule div_succ_int)
  moreover have "y - (c + 1) + 1 = y - c" by simp
  moreover have "(y - c) mod k = y mod k" using c by (simp add: mod_diff_eq [symmetric])
  ultimately show ?thesis by simp
qed

lemma mod_factor_zero:
  fixes y :: int
  assumes "y mod (a * b) = 0" shows "y mod a = 0"
proof -
  from assms obtain q where "y = a * b * q" by (auto simp: mod_eq_0_iff_dvd dvd_def)
  then show ?thesis by (simp add: mult.assoc)
qed

lemma day_from_year_succ_diff: "day_from_year (y + 1) = day_from_year y + 365 + ((y - 1968) div 4 - (y - 1969) div 4)
      - ((y - 1900) div 100 - (y - 1901) div 100) + ((y - 1600) div 400 - (y - 1601) div 400)"
proof -
  have d: "y + 1 - 1969 = y - 1968" "y + 1 - 1901 = y - 1900" "y + 1 - 1601 = y - 1600" "y + 1 - 1970 = (y - 1970) + 1" by simp_all
  show ?thesis unfolding day_from_year_def d by (simp only: algebra_simps)
qed
lemma year_div_4: "(y - 1968) div 4 - (y - 1969) div 4 = (if y mod 4 = 0 then 1 else (0::int))"
    using div_step_shift [of 4 1968 y] by simp
lemma year_div_100: "(y - 1900) div 100 - (y - 1901) div 100 = (if y mod 100 = 0 then 1 else (0::int))"
    using div_step_shift [of 100 1900 y] by simp
lemma year_div_400: "(y - 1600) div 400 - (y - 1601) div 400 = (if y mod 400 = 0 then 1 else (0::int))"
    using div_step_shift [of 400 1600 y] by simp
lemma day_from_year_succ: "day_from_year (y + 1) = day_from_year y + days_in_year y"
proof -
  have f: "y mod 100 = 0 \<Longrightarrow> y mod 4 = 0" "y mod 400 = 0 \<Longrightarrow> y mod 100 = 0"
    using mod_factor_zero [of y 4 25] mod_factor_zero [of y 100 4] by simp_all
  have "day_from_year (y + 1) = day_from_year y + 365 + (if y mod 4 = 0 then 1 else 0)
      - (if y mod 100 = 0 then 1 else 0) + (if y mod 400 = 0 then 1 else 0)"
    by (simp only: day_from_year_succ_diff year_div_4 year_div_100 year_div_400)
  also have "\<dots> = day_from_year y + days_in_year y"
    unfolding days_in_year_def leap_year_def
    by (cases "y mod 4 = 0"; cases "y mod 100 = 0"; cases "y mod 400 = 0") (use f in simp_all)
  finally show ?thesis .
qed
lemma day_from_year_days_before: "day_from_year (1970 + int n) = days_before n"
proof (induction n)
  case 0
  then show ?case by (simp add: day_from_year_def)
next
  case (Suc n)
  have "day_from_year (1970 + int (Suc n)) = day_from_year (1970 + int n + 1)" by simp
  also have "\<dots> = days_before (Suc n)" by (simp only: day_from_year_succ Suc.IH days_before.simps)
  finally show ?case .
qed

lemma make_day_ref: "1970 \<le> y \<Longrightarrow> make_day y m d = ref_day y m d"
  using day_from_year_days_before [of "nat (y - 1970)"] by (simp add: make_day_def ref_day_def)

lemma local_day_same:
  "0 \<le> r \<Longrightarrow> r < ms_per_day \<Longrightarrow> (D * ms_per_day + r) div ms_per_day = D"
  by (simp add: ms_per_day_def)

lemma local_day_before:
  "- ms_per_day \<le> r \<Longrightarrow> r < 0 \<Longrightarrow> (D * ms_per_day + r) div ms_per_day = D - 1"
proof -
  assume "- ms_per_day \<le> r" "r < 0"
  then have "0 \<le> r + ms_per_day" "r + ms_per_day < ms_per_day" by simp_all
  moreover have "D * ms_per_day + r = (D - 1) * ms_per_day + (r + ms_per_day)" by (simp add: algebra_simps)
  ultimately show ?thesis using local_day_same [of "r + ms_per_day" "D - 1"] by (simp only:)
qed

lemma week_day_date:
  assumes "\<bar>tz\<bar> < 1440"
  shows "week_day tz (D * ms_per_day) = (if tz < 0 then (D + 3) mod 7 else (D + 4) mod 7)"
proof (cases "tz < 0")
  case True
  with assms have "- ms_per_day \<le> tz * 60000" "tz * 60000 < 0" by (simp_all add: ms_per_day_def)
  then show ?thesis using True local_day_before [of "tz * 60000" D] by (simp add: week_day_def ac_simps)
next
  case False
  with assms have "0 \<le> tz * 60000" "tz * 60000 < ms_per_day" by (simp_all add: ms_per_day_def)
  then show ?thesis using False local_day_same [of "tz * 60000" D] by (simp add: week_day_def ac_simps)
qed
text \<open>
  C26: the weekday a forecast card shows for a provider date \<open>YYYY-MM-DD\<close> (from 1970 on)
  is the weekday of that date (by counting days from 1970-01-01, a Thursday) on a device
  at or east of UTC, and the weekday before it on a device west of UTC: the date-only
  string denotes UTC midnight and \<open>toLocaleDateString\<close> shows the local day. The
  engine's closed form \<open>DayFromYear\<close> agrees with counting the year lengths.
\<close>

theorem day_card_weekday:
  assumes "parse_iso_date s = Some (y, m, d)" and "1970 \<le> y" and "\<bar>tz\<bar> < 1440"
  shows "day_name tz (JStr s) =
           weekday_name (if tz < 0 then (ref_weekday y m d + 6) mod 7 else ref_weekday y m d)"
proof -
  have j: "js_date (JStr s) = Some (ref_day y m d * ms_per_day)"
    using assms(1) make_day_ref [OF assms(2)] by simp
  have "day_name tz (JStr s) = weekday_name (week_day tz (ref_day y m d * ms_per_day))"
    by (simp only: day_name_def j option.case)
  moreover have "(ref_day y m d + 4) mod 7 = ref_weekday y m d" by (simp add: ref_weekday_def)
  moreover have "((ref_day y m d + 4) mod 7 + 6) mod 7 = (ref_day y m d + 3) mod 7"
  proof -
    have "((ref_day y m d + 4) mod 7 + 6) mod 7 = (ref_day y m d + 4 + 6) mod 7"
      by (rule mod_add_left_eq)
    also have "ref_day y m d + 4 + 6 = ref_day y m d + 3 + 7" by simp
    also have "(ref_day y m d + 3 + 7) mod 7 = (ref_day y m d + 3) mod 7" by (rule mod_add_self2)
    finally show ?thesis .
  qed
  ultimately show ?thesis
    using week_day_date [OF assms(3), of "ref_day y m d"] by simp
qed

text \<open>
  C27: a forecast day without a \<open>date\<close> renders a card whose day name is
  \<open>Invalid Date\<close>; one whose \<open>date\<close> is \<open>null\<close> shows the weekday of 1970-01-01
  (Thursday, or Wednesday west of UTC). Neither case crashes the render.
\<close>

theorem day_card_bad_date:
  assumes "render_day_card current item = Inr c"
  shows "(get_prop item (Name ''date'') = Inr JUndefined \<longrightarrow>
            day_name tz (card_date c) = ''Invalid Date'') \<and>
         (get_prop item (Name ''date'') = Inr JNull \<longrightarrow> \<bar>tz\<bar> < 1440 \<longrightarrow>
            day_name tz (card_date c) = (if tz < 0 then ''Wednesday'' else ''Thursday''))"
proof -
  have c: "card_date c = (case get_prop item (Name ''date'') of Inr v \<Rightarrow> v | Inl e \<Rightarrow> card_date c)"
    using assms by (auto simp: render_day_card_def sbind_eq_Inr_iff)
  have "\<bar>tz\<bar> < 1440 \<Longrightarrow> week_day tz (0 * ms_per_day) = (if tz < 0 then 3 else 4)"
    using week_day_date [of tz 0] by simp
  then show ?thesis using c
    by (auto simp: day_name_def weekday_name_def)
qed

end
