(* ===== verification/Display.thy ===== *)
theory Display
  imports Spec_Flow Dates
begin

text \<open>
  What the render of src/screens/HomeScreens.js shows, read off a successful \<open>render\<close>
  (Render theory): the header fields of the current weather (\<open>location?.name\<close>,
  \<open>" " + location?.country\<close>, the \<open>current?.\<close> chains), the sunrise line
  (\<open>weather?.forecast?.forecastday[0]?.astro?.sunrise\<close>) and the daily cards of
  \<open>forecastday.map\<close>; typing as seen on the screen; and the whole resolution
  flow of spec.md section 4.2 (open the panel, type, receive the candidates, select, receive
  the forecast), obtained by computing the abstract run and transferring it through the
  refinement of \<open>Spec_Flow\<close>.
\<close>

section \<open>Daily cards, sunrise, header\<close>

text \<open>
  C31: a rendered forecast shows one daily card per entry of \<open>forecastday\<close>, in order:
  card \<open>i\<close> carries day \<open>i\<close>'s \<open>date\<close> (from which the Dates theory computes its day
  name) and \<open>day.avgtemp_c\<close>, and every card shows the same icon, the one of the
  current condition (\<open>'https:' + current?.condition?.icon\<close>), not the day's own.
\<close>

theorem daily_cards:
  assumes "render s = Inr v"
    and "opt_path (weather s) [Name ''forecast'', Name ''forecastday''] = JArr items"
  shows "\<exists>cs. daily v = Some cs \<and> length cs = length items \<and>
     (\<forall>i < length items.
        card_date (cs ! i) = opt_path (items ! i) [Name ''date''] \<and>
        card_avgtemp (cs ! i) = opt_path (items ! i) [Name ''day'', Name ''avgtemp_c''] \<and>
        card_icon (cs ! i) =
          js_add_str ''https:'' (opt_path (weather s) [Name ''current'', Name ''condition'', Name ''icon'']))"
proof -
  obtain c where c: "get_prop (weather s) (Name ''current'') = Inr c"
    and d: "render_daily (weather s) c = Inr (daily v)"
    using render_Inr_parts [OF assms(1)] by metis
  have "opt_path (weather s) [Name ''current'', Name ''condition'', Name ''icon''] =
      opt_path c [Name ''condition'', Name ''icon'']"
    by (rule opt_path_Cons_Inr [OF c])
  with render_daily_cards [OF assms(2) d] show ?thesis by simp
qed

text \<open>
  C32: the sunrise line shows the first forecast day's \<open>astro.sunrise\<close>, and nothing
  (\<open>undefined\<close>) when there is no forecast or no day; a forecast object without a
  \<open>forecastday\<close> crashes the render, as \<open>[0]\<close> is read without \<open>?.\<close>.
\<close>

theorem sunrise_first_day:
  "(render s = Inr v \<longrightarrow>
      sunrise v = (case opt_path (weather s) [Name ''forecast'', Name ''forecastday''] of
                     JArr (d # ds) \<Rightarrow> opt_path d [Name ''astro'', Name ''sunrise'']
                   | _ \<Rightarrow> JUndefined)) \<and>
   (\<not> nullish (opt_path (weather s) [Name ''forecast'']) \<and>
    nullish (opt_path (weather s) [Name ''forecast'', Name ''forecastday''])
      \<longrightarrow> (\<exists>e. render s = Inl e))"
proof (intro conjI impI)
  assume r: "render s = Inr v"
  then obtain c where c: "get_prop (weather s) (Name ''current'') = Inr c"
    and x: "render_sunrise (weather s) = Inr (sunrise v)"
    and d: "render_daily (weather s) c = Inr (daily v)"
    by (rule render_Inr_parts)
  show "sunrise v = (case opt_path (weather s) [Name ''forecast'', Name ''forecastday''] of
                     JArr (d # ds) \<Rightarrow> opt_path d [Name ''astro'', Name ''sunrise''] | _ \<Rightarrow> JUndefined)"
  proof (cases "opt_path (weather s) [Name ''forecast'', Name ''forecastday'']")
    case (JArr items)
    with sunrise_arr [OF JArr] x show ?thesis by (cases items) auto
  qed (use x d in \<open>auto simp: render_sunrise_def render_daily_def split: if_splits sum.splits\<close>)
next
  assume "\<not> nullish (opt_path (weather s) [Name ''forecast'']) \<and>
    nullish (opt_path (weather s) [Name ''forecast'', Name ''forecastday''])"
  then have "\<exists>e. render_sunrise (weather s) = Inl e"
    by (cases "nullish (weather s)"; cases "get_prop (weather s) (Name ''forecast'')")
       (auto simp: render_sunrise_def nullish_def split: sum.splits)
  then show "\<exists>e. render s = Inl e"
    by (cases "render s") (auto elim: render_Inr_parts)
qed

text \<open>
  C33: the header shows the fields of the current weather value: the city name, the
  country after a blank (so \<open>" undefined"\<close> while no forecast has arrived, as the
  initial \<open>weather\<close> is \<open>[]\<close>), the temperature, the condition text, the wind speed
  and the humidity.
\<close>

theorem header_fields:
  assumes "render s = Inr v"
  shows "city_name v = opt_path (weather s) [Name ''location'', Name ''name''] \<and>
    country_text v = '' '' @ js_to_string (opt_path (weather s) [Name ''location'', Name ''country'']) \<and>
    temp_c v = opt_path (weather s) [Name ''current'', Name ''temp_c''] \<and>
    condition_text v = opt_path (weather s) [Name ''current'', Name ''condition'', Name ''text''] \<and>
    wind_kph v = opt_path (weather s) [Name ''current'', Name ''wind_kph''] \<and>
    humidity v = opt_path (weather s) [Name ''current'', Name ''humidity'']"
proof -
  from assms obtain c l where
    c: "get_prop (weather s) (Name ''current'') = Inr c" and
    l: "get_prop (weather s) (Name ''location'') = Inr l" and
    "city_name v = opt_path l [Name ''name'']"
    "country_text v = js_add_str '' '' (opt_path l [Name ''country''])"
    "temp_c v = opt_path c [Name ''temp_c'']"
    "condition_text v = opt_path c [Name ''condition'', Name ''text'']"
    "wind_kph v = opt_path c [Name ''wind_kph'']"
    "humidity v = opt_path c [Name ''humidity'']"
    by (rule render_Inr_parts)
  then show ?thesis
    by (simp del: opt_path.simps add: opt_path_Cons_Inr [OF c] opt_path_Cons_Inr [OF l] js_add_str_def)
qed

section \<open>The resolution flow end to end\<close>

text \<open>
  The abstract run of the session: startup, open the panel, type a query, pause 1200 ms,
  the search answers with candidates (request 1), select candidate \<open>i\<close>, its forecast
  answers (request 2); the startup forecast (request 0) is still outstanding.
\<close>

lemma resolution_spec_run:
  assumes "2 < length t" and "list_all good_candidate xs" and "i < length xs"
    and "good_weather f" and "axios_ok st1" and "axios_ok st2"
  shows "conforming spec_init [PressSearch, ChangeText t, Wait 1200, Settle 1 (Reply st1 (JArr xs)),
             PressLocation i, Settle 2 (Reply st2 f)]"
    and "spec_run spec_init [PressSearch, ChangeText t, Wait 1200, Settle 1 (Reply st1 (JArr xs)),
             PressLocation i, Settle 2 (Reply st2 f)] =
           \<lparr>panelOpen = False, candidates = [], forecast = Some f, query = None, now = 1200,
            outstanding = [(0, Forecast (JStr ''Islamabad'') 7)],
            calls = [Forecast (JStr ''Islamabad'') 7, Search t,
                     Forecast (opt_path (xs ! i) [Name ''name'']) 7]\<rparr>"
  using assms
  by (simp_all add: spec_init_def spec_step_def spec_conforms_def issue_def search_result_def
      transport_ok_def Let_def)

text \<open>
  C35: the resolution flow of spec.md section 4.2 runs on the screen as specified: from
  startup, opening the panel, typing a query of more than two characters, pausing
  1200 ms, a successful search reply of non-null candidates, selecting candidate \<open>i\<close>
  and a successful reply of a well-formed forecast leave the screen showing that forecast
  with the panel closed, the list cleared and no search pending; exactly three requests
  were sent (the startup forecast for Islamabad, the search, the selected city's 7-day
  forecast), and only the startup one is still in flight.
\<close>

theorem resolution_flow:
  assumes "2 < length t" and "list_all good_candidate xs" and "i < length xs"
    and "good_weather f" and "axios_ok st1" and "axios_ok st2"
  shows "\<exists>s s'. startup k = Inr s \<and>
     run s [PressSearch, ChangeText t, Wait 1200, Settle 1 (Reply st1 (JArr xs)),
            PressLocation i, Settle 2 (Reply st2 f)] = Inr s' \<and>
     weather s' = f \<and> locations s' = JArr [] \<and> \<not> showSearch s' \<and> timer s' = None \<and>
     sent s' = [fetchWeatherForecast k \<lparr>cityName = JStr ''Islamabad'', days = JStr ''7''\<rparr>,
                fetchLocation k \<lparr>cityName = JStr t, days = JUndefined\<rparr>,
                fetchWeatherForecast k \<lparr>cityName = opt_path (xs ! i) [Name ''name''], days = JStr ''7''\<rparr>] \<and>
     map fst (inflight s') = [0]"
proof -
  let ?es = "[PressSearch, ChangeText t, Wait 1200, Settle 1 (Reply st1 (JArr xs)),
              PressLocation i, Settle 2 (Reply st2 f)]"
  have r: "run (conc k spec_init) ?es = Inr (conc k (spec_run spec_init ?es))"
    by (rule refine_run [OF spec_init_good resolution_spec_run(1) [OF assms]])
  note sr = resolution_spec_run(2) [OF assms]
  show ?thesis
  proof (intro exI conjI)
    show "startup k = Inr (conc k spec_init)" by (rule startup_conc)
    show "run (conc k spec_init) ?es = Inr (conc k (spec_run spec_init ?es))" by (rule r)
  qed (simp_all only: sr conc_fields, simp_all del: opt_path.simps add: transport_def)
qed

section \<open>Typing\<close>

text \<open>
  C34: typing never changes what the screen shows: any keystrokes and pauses, with no
  response settling, run without a crash and leave the same view, the same candidate
  list, weather and panel. In particular a text that shrinks to two characters or fewer
  leaves the previous candidates displayed, as spec.md section 4.2 (transition 7) says
  and contrary to section 3, where the list is discarded when the query becomes short.
\<close>

theorem typing_keeps_view:
  assumes "render s = Inr v"
  shows "\<exists>s'. run s (typing ks) = Inr s' \<and> render s' = Inr v \<and>
     locations s' = locations s \<and> weather s' = weather s \<and> showSearch s' = showSearch s"
  using assms
proof (induction ks arbitrary: s)
  case Nil
  then show ?case by simp
next
  case (Cons k ks)
  obtain t g where k: "k = (t, g)" by fastforce
  note ks = keystroke [OF Cons.prems(1), where t = t and g = g]
  let ?s1 = "advance_time g (handleTextDebounce t s)"
  have f: "locations ?s1 = locations s" "weather ?s1 = weather s" "showSearch ?s1 = showSearch s"
    by (simp_all add: handleTextDebounce_def)
  from Cons.IH [OF ks(2)] f show ?case by (simp del: run.simps add: k ks(1))
qed

end
