(* ===== verification/Scenarios.thy ===== *)
theory Scenarios
  imports Runs Styles Display
begin

text \<open>
  Concrete data for the spec's scenarios (section 8 of spec.md): a location candidate, a
  forecast body shaped like the provider's, and screen states reached by the code from
  the first render. Each claim of the flow with hypotheses is applied here at one of
  these states, with every hypothesis discharged by evaluation.
\<close>

definition london :: jsval where
  "london = JObj [(''name'', JStr ''London''), (''country'', JStr ''UK'')]"

definition islamabad_forecast :: jsval where
  "islamabad_forecast =
     JObj [(''location'', JObj [(''name'', JStr ''Islamabad''), (''country'', JStr ''Pakistan'')]),
           (''current'', JObj [(''temp_c'', JNum 21), (''humidity'', JNum 40), (''wind_kph'', JNum 11),
              (''condition'', JObj [(''text'', JStr ''Sunny''), (''icon'', JStr ''//cdn/sunny.png'')])]),
           (''forecast'', JObj [(''forecastday'', JArr
              [JObj [(''date'', JStr ''2024-05-01''), (''day'', JObj [(''avgtemp_c'', JNum 24)]),
                     (''astro'', JObj [(''sunrise'', JStr ''05:31 AM'')])]])])]"

text \<open>The state after the first render and the mount effect, with key \<open>KEY\<close>.\<close>

definition ex_started :: screen where
  "ex_started = fetchMyweatherData (init_screen ''KEY'')"

text \<open>The panel open on a one-entry candidate list.\<close>

definition ex_panel :: screen where
  "ex_panel = ex_started\<lparr>showSearch := True, locations := JArr [london]\<rparr>"

text \<open>Two searches in flight, ids 1 (\<open>Lon\<close>) and 2 (\<open>Lond\<close>).\<close>

definition ex_two_searches :: screen where
  "ex_two_searches = handleSearch ''Lond'' (handleSearch ''Lon'' ex_panel)"

text \<open>\<open>Lon\<close> typed at time 0: the debounced search is pending.\<close>

definition ex_typed :: screen where
  "ex_typed = handleTextDebounce ''Lon'' ex_started"

text \<open>A search for \<open>Lond\<close> in flight (id 1) while the panel shows \<open>London\<close>.\<close>

definition ex_searching :: screen where
  "ex_searching = handleSearch ''Lond'' ex_panel"

text \<open>
  A session from startup: open the panel, type \<open>Lon\<close>, pause, receive the candidates,
  select London, receive its forecast.
\<close>

definition ex_session :: "event list" where
  "ex_session =
     [PressSearch, ChangeText ''Lon'', Wait 1200, Settle 1 (Reply 200 (JArr [london])),
      PressLocation 0, Settle 2 (Reply 200 islamabad_forecast)]"

text \<open>The panel open on a search response whose only entry is \<open>null\<close>.\<close>

definition ex_null_row :: screen where
  "ex_null_row = ex_started\<lparr>showSearch := True, locations := JArr [JNull]\<rparr>"

text \<open>Three keystrokes: \<open>L\<close>, \<open>Lo\<close> then a long pause, \<open>Lon\<close> then a long pause.\<close>

definition ex_keys :: "(string \<times> nat) list" where
  "ex_keys = [(''L'', 300), (''Lo'', 1500), (''Lon'', 1300)]"

text \<open>The started screen once the Islamabad forecast has been stored.\<close>

definition ex_loaded :: screen where
  "ex_loaded = ex_started\<lparr>weather := islamabad_forecast\<rparr>"

text \<open>A forecast reply whose \<open>forecast\<close> object has no \<open>forecastday\<close>.\<close>

definition ex_no_days :: screen where
  "ex_no_days = ex_started\<lparr>weather := JObj [(''forecast'', JObj [])]\<rparr>"

lemmas ex_defs = ex_started_def ex_panel_def ex_two_searches_def ex_typed_def london_def
  fetchMyweatherData_def init_screen_def handleSearch_def handleTextDebounce_def deb_call_def

lemma london_good [simp]:
  "good_candidate london" "good_candidate (JObj [(''name'', JStr ''London''), (''country'', JStr ''UK'')])"
  by (simp_all add: london_def good_candidate_def obj_get_def prop_key_def)

lemma ex_good:
  "good_state ex_started" "good_state ex_panel" "good_state ex_two_searches" "good_state ex_typed"
  by (simp_all add: ex_defs good_state_def good_weather_def good_locations_def)

lemma ex_renders:
  "\<exists>v. render ex_started = Inr v" "\<exists>v. render ex_panel = Inr v" "\<exists>v. render ex_typed = Inr v"
  using good_state_render ex_good by blast+

lemma islamabad_good: "good_weather islamabad_forecast"
  by (simp add: islamabad_forecast_def good_weather_def obj_get_def prop_key_def)

section \<open>Witnesses\<close>

theorem pressLocation_selects_witness:
  "(\<exists>v. render ex_panel = Inr v) \<and> locations ex_panel = JArr [london] \<and> showSearch ex_panel \<and>
   0 < length [london] \<and> \<not> nullish ([london] ! 0) \<and>
   (\<exists>s'. react_step ex_panel (PressLocation 0) = Inr s' \<and> locations s' = JArr [] \<and>
      \<not> showSearch s' \<and> weather s' = weather ex_panel \<and>
      sent s' = sent ex_panel @
        [fetchWeatherForecast ''KEY'' \<lparr>cityName = JStr ''London'', days = JStr ''7''\<rparr>])"
proof -
  obtain v where v: "render ex_panel = Inr v" using ex_renders by blast
  have h: "locations ex_panel = JArr [london]" "showSearch ex_panel" "0 < length [london]"
    "\<not> nullish ([london] ! 0)"
    by (simp_all add: ex_panel_def london_def)
  have k: "apiKey ex_panel = ''KEY''" "opt_path ([london] ! 0) [Name ''name''] = JStr ''London''"
    by (simp_all add: ex_defs obj_get_def prop_key_def)
  show ?thesis using pressLocation_selects [OF v h] v h k by auto
qed

theorem wait_sends_search_witness:
  "(\<exists>v. render ex_typed = Inr v) \<and>
   (\<exists>s'. react_step ex_typed (Wait 1200) = Inr s' \<and>
      sent s' = sent ex_typed @ [fetchLocation ''KEY'' \<lparr>cityName = JStr ''Lon'', days = JUndefined\<rparr>])"
proof -
  obtain v where v: "render ex_typed = Inr v" using ex_renders by blast
  have "timer ex_typed = Some (''Lon'', 1200)" "clock ex_typed = 0" "apiKey ex_typed = ''KEY''"
    by (simp_all add: ex_defs)
  with wait_sends_search [OF v, of 1200] v show ?thesis by auto
qed

theorem typing_searches_once_witness:
  "(\<exists>v. render ex_started = Inr v) \<and>
   burst_then_pause [(''L'', 300), (''Lo'', 300), (''Lon'', 1200)] \<and>
   burst_then_pause [(''L'', 300), (''Lo'', 1200)] \<and>
   (\<exists>s'. run ex_started (typing [(''L'', 300), (''Lo'', 300), (''Lon'', 1200)]) = Inr s' \<and>
      timer s' = None \<and>
      sent s' = sent ex_started @ [fetchLocation ''KEY'' \<lparr>cityName = JStr ''Lon'', days = JUndefined\<rparr>]) \<and>
   (\<exists>s'. run ex_started (typing [(''L'', 300), (''Lo'', 1200)]) = Inr s' \<and>
      timer s' = None \<and> sent s' = sent ex_started)"
proof -
  obtain v where v: "render ex_started = Inr v" using ex_renders by blast
  have b: "burst_then_pause [(''L'', 300), (''Lo'', 300), (''Lon'', 1200)]"
    "burst_then_pause [(''L'', 300), (''Lo'', 1200)]"
    by (simp_all add: burst_then_pause_def)
  have k: "apiKey ex_started = ''KEY''" by (simp add: ex_defs)
  show ?thesis
    using typing_searches_once [OF v b(1)] typing_searches_once [OF v b(2)] v b k by auto
qed

lemma ex_inflight:
  "map_of (inflight ex_started) 0 =
     Some (ThenSetWeather, fetchWeatherForecast ''KEY'' \<lparr>cityName = JStr ''Islamabad'', days = JStr ''7''\<rparr>)"
  "map_of (inflight ex_two_searches) 1 =
     Some (AwaitSetLocations, fetchLocation ''KEY'' \<lparr>cityName = JStr ''Lon'', days = JUndefined\<rparr>)"
  "map_of (inflight ex_two_searches) 2 =
     Some (AwaitSetLocations, fetchLocation ''KEY'' \<lparr>cityName = JStr ''Lond'', days = JUndefined\<rparr>)"
  by (simp_all add: ex_defs)

theorem last_search_response_wins_witness:
  "map_of (inflight ex_two_searches) 1 =
     Some (AwaitSetLocations, fetchLocation ''KEY'' \<lparr>cityName = JStr ''Lon'', days = JUndefined\<rparr>) \<and>
   map_of (inflight ex_two_searches) 2 =
     Some (AwaitSetLocations, fetchLocation ''KEY'' \<lparr>cityName = JStr ''Lond'', days = JUndefined\<rparr>) \<and>
   (1::nat) \<noteq> 2 \<and> good_weather (weather ex_two_searches) \<and>
   good_locations (apiCall_result (Reply 200 (JArr [london]))) \<and>
   good_locations (apiCall_result (Reply 200 (JArr []))) \<and>
   (\<exists>s'. run ex_two_searches [Settle 2 (Reply 200 (JArr [])), Settle 1 (Reply 200 (JArr [london]))]
      = Inr s' \<and> locations s' = JArr [london])"
proof -
  have g: "good_weather (weather ex_two_searches)" using ex_good by (simp add: good_state_def)
  have o: "good_locations (apiCall_result (Reply 200 (JArr [london])))"
    "good_locations (apiCall_result (Reply 200 (JArr [])))"
    "apiCall_result (Reply 200 (JArr [london])) = JArr [london]"
    by (simp_all add: apiCall_result_def axios_ok_def good_locations_def london_def)
  show ?thesis
    using last_search_response_wins [OF ex_inflight(2) ex_inflight(3) _ g o(1) o(2)] ex_inflight g o
    by auto
qed

theorem forecast_reply_replaces_witness:
  "map_of (inflight ex_started) 0 =
     Some (ThenSetWeather, fetchWeatherForecast ''KEY'' \<lparr>cityName = JStr ''Islamabad'', days = JStr ''7''\<rparr>) \<and>
   good_locations (locations ex_started) \<and> axios_ok 200 \<and> good_weather islamabad_forecast \<and>
   (\<exists>s'. react_step ex_started (Settle 0 (Reply 200 islamabad_forecast)) = Inr s' \<and>
      weather s' = islamabad_forecast \<and> locations s' = locations ex_started)"
proof -
  have h: "good_locations (locations ex_started)" "axios_ok 200"
    using ex_good by (simp_all add: good_state_def axios_ok_def)
  show ?thesis
    using forecast_reply_replaces [OF ex_inflight(1) h islamabad_good] ex_inflight(1) h islamabad_good
    by blast
qed

theorem forecast_failure_crashes_witness:
  "map_of (inflight ex_started) 0 =
     Some (ThenSetWeather, fetchWeatherForecast ''KEY'' \<lparr>cityName = JStr ''Islamabad'', days = JStr ''7''\<rparr>) \<and>
   transport_failure NoReply \<and> (\<exists>e. react_step ex_started (Settle 0 NoReply) = Inl e)"
proof -
  have f: "transport_failure NoReply" by (simp add: transport_failure_def)
  show ?thesis using forecast_failure_crashes [OF ex_inflight(1) f] ex_inflight(1) f by blast
qed

theorem search_failure_crashes_witness:
  "map_of (inflight ex_two_searches) 1 =
     Some (AwaitSetLocations, fetchLocation ''KEY'' \<lparr>cityName = JStr ''Lon'', days = JUndefined\<rparr>) \<and>
   transport_failure (Reply 503 JNull) \<and>
   (\<exists>e. react_step ex_two_searches (Settle 1 (Reply 503 JNull)) = Inl e)"
proof -
  have f: "transport_failure (Reply 503 JNull)" by (simp add: transport_failure_def axios_ok_def)
  show ?thesis using search_failure_crashes [OF ex_inflight(2) f] ex_inflight(2) f by blast
qed

theorem good_events_never_crash_witness:
  "good_state ex_started \<and> good_event ex_started (Settle 0 (Reply 200 islamabad_forecast)) \<and>
   (\<exists>s'. react_step ex_started (Settle 0 (Reply 200 islamabad_forecast)) = Inr s' \<and> good_state s')"
proof -
  have e: "good_event ex_started (Settle 0 (Reply 200 islamabad_forecast))"
    using ex_inflight(1) islamabad_good by (simp add: good_event_def apiCall_result_def axios_ok_def)
  show ?thesis using good_events_never_crash [OF ex_good(1) e] ex_good(1) e by blast
qed

lemma ex_started_reachable: "reachable ex_started"
proof -
  have "good_state (init_screen ''KEY'')"
    by (simp add: good_state_def init_screen_def good_weather_def good_locations_def)
  then obtain v where "render (init_screen ''KEY'') = Inr v" using good_state_render by blast
  then have "startup ''KEY'' = Inr ex_started" by (simp add: startup_def ex_started_def)
  then show ?thesis by (rule reachable.start)
qed

theorem reachable_screen_inv_witness: "reachable ex_started \<and> screen_inv ex_started"
  using ex_started_reachable reachable_screen_inv [OF ex_started_reachable] by blast

theorem press_search_twice_witness:
  "good_state ex_panel \<and> run ex_panel [PressSearch, PressSearch] = Inr ex_panel"
  using press_search_twice [OF ex_good(2)] ex_good(2) by blast

theorem location_rows_borders_witness:
  "\<exists>v rs. render ex_panel = Inr v \<and> location_rows v = Some rs \<and>
     showSearch ex_panel \<and> rs \<noteq> [] \<and> locations ex_panel = JArr (map row_loc rs) \<and>
     (\<forall>i < length rs. row_border (rs ! i) \<longleftrightarrow> Suc i \<noteq> length rs)"
proof -
  obtain v where v: "render ex_panel = Inr v" using ex_renders by blast
  have "render_rows (showSearch ex_panel) (locations ex_panel) = Inr (Some [render_row 1 (0, london)])"
    by (simp add: ex_panel_def render_rows_def)
  with render_Inr_rows [OF v] have rs: "location_rows v = Some [render_row 1 (0, london)]" by simp
  show ?thesis using location_rows_borders [OF v rs] v rs by blast
qed

theorem stale_search_repopulates_witness:
  "good_state ex_searching \<and>
   map_of (inflight ex_searching) 1 =
     Some (AwaitSetLocations, fetchLocation ''KEY'' \<lparr>cityName = JStr ''Lond'', days = JUndefined\<rparr>) \<and>
   locations ex_searching = JArr [london] \<and> showSearch ex_searching \<and> 0 < length [london] \<and>
   good_locations (apiCall_result (Reply 200 (JArr [london]))) \<and>
   (\<exists>s'. run ex_searching [PressLocation 0, Settle 1 (Reply 200 (JArr [london])), PressSearch] = Inr s' \<and>
      locations s' = JArr [london] \<and> showSearch s')"
proof -
  have h: "good_state ex_searching"
    "map_of (inflight ex_searching) 1 =
       Some (AwaitSetLocations, fetchLocation ''KEY'' \<lparr>cityName = JStr ''Lond'', days = JUndefined\<rparr>)"
    "locations ex_searching = JArr [london]" "showSearch ex_searching" "0 < length [london]"
    "good_locations (apiCall_result (Reply 200 (JArr [london])))"
    "apiCall_result (Reply 200 (JArr [london])) = JArr [london]"
    by (simp_all add: ex_searching_def ex_defs good_state_def good_weather_def good_locations_def
        apiCall_result_def axios_ok_def)
  show ?thesis using stale_search_repopulates [OF h(1-6)] h by auto
qed

theorem pending_search_runs_witness:
  "reachable ex_typed \<and> timer ex_typed = Some (''Lon'', 1200) \<and>
   (\<exists>s'. react_step ex_typed (Wait 1200) = Inr s' \<and> timer s' = None \<and>
      sent s' = sent ex_typed @ [fetchLocation ''KEY'' \<lparr>cityName = JStr ''Lon'', days = JUndefined\<rparr>])"
proof -
  obtain v where "render ex_started = Inr v" using ex_renders by blast
  then have "react_step ex_started (ChangeText ''Lon'') = Inr ex_typed"
    by (simp add: react_step_ChangeText ex_typed_def)
  with ex_started_reachable have r: "reachable ex_typed" by (rule reachable.step)
  have t: "timer ex_typed = Some (''Lon'', 1200)" "apiKey ex_typed = ''KEY''" by (simp_all add: ex_defs)
  show ?thesis using pending_search_runs [OF r t(1)] r t by auto
qed

theorem startup_refines_spec_witness:
  "conforming spec_init ex_session \<and>
   (\<exists>s. startup ''KEY'' = Inr s \<and> run s ex_session = Inr (conc ''KEY'' (spec_run spec_init ex_session)))"
proof -
  have c: "conforming spec_init ex_session"
    using islamabad_good
    by (simp add: ex_session_def spec_init_def spec_step_def spec_conforms_def issue_def
        search_result_def transport_ok_def axios_ok_def london_def)
  show ?thesis using startup_refines_spec [OF c] c by blast
qed

theorem typing_search_equiv_witness:
  "(\<exists>v. render ex_started = Inr v) \<and>
   (\<exists>s'. run ex_started (typing ex_keys) = Inr s' \<and>
      sent s' = sent ex_started @ [fetchLocation ''KEY'' \<lparr>cityName = JStr ''Lon'', days = JUndefined\<rparr>])"
proof -
  obtain v where v: "render ex_started = Inr v" using ex_renders by blast
  have k: "apiKey ex_started = ''KEY''" "typing_searches ex_keys = [''Lon'']"
    by (simp_all add: ex_defs ex_keys_def typing_searches_def)
  show ?thesis using typing_search_equiv [OF v, of ex_keys] v k by auto
qed

theorem run_sends_at_most_one_per_event_witness:
  "run ex_started [ChangeText ''Lon'', Wait 1200] =
     Inr (advance_time 1200 (handleTextDebounce ''Lon'' ex_started)) \<and>
   (\<exists>rs. sent (advance_time 1200 (handleTextDebounce ''Lon'' ex_started)) = sent ex_started @ rs \<and>
      length rs \<le> length [ChangeText ''Lon'', Wait 1200])"
proof -
  obtain v where v: "render ex_started = Inr v" using ex_renders by blast
  have r: "run ex_started [ChangeText ''Lon'', Wait 1200] =
      Inr (advance_time 1200 (handleTextDebounce ''Lon'' ex_started))"
    using keystroke(1) [OF v, of "''Lon''" 1200 "[]"] by simp
  show ?thesis using run_sends_at_most_one_per_event [OF r] r by blast
qed

theorem pending_work_completes_witness:
  "reachable ex_started \<and> good_state ex_started \<and>
   list_all (\<lambda>(n, k, r). good_out k ((\<lambda>_. Reply 200 islamabad_forecast) n))
     (inflight (advance_time 1200 ex_started)) \<and>
   (\<exists>s'. run ex_started (quiesce (\<lambda>_. Reply 200 islamabad_forecast) ex_started) = Inr s' \<and>
      inflight s' = [] \<and> timer s' = None \<and> good_state s')"
proof -
  have h: "list_all (\<lambda>(n, k, r). good_out k ((\<lambda>_. Reply 200 islamabad_forecast) n))
      (inflight (advance_time 1200 ex_started))"
    using islamabad_good
    by (simp add: ex_defs advance_time_def deb_advance_def good_out_def apiCall_result_def axios_ok_def)
  show ?thesis
    using pending_work_completes [OF ex_started_reachable ex_good(1) h] ex_started_reachable ex_good(1) h
    by blast
qed

theorem press_nullish_candidate_crashes_witness:
  "(\<exists>v. render ex_null_row = Inr v) \<and> locations ex_null_row = JArr [JNull] \<and>
   showSearch ex_null_row \<and> 0 < length [JNull] \<and> nullish ([JNull] ! 0) \<and>
   (\<exists>msg. react_step ex_null_row (PressLocation 0) = Inl (TypeError msg))"
proof -
  obtain v0 where v0: "render ex_started = Inr v0" using ex_renders by blast
  have "render_rows (showSearch ex_null_row) (locations ex_null_row) =
      Inr (Some (map (render_row 1) (enumerate 0 [JNull])))"
    by (simp add: ex_null_row_def render_rows_def)
  moreover have "weather ex_null_row = weather ex_started" by (simp add: ex_null_row_def)
  moreover have "list_all react_child_ok
      (concat (map (\<lambda>r. [row_name r, row_country r]) (map (render_row 1) (enumerate 0 [JNull]))))"
    by (simp add: render_row_def)
  ultimately obtain v where v: "render ex_null_row = Inr v"
    using render_swap_rows [OF v0] by fastforce
  have h: "locations ex_null_row = JArr [JNull]" "showSearch ex_null_row" "0 < length [JNull]"
    "nullish ([JNull] ! 0)"
    by (simp_all add: ex_null_row_def nullish_def)
  show ?thesis using press_nullish_candidate_crashes [OF v h] v h by blast
qed

theorem input_box_display_witness:
  "\<exists>v. render ex_started = Inr v \<and>
     style_prop (input_box_style (showSearch ex_started)) ''display'' =
       (if search_input_visible v then JUndefined else JStr ''none'') \<and>
     style_prop (input_box_style (showSearch ex_started)) ''height'' = JNum 45"
proof -
  obtain v where v: "render ex_started = Inr v" using ex_renders by blast
  have "style_prop (style ''inputBox'') ''height'' = JNum 45"
    by (simp add: style_prop_def style_def styles_kvs_def obj_get_def)
  then show ?thesis using input_box_display [OF v] v by auto
qed


theorem sent_requests_typed_witness:
  "reachable ex_started \<and> list_all (provider_request (apiKey ex_started)) (sent ex_started)"
  using ex_started_reachable sent_requests_typed [OF ex_started_reachable] by blast

theorem day_card_weekday_witness:
  "parse_iso_date ''2024-05-01'' = Some (2024, 5, 1) \<and> (1970::int) \<le> 2024 \<and> \<bar>- 300 :: int\<bar> < 1440 \<and>
   day_name (- 300) (JStr ''2024-05-01'') = ''Tuesday'' \<and> ref_weekday 2024 5 1 = 3"
proof -
  have p: "parse_iso_date ''2024-05-01'' = Some (2024, 5, 1)" by code_simp
  have w: "ref_weekday 2024 5 1 = 3" by code_simp
  have "day_name (- 300) (JStr ''2024-05-01'') = weekday_name ((ref_weekday 2024 5 1 + 6) mod 7)"
    using day_card_weekday [OF p] by simp
  then show ?thesis using p w by (simp add: weekday_name_def)
qed

theorem day_card_bad_date_witness:
  "(\<exists>c. render_day_card (JObj []) (JObj [(''day'', JObj [])]) = Inr c \<and>
      day_name 0 (card_date c) = ''Invalid Date'') \<and>
   (\<exists>c. render_day_card (JObj []) (JObj [(''date'', JNull)]) = Inr c \<and>
      day_name (- 300) (card_date c) = ''Wednesday'')"
proof -
  obtain c1 where c1: "render_day_card (JObj []) (JObj [(''day'', JObj [])]) = Inr c1"
    by (simp add: render_day_card_def obj_get_def prop_key_def)
  obtain c2 where c2: "render_day_card (JObj []) (JObj [(''date'', JNull)]) = Inr c2"
    by (simp add: render_day_card_def obj_get_def prop_key_def)
  have g: "get_prop (JObj [(''day'', JObj [])]) (Name ''date'') = Inr JUndefined"
    "get_prop (JObj [(''date'', JNull)]) (Name ''date'') = Inr JNull"
    by (simp_all add: obj_get_def prop_key_def)
  show ?thesis
    using day_card_bad_date [OF c1, of 0] day_card_bad_date [OF c2, of "- 300"] c1 c2 g by auto
qed

theorem search_text_reply_crashes_witness:
  "good_state ex_searching \<and>
   map_of (inflight ex_searching) 1 =
     Some (AwaitSetLocations, fetchLocation ''KEY'' \<lparr>cityName = JStr ''Lond'', days = JUndefined\<rparr>) \<and>
   axios_ok 200 \<and> ''<html>'' \<noteq> [] \<and>
   (\<exists>e. run ex_searching [Settle 1 (Reply 200 (JStr ''<html>'')), PressSearch] = Inl e)"
proof -
  have h: "good_state ex_searching"
    "map_of (inflight ex_searching) 1 =
       Some (AwaitSetLocations, fetchLocation ''KEY'' \<lparr>cityName = JStr ''Lond'', days = JUndefined\<rparr>)"
    "axios_ok 200" "''<html>'' \<noteq> []"
    by (simp_all add: ex_searching_def ex_defs good_state_def good_weather_def good_locations_def
        axios_ok_def)
  show ?thesis using search_text_reply_crashes [OF h] h by blast
qed

theorem selection_request_params_witness:
  "(\<exists>v. render ex_panel = Inr v) \<and> locations ex_panel = JArr [london] \<and> showSearch ex_panel \<and>
   0 < length [london] \<and> \<not> nullish ([london] ! 0) \<and>
   opt_path ([london] ! 0) [Name ''name''] = JStr ''London'' \<and>
   url_safe (apiKey ex_panel) \<and> url_safe ''London'' \<and>
   (\<exists>s'. react_step ex_panel (PressLocation 0) = Inr s' \<and>
      query_params (req_url (last (sent s'))) =
        [(''key'', ''KEY''), (''q'', ''London''), (''days'', ''7''), (''aqi'', ''no''), (''alerts'', ''no'')])"
proof -
  obtain v where v: "render ex_panel = Inr v" using ex_renders by blast
  have h: "locations ex_panel = JArr [london]" "showSearch ex_panel" "0 < length [london]"
    "\<not> nullish ([london] ! 0)" "opt_path ([london] ! 0) [Name ''name''] = JStr ''London''"
    "url_safe (apiKey ex_panel)" "url_safe ''London''" "apiKey ex_panel = ''KEY''"
    by (simp_all add: ex_defs ex_panel_def obj_get_def prop_key_def url_safe_def)
  show ?thesis using selection_request_params [OF v h(1-7)] v h by auto
qed

theorem stale_forecast_overwrites_selection_witness:
  "good_state ex_panel \<and> req_inv ex_panel \<and>
   map_of (inflight ex_panel) 0 =
     Some (ThenSetWeather, fetchWeatherForecast ''KEY'' \<lparr>cityName = JStr ''Islamabad'', days = JStr ''7''\<rparr>) \<and>
   locations ex_panel = JArr [london] \<and> showSearch ex_panel \<and> 0 < length [london] \<and>
   good_weather (apiCall_result (Reply 200 (JObj [(''location'', london)]))) \<and>
   good_weather (apiCall_result (Reply 200 islamabad_forecast)) \<and>
   (\<exists>s'. run ex_panel [PressLocation 0, Settle 1 (Reply 200 (JObj [(''location'', london)])),
                         Settle 0 (Reply 200 islamabad_forecast)] = Inr s' \<and>
      weather s' = islamabad_forecast)"
proof -
  have h: "good_state ex_panel" "req_inv ex_panel"
    "map_of (inflight ex_panel) 0 =
       Some (ThenSetWeather, fetchWeatherForecast ''KEY'' \<lparr>cityName = JStr ''Islamabad'', days = JStr ''7''\<rparr>)"
    "locations ex_panel = JArr [london]" "showSearch ex_panel" "0 < length [london]"
    "good_weather (apiCall_result (Reply 200 (JObj [(''location'', london)])))"
    "good_weather (apiCall_result (Reply 200 islamabad_forecast))"
  proof -
    show "good_state ex_panel" by (rule ex_good(2))
    show "req_inv ex_panel" by (simp add: ex_defs ex_panel_def req_inv_def)
    show "map_of (inflight ex_panel) 0 =
       Some (ThenSetWeather, fetchWeatherForecast ''KEY'' \<lparr>cityName = JStr ''Islamabad'', days = JStr ''7''\<rparr>)"
      "locations ex_panel = JArr [london]" "showSearch ex_panel" "0 < length [london]"
      by (simp_all add: ex_defs ex_panel_def)
    show "good_weather (apiCall_result (Reply 200 (JObj [(''location'', london)])))"
      by (simp add: apiCall_result_def axios_ok_def good_weather_def obj_get_def prop_key_def london_def)
    show "good_weather (apiCall_result (Reply 200 islamabad_forecast))"
      using islamabad_good by (simp add: apiCall_result_def axios_ok_def)
  qed
  have l: "length (sent ex_panel) = 1" "apiCall_result (Reply 200 islamabad_forecast) = islamabad_forecast"
    by (simp_all add: ex_defs ex_panel_def apiCall_result_def axios_ok_def)
  show ?thesis using stale_forecast_overwrites_selection [OF h] h l by auto
qed

theorem daily_cards_witness:
  "(\<exists>v. render ex_loaded = Inr v) \<and>
   (\<exists>v cs. render ex_loaded = Inr v \<and> daily v = Some cs \<and> map card_avgtemp cs = [JNum 24] \<and>
      map card_date cs = [JStr ''2024-05-01''] \<and> map card_icon cs = [''https://cdn/sunny.png''])"
proof -
  have "good_state ex_loaded"
    using islamabad_good by (simp add: ex_loaded_def ex_defs good_state_def good_locations_def)
  then obtain v where v: "render ex_loaded = Inr v" using good_state_render by blast
  let ?d = "JObj [(''date'', JStr ''2024-05-01''), (''day'', JObj [(''avgtemp_c'', JNum 24)]),
                  (''astro'', JObj [(''sunrise'', JStr ''05:31 AM'')])]"
  have fd: "opt_path (weather ex_loaded) [Name ''forecast'', Name ''forecastday''] = JArr [?d]"
    by (simp add: ex_loaded_def islamabad_forecast_def obj_get_def prop_key_def)
  obtain cs where cs: "daily v = Some cs" "length cs = 1"
    "card_date (cs ! 0) = JStr ''2024-05-01''" "card_avgtemp (cs ! 0) = JNum 24"
    "card_icon (cs ! 0) = ''https://cdn/sunny.png''"
    using daily_cards [OF v fd]
    by (auto simp: ex_loaded_def islamabad_forecast_def obj_get_def prop_key_def js_add_str_def)
  then have "cs = [cs ! 0]" by (cases cs) auto
  with v cs show ?thesis by (metis list.simps(8,9))
qed

theorem sunrise_first_day_witness:
  "(\<exists>v. render ex_loaded = Inr v \<and> sunrise v = JStr ''05:31 AM'') \<and>
   \<not> nullish (opt_path (weather ex_no_days) [Name ''forecast'']) \<and>
   nullish (opt_path (weather ex_no_days) [Name ''forecast'', Name ''forecastday'']) \<and>
   (\<exists>e. render ex_no_days = Inl e)"
proof -
  have "good_state ex_loaded"
    using islamabad_good by (simp add: ex_loaded_def ex_defs good_state_def good_locations_def)
  then obtain v where v: "render ex_loaded = Inr v" using good_state_render by blast
  have h: "\<not> nullish (opt_path (weather ex_no_days) [Name ''forecast''])"
    "nullish (opt_path (weather ex_no_days) [Name ''forecast'', Name ''forecastday''])"
    by (simp_all add: ex_no_days_def obj_get_def prop_key_def)
  have "sunrise v = JStr ''05:31 AM''"
    using sunrise_first_day [of ex_loaded v] v
    by (simp add: ex_loaded_def islamabad_forecast_def obj_get_def prop_key_def)
  with v h sunrise_first_day [of ex_no_days] show ?thesis by blast
qed

theorem header_fields_witness:
  "(\<exists>v. render ex_started = Inr v \<and> country_text v = '' undefined'' \<and> city_name v = JUndefined) \<and>
   (\<exists>v. render ex_loaded = Inr v \<and> country_text v = '' Pakistan'' \<and> temp_c v = JNum 21)"
proof -
  obtain v where v: "render ex_started = Inr v" using ex_renders by blast
  have "good_state ex_loaded"
    using islamabad_good by (simp add: ex_loaded_def ex_defs good_state_def good_locations_def)
  then obtain w where w: "render ex_loaded = Inr w" using good_state_render by blast
  have "country_text v = '' undefined'' \<and> city_name v = JUndefined"
    using header_fields [OF v] by (simp add: ex_defs)
  moreover have "country_text w = '' Pakistan'' \<and> temp_c w = JNum 21"
    using header_fields [OF w] by (simp add: ex_loaded_def islamabad_forecast_def obj_get_def prop_key_def)
  ultimately show ?thesis using v w by blast
qed

theorem typing_keeps_view_witness:
  "(\<exists>v. render ex_panel = Inr v) \<and>
   (\<exists>s'. run ex_panel (typing [(''Lon'', 1300), (''Lo'', 1300)]) = Inr s' \<and>
      locations s' = JArr [london] \<and> showSearch s')"
proof -
  obtain v where v: "render ex_panel = Inr v" using ex_renders by blast
  have "locations ex_panel = JArr [london]" "showSearch ex_panel" by (simp_all add: ex_panel_def)
  with v typing_keeps_view [OF v, of "[(''Lon'', 1300), (''Lo'', 1300)]"] show ?thesis by auto
qed

theorem resolution_flow_witness:
  "\<exists>s s'. startup ''KEY'' = Inr s \<and> run s ex_session = Inr s' \<and>
     weather s' = islamabad_forecast \<and> locations s' = JArr [] \<and> \<not> showSearch s' \<and>
     sent s' = [fetchWeatherForecast ''KEY'' \<lparr>cityName = JStr ''Islamabad'', days = JStr ''7''\<rparr>,
                fetchLocation ''KEY'' \<lparr>cityName = JStr ''Lon'', days = JUndefined\<rparr>,
                fetchWeatherForecast ''KEY'' \<lparr>cityName = JStr ''London'', days = JStr ''7''\<rparr>]"
proof -
  have h: "2 < length ''Lon''" "list_all good_candidate [london]" "0 < length [london]"
    "axios_ok 200"
    by (simp_all add: london_def axios_ok_def)
  have n: "opt_path ([london] ! 0) [Name ''name''] = JStr ''London''"
    by (simp add: london_def obj_get_def prop_key_def)
  show ?thesis
    using resolution_flow [OF h(1-3) islamabad_good h(4) h(4), of "''KEY''"]
    unfolding n ex_session_def by blast
qed

theorem object_candidate_crashes_witness:
  "map_of (inflight ex_searching) 1 =
     Some (AwaitSetLocations, fetchLocation ''KEY'' \<lparr>cityName = JStr ''Lond'', days = JUndefined\<rparr>) \<and>
   showSearch ex_searching \<and> axios_ok 200 \<and>
   opt_path (JObj [(''name'', JObj [(''x'', JNum 1)]), (''country'', JStr ''UK'')]) [Name ''name''] =
     JObj [(''x'', JNum 1)] \<and>
   (\<exists>e. react_step ex_searching
          (Settle 1 (Reply 200 (JArr [JObj [(''name'', JObj [(''x'', JNum 1)]), (''country'', JStr ''UK'')]]))) =
        Inl e)"
proof -
  have h: "map_of (inflight ex_searching) 1 =
     Some (AwaitSetLocations, fetchLocation ''KEY'' \<lparr>cityName = JStr ''Lond'', days = JUndefined\<rparr>)"
    "showSearch ex_searching" "axios_ok 200"
    "JObj [(''name'', JObj [(''x'', JNum 1)]), (''country'', JStr ''UK'')] \<in>
       set [JObj [(''name'', JObj [(''x'', JNum 1)]), (''country'', JStr ''UK'')]]"
    "\<not> react_child_ok (opt_path (JObj [(''name'', JObj [(''x'', JNum 1)]), (''country'', JStr ''UK'')])
                        [Name ''name'']) \<or>
     \<not> react_child_ok (opt_path (JObj [(''name'', JObj [(''x'', JNum 1)]), (''country'', JStr ''UK'')])
                        [Name ''country''])"
    by (simp_all add: ex_searching_def ex_panel_def ex_defs axios_ok_def obj_get_def prop_key_def)
  have "opt_path (JObj [(''name'', JObj [(''x'', JNum 1)]), (''country'', JStr ''UK'')]) [Name ''name''] =
     JObj [(''x'', JNum 1)]"
    by (simp add: obj_get_def prop_key_def)
  with h object_candidate_crashes [OF h] show ?thesis by blast
qed

end
