(* ===== verification/Spec2Isabelle.thy ===== *)
theory Spec2Isabelle
  imports Scenarios
begin

text \<open>
  \<^bold>\<open>A verification development of the weather screen (src/api/weather.js,
  src/screens/HomeScreens.js).\<close>

  \<^bold>\<open>The program.\<close> A React Native screen looks up a city's weather. Two parts:
  \<^item> the transport, src/api/weather.js: \<open>forecastEndpoint\<close> and \<open>locationEndpoint\<close>
    build the provider's URLs by template literals, \<open>apiCall\<close> sends a GET through axios
    and resolves to the response body or, after logging, to \<open>null\<close>;
    \<open>fetchWeatherForecast\<close> and \<open>fetchLocation\<close> compose them;
  \<^item> the screen, src/screens/HomeScreens.js: three state hooks (\<open>showSearch\<close>,
    \<open>locations\<close>, \<open>weather\<close>), the handlers \<open>handleLocation\<close>, \<open>handleSearch\<close>
    (debounced by lodash with 1200 ms), \<open>fetchMyweatherData\<close> (run once on mount), the
    search button's toggle, and the render, which reads the two responses' JSON
    without validating it.
  They interact through promises: a handler sends a request and the continuation of its
  \<open>then\<close>/\<open>await\<close> stores the resolved value in a state hook when the network answers,
  in whatever order the answers come.

  \<^bold>\<open>Theories and what they model.\<close>
  \<^item> \<open>Prelude\<close>: the error-sum bind \<open>sbind\<close> (a throwing JavaScript evaluation), a
    monadic map, splitting strings at separators, decimal printing; the collections
    \<open>js_simps\<close> and \<open>screen_simps\<close>.
  \<^item> \<open>JsValue\<close>: the JavaScript values both responses are (\<open>jsval\<close>: JSON plus
    \<open>undefined\<close>), property read \<open>get_prop\<close> (a TypeError on nullish values), optional
    chains \<open>chain\<close> with their short-circuit, \<open>opt_path\<close> (a chain of \<open>?.\<close> only,
    proved equal to \<open>chain\<close>), \<open>String(v)\<close> as \<open>js_to_string\<close>, \<open>v > 0\<close> as
    \<open>js_gt_zero\<close>. This is language semantics the source relies on.
  \<^item> \<open>Transport\<close>: the two endpoint builders, \<open>apiCall\<close> split at its suspension
    point into \<open>apiCall_request\<close> and \<open>apiCall_result\<close>, and the two fetchers; then
    the provider's reading of a URL query (WHATWG URL parsing and form decoding) as
    \<open>query_params\<close>, to state what the URLs carry.
  \<^item> \<open>Debounce\<close>: lodash \<open>debounce\<close> (trailing edge, no \<open>maxWait\<close>) as a pending
    invocation (arguments and due time) with \<open>deb_call\<close> and \<open>deb_advance\<close>; modelled
    from lodash's documented behaviour, lodash not being part of the repository.
  \<^item> \<open>HomeScreen\<close>: the screen's state as the record \<open>screen\<close> (the three hooks, the
    debouncer, the clock, the requests sent and those in flight with their
    continuation) and one definition per handler, with their guards and early exits:
    \<open>handleLocation\<close>, \<open>handleSearch\<close>, \<open>fetchMyweatherData\<close>, \<open>pressSearch\<close>,
    \<open>handleTextDebounce\<close>, \<open>advance_time\<close>, \<open>settle\<close>.
  \<^item> \<open>Render\<close>: every expression the JSX evaluates, as \<open>render\<close> returning a
    \<open>view\<close> or the error that crashes the app: a TypeError of an expression, or React's
    refusal of an object placed as a \<open>Text\<close> child (\<open>react_child_ok\<close> on the
    \<open>view_children\<close>, checked by \<open>react_commit\<close>); \<open>good_weather\<close> and
    \<open>good_locations\<close> (entries \<open>good_candidate\<close>), the data shapes under which the
    render cannot fail.
  \<^item> \<open>Flow\<close>: the events (\<open>PressSearch\<close>, \<open>ChangeText\<close>, \<open>Wait\<close>,
    \<open>PressLocation\<close>, \<open>Settle\<close>), \<open>react_step\<close> = handler then re-render, \<open>run\<close>,
    \<open>startup\<close>, the inductive \<open>reachable\<close>, and the invariant \<open>screen_inv\<close>.
  \<^item> \<open>Spec_Flow\<close>: the resolution flow of spec.md as an abstract machine
    (\<open>spec_step\<close> over the record \<open>flow\<close>: panel, candidate list, forecast, pending
    query, typed Transport calls), the concretisation \<open>conc\<close> into screen states, and the
    refinement: the code steps to \<open>conc\<close> of the spec's successor on every event that
    keeps to the spec's assumptions.
  \<^item> \<open>Runs\<close>: properties of whole runs: the searches of a typing session against a
    reference filter, the bound on requests sent, the typing of every request,
    completion of pending work, the crashes a \<open>null\<close> candidate, a candidate with an
    object as name or country, or a non-JSON search reply cause, what the provider reads from a selection's request, and a stale forecast
    overwriting a selection.
  \<^item> \<open>Styles\<close>: the \<open>StyleSheet.create\<close> table as data, \<open>StyleSheet.flatten\<close>, and
    the two styles the JSX computes from the state (search box, row border).
  \<^item> \<open>Dates\<close>: the weekday name of a daily card (\<open>new Date(item.date)\<close> and
    \<open>toLocaleDateString\<close>, lines 140-142) as \<open>day_name\<close>, over the engine's date
    arithmetic from ECMA-262 (\<open>js_date\<close>, \<open>parse_iso_date\<close>, \<open>make_day\<close>,
    \<open>day_from_year\<close>, \<open>week_day\<close>) and a reference calendar that counts days.
  \<^item> \<open>Display\<close>: what a successful render shows, read off \<open>render\<close>: the header
    fields, the sunrise line, the daily cards; typing as seen on the screen; and
    the whole resolution flow of spec.md section 4.2, computed on the abstract machine and
    transferred to the screen through the refinement of \<open>Spec_Flow\<close>.
  \<^item> \<open>Scenarios\<close>: the spec's fixture data and concrete states, and a witness for
    every claim with hypotheses.

  \<^bold>\<open>What is proved.\<close> Transport: the URLs carry exactly the intended query
  parameters for texts without URL syntax (round trip through the provider's parser),
  and a city name \<open>c&n=v\<close> makes the provider receive a parameter \<open>n = v\<close> of its
  own. Screen: selecting a candidate clears the list, closes the
  panel and requests that city's 7-day forecast; time passing sends a search exactly
  when the debounced call falls due and only for more than two characters; a typing
  burst then a pause sends one search for the final text; the last settled search wins
  whatever the order sent; a 2xx forecast replaces the displayed one; well-shaped
  responses never crash the screen; every reachable state keeps \<open>screen_inv\<close>; a
  pending search runs within 1200 ms. The code refines the spec's machine from startup on
  every event sequence whose responses succeed with the expected shape and which closes the
  panel only when its list is empty; a typing session sends exactly the searches of the
  reference filter (a pause of at least 1200 ms after a text of more than two characters);
  a run of \<open>n\<close> events sends at most \<open>n\<close> requests, and every request sent is a GET to one of the provider's endpoints with the key; all pending work completes after a 1200 ms pause and one settlement per request in
  flight; the hidden search box and the row borders are exactly what the flattened styles
  say; selecting a candidate with a URL-safe name sends a request the provider reads as
  that name over 7 days with the app's key; the engine's closed-form day count agrees with counting year lengths. The display: the daily cards are the
  forecast days in order with their dates and average temperatures; the sunrise line is
  the first day's; the header fields are the current weather's; typing never changes what is
  shown; and the spec's resolution flow (open, type, search reply, select, forecast
  reply) runs on the screen from startup and ends showing the selected forecast after
  exactly three requests. Divergences from spec.md, proved: a failed
  forecast or search stores \<open>null\<close> and crashes the next render (the spec requires the
  previous value to stay); toggling the panel does not clear the candidates; a search
  still in flight refills the list after a selection; a forecast still in flight (the
  startup one) that answers after a selection's replaces the selected city's forecast; pressing the row of a \<open>null\<close>
  candidate crashes the app; so does a search reply with a candidate whose name or
  country is an object (spec.md section 3 types them as strings); a 2xx search reply whose body is not JSON crashes it at
  \<open>locations.map\<close> (spec.md counts a malformed body as a failure). A defect the spec does not mention, proved: west of UTC
  every daily card shows the previous day's name, because a date-only string is UTC
  midnight and the name is taken in local time; a day without a date shows
  \<open>Invalid Date\<close>; every daily card shows the icon of the current condition rather
  than the day's; until the first forecast arrives the header shows the text
  \<open>" undefined"\<close>; a forecast object without \<open>forecastday\<close> crashes the render.
  A text shrinking to two characters or fewer leaves the candidates displayed, as section
  4.2 of spec.md says and contrary to its section 3.

  \<^bold>\<open>Time and bounds.\<close> Time is a natural number of milliseconds, advanced by
  \<open>Wait\<close>; the debouncer's due time is the last call plus 1200, and the invariant bounds
  it by the clock plus 1200, so a wait of 1200 always suffices. Every definition is
  total and structural or by a size measure: no fuel is needed, since the program has no
  loop beyond maps over response arrays.

  \<^bold>\<open>Not modelled.\<close> The layout engine and the inline style objects of the JSX
  (static, independent of the state), images and the
  \<open>weatherImages\<close> table of ../constants (the view keeps the lookup key), date strings
  in formats other than the date-only ISO form (ECMA-262 leaves them to the
  implementation; they read as invalid) and daylight-saving changes of the device's UTC
  offset, \<open>console\<close> logging,
  and axios beyond its status check. The provider's reading of a URL (C11, C12, C17, C29) applies
  the WHATWG URL parser to the string the app builds, which removes the trailing newline
  of the forecast URL; a platform HTTP stack that percent-encodes that newline instead
  (likely on iOS) would send it as part of the last parameter, which those claims do not
  cover. React's reconciler is modelled only by its check of \<open>Text\<close> children. JavaScript numbers are integers here; the source
  only passes them to the display. String lengths count list elements, as JavaScript
  counts UTF-16 code units for the text of the input.
\<close>

text \<open>
  C10: the spec's startup scenario. The mount effect sends exactly the forecast request
  for Islamabad over 7 days; when it is answered with the fixture, the screen shows
  21 degrees, the city's name and the first day's sunrise.
\<close>

theorem startup_scenario:
  "\<exists>s0 s1 v. startup k = Inr s0 \<and>
     sent s0 = [fetchWeatherForecast k \<lparr>cityName = JStr ''Islamabad'', days = JStr ''7''\<rparr>] \<and>
     react_step s0 (Settle 0 (Reply 200 islamabad_forecast)) = Inr s1 \<and> render s1 = Inr v \<and>
     temp_c v = JNum 21 \<and> city_name v = JStr ''Islamabad'' \<and> sunrise v = JStr ''05:31 AM''"
proof -
  let ?s0 = "fetchMyweatherData (init_screen k)"
  have "good_state (init_screen k)"
    by (simp add: good_state_def init_screen_def good_weather_def good_locations_def)
  then obtain v0 where "render (init_screen k) = Inr v0" using good_state_render by blast
  then have st: "startup k = Inr ?s0" by (simp add: startup_def)
  have sent0: "sent ?s0 = [fetchWeatherForecast k \<lparr>cityName = JStr ''Islamabad'', days = JStr ''7''\<rparr>]"
    by (simp add: fetchMyweatherData_def init_screen_def)
  have m: "map_of (inflight ?s0) 0 =
      Some (ThenSetWeather, fetchWeatherForecast k \<lparr>cityName = JStr ''Islamabad'', days = JStr ''7''\<rparr>)"
    by (simp add: fetchMyweatherData_def init_screen_def)
  let ?s1 = "settle 0 (Reply 200 islamabad_forecast) ?s0"
  have f1: "weather ?s1 = islamabad_forecast \<and> locations ?s1 = locations ?s0"
    using settle_weather [OF m] by (simp add: apiCall_result_def axios_ok_def)
  have f2: "locations ?s0 = JArr []" "showSearch ?s0 = False"
    by (simp_all add: fetchMyweatherData_def init_screen_def)
  have f: "weather ?s1 = islamabad_forecast" "locations ?s1 = JArr []" "showSearch ?s1 = False"
    using f1 f2 by simp_all
  have eq: "render ?s1 = render ((init_screen k)\<lparr>weather := islamabad_forecast\<rparr>)"
    by (rule render_cong; simp only: f; simp add: init_screen_def)
  have "\<exists>v. render ((init_screen k)\<lparr>weather := islamabad_forecast\<rparr>) = Inr v \<and> temp_c v = JNum 21 \<and>
      city_name v = JStr ''Islamabad'' \<and> sunrise v = JStr ''05:31 AM''"
    by (simp add: render_def init_screen_def islamabad_forecast_def obj_get_def prop_key_def
        render_sunrise_def render_daily_def render_day_card_def render_rows_def view_children_def)
  then have "\<exists>v. render ?s1 = Inr v \<and> temp_c v = JNum 21 \<and> city_name v = JStr ''Islamabad'' \<and>
      sunrise v = JStr ''05:31 AM''"
    by (simp only: eq)
  then obtain v where v: "render ?s1 = Inr v" "temp_c v = JNum 21"
    "city_name v = JStr ''Islamabad''" "sunrise v = JStr ''05:31 AM''" by blast
  have "react_step ?s0 (Settle 0 (Reply 200 islamabad_forecast)) = Inr ?s1"
    using v(1) by (simp add: react_step_Settle)
  with st sent0 v show ?thesis by blast
qed

end
